(* ===== verification/Prelude.thy ===== *)
theory Prelude
  imports Main "HOL-Library.Word"
begin

section \<open>Shared types, error values and list lemmas\<close>

text \<open>
  What every other theory builds on: the Go types the program uses (UUIDs, instants,
  durations, 32-bit integers, byte strings), Go's \<open>error\<close> values with the wrapping and
  the \<open>errors.Is\<close> / \<open>errors.As\<close> searches, the sentinel errors of the packages
  \<open>auth\<close> and \<open>services\<close>, and the list lemmas the tables need.

  A Go function that returns \<open>(T, error)\<close> is a function into \<open>go_error + 'a\<close>; one that
  returns \<open>error\<close> alone is a function into \<open>go_error option\<close>. A Go string is its bytes,
  so it is a HOL \<open>string\<close> (a list of 8-bit characters).
\<close>

subsection \<open>Types\<close>

type_synonym uuid = "128 word" \<comment> \<open>uuid.UUID, [16]byte; Postgres orders uuids bytewise, as the word order does\<close>
type_synonym instant = int \<comment> \<open>time.Time, as nanoseconds since the Unix epoch\<close>
type_synonym duration = int \<comment> \<open>time.Duration, in nanoseconds\<close>
type_synonym int32 = "32 word"
type_synonym byte = "8 word"

abbreviation uuid_nil :: uuid where
  "uuid_nil \<equiv> 0"

definition second :: duration where
  "second = 1000000000"

definition minute :: duration where
  "minute = 60 * second"

definition hour :: duration where
  "hour = 60 * minute"

subsection \<open>Error values\<close>

text \<open>
  The sentinels are package-level variables compared by identity, so each is a constructor of
  its own. \<open>Wrapf m e\<close> is \<open>fmt.Errorf("m: %w", e)\<close>, \<open>Joined a b\<close> is
  \<open>errors.Join(a, b)\<close>, \<open>New_Error m\<close> is an \<open>errors.New(m)\<close> or \<open>fmt.Errorf\<close>
  without a wrapped error. \<open>Err_No_Rows\<close> is \<open>sql.ErrNoRows\<close>, \<open>Pg_Error c\<close> a
  \<open>*pgconn.PgError\<close> with SQLSTATE \<open>c\<close>, \<open>Jwt_Token_Expired\<close> is
  \<open>jwt.ErrTokenExpired\<close>; \<open>Json_Syntax_Error\<close>, \<open>Json_Type_Error\<close> are the two
  error types of \<open>encoding/json\<close> the handlers look for. \<open>Foreign_Error m\<close> is any other
  error a driver or library hands back.
\<close>

datatype go_error =
    Err_No_Rows
  | Pg_Error string
  | Err_User_Not_Found
  | Err_Email_Already_Exists
  | Err_Invalid_Credentials
  | Err_Token_Expired
  | Err_Token_Invalid
  | Err_Refresh_Token_Revoked
  | Err_Refresh_Token_Reuse
  | Err_Refresh_Token_Expired
  | Jwt_Token_Expired
  | Json_Syntax_Error string
  | Json_Type_Error string
  | Foreign_Error string
  | New_Error string
  | Wrapf string go_error
  | Joined go_error go_error

text \<open>\<open>errors.Is\<close>: the error itself or one it wraps is the target.\<close>

fun errors_is :: "go_error \<Rightarrow> go_error \<Rightarrow> bool" where
  "errors_is (Wrapf m e) t = (Wrapf m e = t \<or> errors_is e t)"
| "errors_is (Joined a b) t = (Joined a b = t \<or> errors_is a t \<or> errors_is b t)"
| "errors_is e t = (e = t)"

text \<open>\<open>errors.AsType[*pgconn.PgError]\<close>: the code of the first such error of the chain.\<close>

fun errors_as_pg :: "go_error \<Rightarrow> string option" where
  "errors_as_pg (Pg_Error c) = Some c"
| "errors_as_pg (Wrapf m e) = errors_as_pg e"
| "errors_as_pg (Joined a b) =
     (case errors_as_pg a of Some c \<Rightarrow> Some c | None \<Rightarrow> errors_as_pg b)"
| "errors_as_pg _ = None"

text \<open>The text an error prints, with the sentinels' messages as the source has them.\<close>

fun error_string :: "go_error \<Rightarrow> string" where
  "error_string Err_No_Rows = ''sql: no rows in result set''"
| "error_string (Pg_Error c) = ''SQLSTATE '' @ c"
| "error_string Err_User_Not_Found = ''services: user not found''"
| "error_string Err_Email_Already_Exists = ''services: email already exists''"
| "error_string Err_Invalid_Credentials = ''auth: invalid credentials''"
| "error_string Err_Token_Expired = ''auth: token expired''"
| "error_string Err_Token_Invalid = ''auth: token invalid''"
| "error_string Err_Refresh_Token_Revoked = ''auth: refresh token revoked''"
| "error_string Err_Refresh_Token_Reuse = ''auth: refresh token reuse detected''"
| "error_string Err_Refresh_Token_Expired = ''auth: refresh token expired''"
| "error_string Jwt_Token_Expired = ''token is expired''"
| "error_string (Json_Syntax_Error m) = m"
| "error_string (Json_Type_Error m) = m"
| "error_string (Foreign_Error m) = m"
| "error_string (New_Error m) = m"
| "error_string (Wrapf m e) = m @ '': '' @ error_string e"
| "error_string (Joined a b) = error_string a @ [CHR 0x0A] @ error_string b"

text \<open>Wrapping hides nothing from the two searches.\<close>

lemma errors_is_refl [simp]: "errors_is e e"
  by (cases e) simp_all

lemma errors_is_wrap: "errors_is e t \<Longrightarrow> errors_is (Wrapf m e) t"
  by simp

subsection \<open>Collections of facts\<close>

named_theorems frame_simps \<open>what an operation leaves unchanged in the state\<close>
named_theorems table_simps \<open>lookups and updates of the tables\<close>
named_theorems op_defs \<open>the definitions of the layers between a handler and the tables\<close>

subsection \<open>Lists\<close>

lemma find_Some_iff_unique:
  assumes "distinct (map f xs)" and "x \<in> set xs"
  shows "find (\<lambda>y. f y = f x) xs = Some x"
  using assms by (induction xs) (auto simp: image_iff)

lemma find_None_iff': "find P xs = None \<longleftrightarrow> (\<forall>x\<in>set xs. \<not> P x)"
  by (auto simp: find_None_iff)

lemma find_SomeD: "find P xs = Some x \<Longrightarrow> x \<in> set xs \<and> P x"
  by (auto simp: find_Some_iff)

lemma distinct_map_update:
  assumes "distinct (map f xs)" and "\<And>x. x \<in> set xs \<Longrightarrow> f (g x) = f x"
  shows "distinct (map f (map g xs))"
proof -
  have "map f (map g xs) = map f xs" using assms(2) by simp
  with assms(1) show ?thesis by (simp only:)
qed

lemma distinct_map_inj:
  "distinct (map f xs) \<Longrightarrow> x \<in> set xs \<Longrightarrow> y \<in> set xs \<Longrightarrow> f x = f y \<Longrightarrow> x = y"
  by (auto simp: distinct_map dest: inj_onD)

lemma distinct_map_filter': "distinct (map f xs) \<Longrightarrow> distinct (map f (filter P xs))"
  by (rule distinct_map_filter)

lemma find_map: "find P (map f xs) = map_option f (find (\<lambda>x. P (f x)) xs)"
  by (induction xs) auto

lemma filter_map_if:
  assumes "\<And>x. x \<in> set xs \<Longrightarrow> P (f x) \<Longrightarrow> P x"
  shows "length (filter P (map f xs)) \<le> length (filter P xs)"
  using assms by (induction xs) auto

end
