(* ===== verification/Runtime.thy ===== *)
theory Runtime
  imports Prelude
begin

section \<open>The process environment: clock, UUIDs, entropy\<close>

text \<open>
  The services read the wall clock (\<open>time.Now\<close>), make random UUIDs (\<open>uuid.New\<close>)
  and read random bytes (\<open>crypto/rand.Read\<close>). The environment record holds what each
  of those would answer at each moment, as a function of the step number \<open>tick\<close>; every
  interaction reads the answer of the current step and moves to the next one. So each
  operation is a function of the state, and a theorem about every state is a theorem about
  every clock, every supply of UUIDs and every source of entropy.

  The record is extensible: the database extends it (\<open>Sql_Store\<close>), and the service layer,
  which has no database awareness, is polymorphic in the extension.
\<close>

record env =
  tick :: nat
  clock_at :: "nat \<Rightarrow> instant"
  uuid_at :: "nat \<Rightarrow> uuid"
  entropy_at :: "nat \<Rightarrow> nat \<Rightarrow> byte"
  entropy_fault_at :: "nat \<Rightarrow> string option"

definition next_tick :: "'d env_scheme \<Rightarrow> 'd env_scheme" where
  "next_tick w = w\<lparr>tick := Suc (tick w)\<rparr>"

definition time_now :: "'d env_scheme \<Rightarrow> instant \<times> 'd env_scheme" where
  "time_now w = (clock_at w (tick w), next_tick w)"

definition uuid_new :: "'d env_scheme \<Rightarrow> uuid \<times> 'd env_scheme" where
  "uuid_new w = (uuid_at w (tick w), next_tick w)"

text \<open>\<open>rand.Read(b)\<close> fills the whole slice or fails.\<close>

definition rand_read :: "nat \<Rightarrow> 'd env_scheme \<Rightarrow> (go_error + byte list) \<times> 'd env_scheme" where
  "rand_read n w =
     (case entropy_fault_at w (tick w) of
        Some m \<Rightarrow> (Inl (Foreign_Error m), next_tick w)
      | None \<Rightarrow> (Inr (map (entropy_at w (tick w)) [0..<n]), next_tick w))"

subsection \<open>What a step may change\<close>

text \<open>
  \<open>env_step w w'\<close>: the environment moved on from \<open>w\<close> to \<open>w'\<close>, nothing of it was
  rewritten. Every operation of every layer is such a step.
\<close>

definition env_step :: "'d env_scheme \<Rightarrow> 'd env_scheme \<Rightarrow> bool" where
  "env_step w w' \<longleftrightarrow> tick w \<le> tick w' \<and> clock_at w' = clock_at w \<and> uuid_at w' = uuid_at w
     \<and> entropy_at w' = entropy_at w \<and> entropy_fault_at w' = entropy_fault_at w"

lemma env_step_refl [simp]: "env_step w w"
  by (simp add: env_step_def)

lemma env_step_trans [trans]: "env_step a b \<Longrightarrow> env_step b c \<Longrightarrow> env_step a c"
  by (simp add: env_step_def)

lemma env_step_next_tick [simp]: "env_step w (next_tick w)"
  by (simp add: env_step_def next_tick_def)

lemma tick_next_tick [simp]: "tick (next_tick w) = Suc (tick w)"
  by (simp add: next_tick_def)

lemma oracles_next_tick [simp]:
  "clock_at (next_tick w) = clock_at w" "uuid_at (next_tick w) = uuid_at w"
  "entropy_at (next_tick w) = entropy_at w" "entropy_fault_at (next_tick w) = entropy_fault_at w"
  by (simp_all add: next_tick_def)

lemma env_step_uuid: "env_step w w' \<Longrightarrow> uuid_at w' = uuid_at w"
  by (simp add: env_step_def)

lemma env_step_tick: "env_step w w' \<Longrightarrow> tick w \<le> tick w'"
  by (simp add: env_step_def)

lemma snd_time_now [simp]: "snd (time_now w) = next_tick w"
  by (simp add: time_now_def)

lemma snd_uuid_new [simp]: "snd (uuid_new w) = next_tick w"
  by (simp add: uuid_new_def)

lemma snd_rand_read [simp]: "snd (rand_read n w) = next_tick w"
  by (simp add: rand_read_def split: option.split)

lemma rand_read_length: "rand_read n w = (Inr bs, w') \<Longrightarrow> length bs = n"
  by (auto simp: rand_read_def split: option.splits)

end
