(* ===== verification/Models.thy ===== *)
theory Models
  imports Prelude
begin

section \<open>Domain types (internal/models)\<close>

text \<open>
  The records shared by the handler, service and repository layers, field by field. A Go
  pointer field that may be nil is an \<open>option\<close>. \<open>page_key\<close> is the pair
  \<open>(created_at, id)\<close> the user list is ordered and cut by; it is a linear order, the
  lexicographic one SQL uses for row comparison.
\<close>

record user =
  u_id :: uuid
  u_email :: string
  u_password_hash :: string
  u_name :: string
  u_created_at :: instant
  u_updated_at :: instant

record user_create =
  uc_email :: string
  uc_password_hash :: string
  uc_name :: string

record user_update =
  uu_email :: "string option"
  uu_password_hash :: "string option"
  uu_name :: "string option"

record page_cursor =
  pc_created_at :: instant
  pc_id :: uuid

record list_users_input =
  lui_limit :: int32
  lui_cursor :: "page_cursor option"

record refresh_token =
  t_id :: uuid
  t_user_id :: uuid
  t_token_hash :: string
  t_chain_id :: uuid
  t_revoked_at :: "instant option"
  t_expires_at :: instant
  t_created_at :: instant
  t_updated_at :: instant

record refresh_token_create =
  tc_user_id :: uuid
  tc_token_hash :: string
  tc_chain_id :: uuid
  tc_expires_at :: instant

text \<open>A token is active while its \<open>RevokedAt\<close> is nil.\<close>

definition active :: "refresh_token \<Rightarrow> bool" where
  "active t \<longleftrightarrow> t_revoked_at t = None"

subsection \<open>The order of the user list\<close>

datatype page_key = Page_Key instant uuid

instantiation page_key :: linorder
begin

definition less_eq_page_key :: "page_key \<Rightarrow> page_key \<Rightarrow> bool" where
  "less_eq_page_key k l =
     (case k of Page_Key s i \<Rightarrow> case l of Page_Key t j \<Rightarrow> s < t \<or> s = t \<and> i \<le> j)"

definition less_page_key :: "page_key \<Rightarrow> page_key \<Rightarrow> bool" where
  "less_page_key k l =
     (case k of Page_Key s i \<Rightarrow> case l of Page_Key t j \<Rightarrow> s < t \<or> s = t \<and> i < j)"

instance
  by standard
    (auto simp: less_eq_page_key_def less_page_key_def split: page_key.splits)

end

lemma Page_Key_less [simp]: "Page_Key s i < Page_Key t j \<longleftrightarrow> s < t \<or> s = t \<and> i < j"
  by (simp add: less_page_key_def)

lemma Page_Key_le [simp]: "Page_Key s i \<le> Page_Key t j \<longleftrightarrow> s < t \<or> s = t \<and> i \<le> j"
  by (simp add: less_eq_page_key_def)

definition user_key :: "user \<Rightarrow> page_key" where
  "user_key u = Page_Key (u_created_at u) (u_id u)"

definition cursor_key :: "page_cursor \<Rightarrow> page_key" where
  "cursor_key c = Page_Key (pc_created_at c) (pc_id c)"

subsection \<open>What the statements mean on domain values\<close>

text \<open>Revoking the active tokens that satisfy a condition, at a given time.\<close>

definition revoke_tokens ::
    "(refresh_token \<Rightarrow> bool) \<Rightarrow> instant \<Rightarrow> refresh_token list \<Rightarrow> refresh_token list" where
  "revoke_tokens P now ts =
     map (\<lambda>t. if P t \<and> active t then t\<lparr>t_revoked_at := Some now, t_updated_at := now\<rparr> else t) ts"

text \<open>A page of users: the newest first, strictly after the cursor, at most \<open>n\<close>.\<close>

definition ordered_users :: "user list \<Rightarrow> user list" where
  "ordered_users us = rev (sort_key user_key us)"

definition after_cursor :: "page_cursor option \<Rightarrow> user \<Rightarrow> bool" where
  "after_cursor c u = (case c of None \<Rightarrow> True | Some k \<Rightarrow> user_key u < cursor_key k)"

definition user_page :: "nat \<Rightarrow> page_cursor option \<Rightarrow> user list \<Rightarrow> user list" where
  "user_page n c us = take n (ordered_users (filter (after_cursor c) us))"

text \<open>A patch: the fields that are present replace the user's.\<close>

definition patch_user :: "user_update \<Rightarrow> instant \<Rightarrow> user \<Rightarrow> user" where
  "patch_user p now u =
     u\<lparr>u_email := (case uu_email p of None \<Rightarrow> u_email u | Some e \<Rightarrow> e),
       u_password_hash := (case uu_password_hash p of None \<Rightarrow> u_password_hash u | Some h \<Rightarrow> h),
       u_name := (case uu_name p of None \<Rightarrow> u_name u | Some n \<Rightarrow> n),
       u_updated_at := now\<rparr>"

lemma active_simps [simp]:
  "active (t\<lparr>t_revoked_at := r\<rparr>) \<longleftrightarrow> r = None" "active (t\<lparr>t_updated_at := n\<rparr>) = active t"
  by (simp_all add: active_def)

lemma length_revoke_tokens [simp]: "length (revoke_tokens P now ts) = length ts"
  by (simp add: revoke_tokens_def)

lemma revoke_tokens_keys [simp]:
  "map t_id (revoke_tokens P now ts) = map t_id ts"
  "map t_token_hash (revoke_tokens P now ts) = map t_token_hash ts"
  "map t_chain_id (revoke_tokens P now ts) = map t_chain_id ts"
  "map t_user_id (revoke_tokens P now ts) = map t_user_id ts"
  by (simp_all add: revoke_tokens_def)

lemma in_revoke_tokens:
  "t' \<in> set (revoke_tokens P now ts) \<longleftrightarrow>
     (\<exists>t\<in>set ts. t' = (if P t \<and> active t then t\<lparr>t_revoked_at := Some now, t_updated_at := now\<rparr> else t))"
  by (auto simp: revoke_tokens_def)

lemma revoke_tokens_none: "(\<And>t. t \<in> set ts \<Longrightarrow> P t \<Longrightarrow> \<not> active t) \<Longrightarrow> revoke_tokens P now ts = ts"
  by (induction ts) (auto simp: revoke_tokens_def)

lemma active_revoke_tokens:
  "filter active (revoke_tokens P now ts) = filter (\<lambda>t. active t \<and> \<not> P t) ts"
  by (induction ts) (auto simp: revoke_tokens_def)

text \<open>For conditions on what revoking does not change: tokens outside the condition are as
  before, tokens inside it are not active.\<close>

lemma revoke_tokens_others:
  assumes "\<And>t. P t \<Longrightarrow> \<not> Q t" and "\<And>t n. Q (t\<lparr>t_revoked_at := Some n, t_updated_at := n\<rparr>) = Q t"
  shows "filter Q (revoke_tokens P now ts) = filter Q ts"
  by (induction ts) (use assms in \<open>auto simp: revoke_tokens_def\<close>)

lemma revoke_tokens_inactive:
  assumes "u \<in> set (revoke_tokens P now ts)" and "P u"
  shows "\<not> active u"
proof
  assume "active u"
  with assms(1) have "u \<in> set (filter active (revoke_tokens P now ts))" by simp
  with assms(2) show False unfolding active_revoke_tokens by simp
qed

end
