(* ===== verification/Sql_Store.thy ===== *)
theory Sql_Store
  imports Runtime Models
begin

section \<open>The database: tables, statements, connection (internal/db/sqlc, migrations)\<close>

text \<open>
  The two tables of \<open>migrations/\<close> with their constraints (primary keys, \<open>UNIQUE\<close>
  email and token hash, the foreign key with \<open>ON DELETE CASCADE\<close>), every statement
  of \<open>internal/db/sqlc/*.sql.go\<close> as a function on the tables, and the connection that runs
  one. A table is the list of its rows in insertion order.

  A statement may fail for reasons of its own (no row, a violated constraint) or because the
  connection fails: before the statement reached the server (\<open>Lost_Before\<close>) or after it
  took effect, so that only the reply is lost (\<open>Lost_After\<close>). Which of them happens at which
  step is part of the state, so every theorem holds for every pattern of failures. Text that
  PostgreSQL refuses as such (a NUL byte, bytes that are not UTF-8: SQLSTATE 22021) is not an
  error of the statements here: such a request is a \<open>Lost_Before\<close>, and a hypothesis that the
  database answers says that there was none. The
  driver's encoding of a timestamp parameter (\<open>timestamptz\<close> keeps microseconds) is
  \<open>ts_store\<close>, a parameter. \<open>now()\<close> and \<open>gen_random_uuid()\<close> of the server are
  \<open>db_clock_at\<close> and \<open>db_uuid_at\<close>.
\<close>

subsection \<open>Rows and parameters\<close>

record user_row =
  ur_id :: uuid
  ur_email :: string
  ur_password_hash :: string
  ur_name :: string
  ur_created_at :: instant
  ur_updated_at :: instant

record token_row =
  tr_id :: uuid
  tr_user_id :: uuid
  tr_token_hash :: string
  tr_chain_id :: uuid
  tr_revoked_at :: "instant option"
  tr_expires_at :: instant
  tr_created_at :: instant
  tr_updated_at :: instant

record null_string =
  ns_string :: string
  ns_valid :: bool

record null_time =
  nt_time :: instant
  nt_valid :: bool

record null_uuid =
  nu_uuid :: uuid
  nu_valid :: bool

record create_user_params =
  cup_email :: string
  cup_password_hash :: string
  cup_name :: string

record list_users_params =
  lup_cursor_created_at :: null_time
  lup_cursor_id :: null_uuid
  lup_max_rows :: int32

record update_user_params =
  uup_email :: null_string
  uup_password_hash :: null_string
  uup_name :: null_string
  uup_id :: uuid

record create_refresh_token_params =
  ctp_user_id :: uuid
  ctp_token_hash :: string
  ctp_chain_id :: uuid
  ctp_expires_at :: instant

record database =
  users_tbl :: "user_row list"
  tokens_tbl :: "token_row list"

datatype fault = Lost_Before string | Lost_After string

record world = env +
  db :: database
  tx_now :: instant
  tx_aborted :: bool
  db_clock_at :: "nat \<Rightarrow> instant"
  db_uuid_at :: "nat \<Rightarrow> uuid"
  fault_at :: "nat \<Rightarrow> fault option"
  ts_store :: "instant \<Rightarrow> instant"

subsection \<open>The connection\<close>

text \<open>A statement reads the server's clock and a fresh uuid, and maps the tables to a result
  and the tables after it.\<close>

type_synonym 'a stmt = "instant \<Rightarrow> uuid \<Rightarrow> database \<Rightarrow> (go_error + 'a) \<times> database"

text \<open>What \<open>Queries\<close> wraps (the interface \<open>DBTX\<close>): the connection pool or a
  transaction.\<close>

datatype dbtx = On_Pool | On_Tx

record queries =
  q_db :: dbtx

definition sqlc_new :: "dbtx \<Rightarrow> queries" where
  "sqlc_new d = \<lparr>q_db = d\<rparr>"

definition q_with_tx :: "queries \<Rightarrow> queries" where
  "q_with_tx q = \<lparr>q_db = On_Tx\<rparr>"

text \<open>
  On the pool a statement is its own transaction. In a transaction \<open>now()\<close> is the
  transaction's start; a statement the server rejects aborts the transaction, and every
  later one then fails with SQLSTATE 25P02; a lost connection aborts it too.
\<close>

definition stmt_out :: "'a stmt \<Rightarrow> world \<Rightarrow> (go_error + 'a) \<times> database" where
  "stmt_out st w = st (db_clock_at w (tick w)) (db_uuid_at w (tick w)) (db w)"

definition run_on_pool :: "'a stmt \<Rightarrow> world \<Rightarrow> (go_error + 'a) \<times> world" where
  "run_on_pool st w =
     (case fault_at w (tick w) of
        None \<Rightarrow> (fst (stmt_out st w), (next_tick w)\<lparr>db := snd (stmt_out st w)\<rparr>)
      | Some (Lost_Before m) \<Rightarrow> (Inl (Foreign_Error m), next_tick w)
      | Some (Lost_After m) \<Rightarrow>
          (Inl (Foreign_Error m), (next_tick w)\<lparr>db := snd (stmt_out st w)\<rparr>))"

definition run_on_tx :: "'a stmt \<Rightarrow> world \<Rightarrow> (go_error + 'a) \<times> world" where
  "run_on_tx st w =
     (case fault_at w (tick w) of
        Some f \<Rightarrow> (Inl (Foreign_Error (case f of Lost_Before m \<Rightarrow> m | Lost_After m \<Rightarrow> m)),
                   (next_tick w)\<lparr>tx_aborted := True\<rparr>)
      | None \<Rightarrow>
          if tx_aborted w then (Inl (Pg_Error ''25P02''), next_tick w)
          else let out = st (tx_now w) (db_uuid_at w (tick w)) (db w)
               in (fst out,
                   (next_tick w)\<lparr>db := snd out,
                     tx_aborted := (case fst out of Inl (Pg_Error c) \<Rightarrow> True | _ \<Rightarrow> False)\<rparr>))"

definition run_stmt :: "queries \<Rightarrow> 'a stmt \<Rightarrow> world \<Rightarrow> (go_error + 'a) \<times> world" where
  "run_stmt q st w = (case q_db q of On_Pool \<Rightarrow> run_on_pool st w | On_Tx \<Rightarrow> run_on_tx st w)"

subsection \<open>Statements on users (user.sql.go)\<close>

definition unique_violation :: go_error where
  "unique_violation = Pg_Error ''23505''"

definition foreign_key_violation :: go_error where
  "foreign_key_violation = Pg_Error ''23503''"

definition sql_create_user :: "create_user_params \<Rightarrow> user_row stmt" where
  "sql_create_user arg now new d =
     (if list_ex (\<lambda>u. ur_id u = new \<or> ur_email u = cup_email arg) (users_tbl d)
      then (Inl unique_violation, d)
      else let u = \<lparr>ur_id = new, ur_email = cup_email arg, ur_password_hash = cup_password_hash arg,
                   ur_name = cup_name arg, ur_created_at = now, ur_updated_at = now\<rparr>
           in (Inr u, d\<lparr>users_tbl := users_tbl d @ [u]\<rparr>))"

definition sql_get_user_by_id :: "uuid \<Rightarrow> user_row stmt" where
  "sql_get_user_by_id i now new d =
     (case find (\<lambda>u. ur_id u = i) (users_tbl d) of
        None \<Rightarrow> (Inl Err_No_Rows, d) | Some u \<Rightarrow> (Inr u, d))"

definition sql_get_user_by_email :: "string \<Rightarrow> user_row stmt" where
  "sql_get_user_by_email e now new d =
     (case find (\<lambda>u. ur_email u = e) (users_tbl d) of
        None \<Rightarrow> (Inl Err_No_Rows, d) | Some u \<Rightarrow> (Inr u, d))"

definition row_key :: "user_row \<Rightarrow> page_key" where
  "row_key u = Page_Key (ur_created_at u) (ur_id u)"

text \<open>\<open>(created_at, id) < (COALESCE($1, 'infinity'), COALESCE($2, zero uuid))\<close>: stored
  timestamps are finite, so without a cursor time every row qualifies.\<close>

definition before_cursor :: "list_users_params \<Rightarrow> user_row \<Rightarrow> bool" where
  "before_cursor arg u =
     (nt_valid (lup_cursor_created_at arg) \<longrightarrow>
        row_key u < Page_Key (nt_time (lup_cursor_created_at arg))
          (if nu_valid (lup_cursor_id arg) then nu_uuid (lup_cursor_id arg) else uuid_nil))"

definition sql_list_users :: "list_users_params \<Rightarrow> user_row list stmt" where
  "sql_list_users arg now new d =
     (if sint (lup_max_rows arg) < 0 then (Inl (Pg_Error ''2201W''), d)
      else (Inr (take (nat (sint (lup_max_rows arg)))
              (rev (sort_key row_key (filter (before_cursor arg) (users_tbl d))))), d))"

definition coalesce :: "null_string \<Rightarrow> string \<Rightarrow> string" where
  "coalesce n col = (if ns_valid n then ns_string n else col)"

definition sql_update_user :: "update_user_params \<Rightarrow> user_row stmt" where
  "sql_update_user arg now new d =
     (case find (\<lambda>u. ur_id u = uup_id arg) (users_tbl d) of
        None \<Rightarrow> (Inl Err_No_Rows, d)
      | Some u \<Rightarrow>
          let u' = u\<lparr>ur_email := coalesce (uup_email arg) (ur_email u),
                     ur_password_hash := coalesce (uup_password_hash arg) (ur_password_hash u),
                     ur_name := coalesce (uup_name arg) (ur_name u),
                     ur_updated_at := now\<rparr>
          in if list_ex (\<lambda>v. ur_id v \<noteq> uup_id arg \<and> ur_email v = ur_email u') (users_tbl d)
             then (Inl unique_violation, d)
             else (Inr u', d\<lparr>users_tbl :=
                     map (\<lambda>v. if ur_id v = uup_id arg then u' else v) (users_tbl d)\<rparr>))"

definition sql_delete_user :: "uuid \<Rightarrow> unit stmt" where
  "sql_delete_user i now new d =
     (if list_ex (\<lambda>u. ur_id u = i) (users_tbl d)
      then (Inr (), d\<lparr>users_tbl := filter (\<lambda>u. ur_id u \<noteq> i) (users_tbl d),
                       tokens_tbl := filter (\<lambda>t. tr_user_id t \<noteq> i) (tokens_tbl d)\<rparr>)
      else (Inr (), d))"

definition sql_count_users :: "nat stmt" where
  "sql_count_users now new d = (Inr (length (users_tbl d)), d)"

subsection \<open>Statements on refresh tokens (refresh\_token.sql.go)\<close>

definition sql_create_refresh_token :: "create_refresh_token_params \<Rightarrow> token_row stmt" where
  "sql_create_refresh_token arg now new d =
     (if list_ex (\<lambda>t. tr_id t = new \<or> tr_token_hash t = ctp_token_hash arg) (tokens_tbl d)
      then (Inl unique_violation, d)
      else if \<not> list_ex (\<lambda>u. ur_id u = ctp_user_id arg) (users_tbl d)
      then (Inl foreign_key_violation, d)
      else let t = \<lparr>tr_id = new, tr_user_id = ctp_user_id arg, tr_token_hash = ctp_token_hash arg,
                   tr_chain_id = ctp_chain_id arg, tr_revoked_at = None,
                   tr_expires_at = ctp_expires_at arg, tr_created_at = now, tr_updated_at = now\<rparr>
           in (Inr t, d\<lparr>tokens_tbl := tokens_tbl d @ [t]\<rparr>))"

definition sql_get_refresh_token_by_hash :: "string \<Rightarrow> token_row stmt" where
  "sql_get_refresh_token_by_hash h now new d =
     (case find (\<lambda>t. tr_token_hash t = h) (tokens_tbl d) of
        None \<Rightarrow> (Inl Err_No_Rows, d) | Some t \<Rightarrow> (Inr t, d))"

text \<open>\<open>SET revoked_at = now(), updated_at = now() WHERE P AND revoked_at IS NULL\<close>\<close>

definition revoke_rows :: "(token_row \<Rightarrow> bool) \<Rightarrow> instant \<Rightarrow> database \<Rightarrow> database" where
  "revoke_rows P now d =
     d\<lparr>tokens_tbl := map (\<lambda>t. if P t \<and> tr_revoked_at t = None
                             then t\<lparr>tr_revoked_at := Some now, tr_updated_at := now\<rparr> else t)
                       (tokens_tbl d)\<rparr>"

definition sql_revoke_refresh_token :: "uuid \<Rightarrow> uuid stmt" where
  "sql_revoke_refresh_token i now new d =
     (if list_ex (\<lambda>t. tr_id t = i \<and> tr_revoked_at t = None) (tokens_tbl d)
      then (Inr i, revoke_rows (\<lambda>t. tr_id t = i) now d)
      else (Inl Err_No_Rows, d))"

definition sql_revoke_chain :: "uuid \<Rightarrow> unit stmt" where
  "sql_revoke_chain c now new d = (Inr (), revoke_rows (\<lambda>t. tr_chain_id t = c) now d)"

definition sql_revoke_all_for_user :: "uuid \<Rightarrow> unit stmt" where
  "sql_revoke_all_for_user i now new d = (Inr (), revoke_rows (\<lambda>t. tr_user_id t = i) now d)"

subsection \<open>Queries: one method per statement\<close>

definition q_create_user :: "queries \<Rightarrow> create_user_params \<Rightarrow> world \<Rightarrow> (go_error + user_row) \<times> world" where
  "q_create_user q arg w = run_stmt q (sql_create_user arg) w"

definition q_get_user_by_id :: "queries \<Rightarrow> uuid \<Rightarrow> world \<Rightarrow> (go_error + user_row) \<times> world" where
  "q_get_user_by_id q i w = run_stmt q (sql_get_user_by_id i) w"

definition q_get_user_by_email :: "queries \<Rightarrow> string \<Rightarrow> world \<Rightarrow> (go_error + user_row) \<times> world" where
  "q_get_user_by_email q e w = run_stmt q (sql_get_user_by_email e) w"

definition q_list_users :: "queries \<Rightarrow> list_users_params \<Rightarrow> world \<Rightarrow> (go_error + user_row list) \<times> world" where
  "q_list_users q arg w =
     (let c = lup_cursor_created_at arg
      in run_stmt q (sql_list_users (arg\<lparr>lup_cursor_created_at := c\<lparr>nt_time := ts_store w (nt_time c)\<rparr>\<rparr>)) w)"

definition q_update_user :: "queries \<Rightarrow> update_user_params \<Rightarrow> world \<Rightarrow> (go_error + user_row) \<times> world" where
  "q_update_user q arg w = run_stmt q (sql_update_user arg) w"

definition q_delete_user :: "queries \<Rightarrow> uuid \<Rightarrow> world \<Rightarrow> go_error option \<times> world" where
  "q_delete_user q i w =
     (case run_stmt q (sql_delete_user i) w of (Inl e, w1) \<Rightarrow> (Some e, w1) | (Inr _, w1) \<Rightarrow> (None, w1))"

definition q_count_users :: "queries \<Rightarrow> world \<Rightarrow> (go_error + nat) \<times> world" where
  "q_count_users q w = run_stmt q sql_count_users w"

definition q_create_refresh_token :: "queries \<Rightarrow> create_refresh_token_params \<Rightarrow> world \<Rightarrow> (go_error + token_row) \<times> world" where
  "q_create_refresh_token q arg w =
     run_stmt q (sql_create_refresh_token (arg\<lparr>ctp_expires_at := ts_store w (ctp_expires_at arg)\<rparr>)) w"

definition q_get_refresh_token_by_hash :: "queries \<Rightarrow> string \<Rightarrow> world \<Rightarrow> (go_error + token_row) \<times> world" where
  "q_get_refresh_token_by_hash q h w = run_stmt q (sql_get_refresh_token_by_hash h) w"

definition q_revoke_refresh_token :: "queries \<Rightarrow> uuid \<Rightarrow> world \<Rightarrow> (go_error + uuid) \<times> world" where
  "q_revoke_refresh_token q i w = run_stmt q (sql_revoke_refresh_token i) w"

definition q_revoke_chain :: "queries \<Rightarrow> uuid \<Rightarrow> world \<Rightarrow> go_error option \<times> world" where
  "q_revoke_chain q c w =
     (case run_stmt q (sql_revoke_chain c) w of (Inl e, w1) \<Rightarrow> (Some e, w1) | (Inr _, w1) \<Rightarrow> (None, w1))"

definition q_revoke_all_for_user :: "queries \<Rightarrow> uuid \<Rightarrow> world \<Rightarrow> go_error option \<times> world" where
  "q_revoke_all_for_user q i w =
     (case run_stmt q (sql_revoke_all_for_user i) w of
        (Inl e, w1) \<Rightarrow> (Some e, w1) | (Inr _, w1) \<Rightarrow> (None, w1))"

end
