(* ===== verification/Sql_Laws.thy ===== *)
theory Sql_Laws
  imports Sql_Store
begin

section \<open>What the statements keep and what they change\<close>

text \<open>
  The integrity of the tables (\<open>db_ok\<close>: the primary keys, the unique columns and the
  foreign key of \<open>migrations/\<close>) and its preservation by every statement; the two ways a
  statement can end (its own outcome, or an error of the connection with or without its
  effect), for the pool and for a transaction alike.
\<close>

definition db_ok :: "database \<Rightarrow> bool" where
  "db_ok d \<longleftrightarrow> distinct (map ur_id (users_tbl d)) \<and> distinct (map ur_email (users_tbl d))
     \<and> distinct (map tr_id (tokens_tbl d)) \<and> distinct (map tr_token_hash (tokens_tbl d))
     \<and> (\<forall>t\<in>set (tokens_tbl d). tr_user_id t \<in> set (map ur_id (users_tbl d)))"

definition keeps :: "(database \<Rightarrow> bool) \<Rightarrow> 'a stmt \<Rightarrow> bool" where
  "keeps I st \<longleftrightarrow> (\<forall>now new d. I d \<longrightarrow> I (snd (st now new d)))"

lemma keepsI: "(\<And>now new d. I d \<Longrightarrow> I (snd (st now new d))) \<Longrightarrow> keeps I st"
  by (simp add: keeps_def)

lemma keepsD: "keeps I st \<Longrightarrow> I d \<Longrightarrow> I (snd (st now new d))"
  by (simp add: keeps_def)

subsection \<open>Statements that only read\<close>

lemma read_only [table_simps]:
  "snd (sql_get_user_by_id i now new d) = d"
  "snd (sql_get_user_by_email e now new d) = d"
  "snd (sql_list_users la now new d) = d"
  "snd (sql_count_users now new d) = d"
  "snd (sql_get_refresh_token_by_hash h now new d) = d"
  by (simp_all add: sql_get_user_by_id_def sql_get_user_by_email_def sql_list_users_def
      sql_count_users_def sql_get_refresh_token_by_hash_def split: option.split)

subsection \<open>Inserts\<close>

lemma create_user_cases:
  obtains (taken) "list_ex (\<lambda>u. ur_id u = new \<or> ur_email u = cup_email arg) (users_tbl d)"
      "sql_create_user arg now new d = (Inl unique_violation, d)"
  | (made) u where "\<forall>v\<in>set (users_tbl d). ur_id v \<noteq> ur_id u \<and> ur_email v \<noteq> ur_email u"
      "sql_create_user arg now new d = (Inr u, d\<lparr>users_tbl := users_tbl d @ [u]\<rparr>)"
      "ur_id u = new" "ur_email u = cup_email arg" "ur_password_hash u = cup_password_hash arg"
      "ur_name u = cup_name arg" "ur_created_at u = now" "ur_updated_at u = now"
proof (cases "list_ex (\<lambda>u. ur_id u = new \<or> ur_email u = cup_email arg) (users_tbl d)")
  case True
  then show ?thesis by (intro taken) (simp_all add: sql_create_user_def)
next
  case False
  then show ?thesis
    by (intro made [of "\<lparr>ur_id = new, ur_email = cup_email arg,
          ur_password_hash = cup_password_hash arg, ur_name = cup_name arg, ur_created_at = now,
          ur_updated_at = now\<rparr>"])
      (auto simp: sql_create_user_def list_ex_iff Let_def)
qed

lemma keeps_create_user: "keeps db_ok (sql_create_user arg)"
proof (rule keepsI)
  fix now new d
  assume "db_ok d"
  then show "db_ok (snd (sql_create_user arg now new d))"
    by (cases rule: create_user_cases [of new arg d now]) (auto simp: db_ok_def)
qed

lemma create_token_cases:
  obtains (taken) "list_ex (\<lambda>t. tr_id t = new \<or> tr_token_hash t = ctp_token_hash arg) (tokens_tbl d)"
      "sql_create_refresh_token arg now new d = (Inl unique_violation, d)"
  | (orphan) "\<forall>u\<in>set (users_tbl d). ur_id u \<noteq> ctp_user_id arg"
      "sql_create_refresh_token arg now new d = (Inl foreign_key_violation, d)"
  | (made) t where
      "\<forall>v\<in>set (tokens_tbl d). tr_id v \<noteq> tr_id t \<and> tr_token_hash v \<noteq> tr_token_hash t"
      "tr_user_id t \<in> set (map ur_id (users_tbl d))"
      "sql_create_refresh_token arg now new d = (Inr t, d\<lparr>tokens_tbl := tokens_tbl d @ [t]\<rparr>)"
      "tr_id t = new" "tr_user_id t = ctp_user_id arg" "tr_token_hash t = ctp_token_hash arg"
      "tr_chain_id t = ctp_chain_id arg" "tr_revoked_at t = None"
      "tr_expires_at t = ctp_expires_at arg" "tr_created_at t = now" "tr_updated_at t = now"
proof (cases "list_ex (\<lambda>t. tr_id t = new \<or> tr_token_hash t = ctp_token_hash arg) (tokens_tbl d)")
  case True
  then show ?thesis by (intro taken) (simp_all add: sql_create_refresh_token_def)
next
  case unused: False
  show ?thesis
  proof (cases "list_ex (\<lambda>u. ur_id u = ctp_user_id arg) (users_tbl d)")
    case True
    then have "ctp_user_id arg \<in> set (map ur_id (users_tbl d))"
      by (auto simp: list_ex_iff intro: rev_image_eqI)
    with unused True show ?thesis
      by (intro made [of "\<lparr>tr_id = new, tr_user_id = ctp_user_id arg,
            tr_token_hash = ctp_token_hash arg, tr_chain_id = ctp_chain_id arg,
            tr_revoked_at = None, tr_expires_at = ctp_expires_at arg, tr_created_at = now,
            tr_updated_at = now\<rparr>"])
        (auto simp: sql_create_refresh_token_def list_ex_iff Let_def)
  next
    case False
    with unused show ?thesis
      by (intro orphan) (auto simp: sql_create_refresh_token_def list_ex_iff Let_def)
  qed
qed

lemma keeps_create_token: "keeps db_ok (sql_create_refresh_token arg)"
proof (rule keepsI)
  fix now new d
  assume "db_ok d"
  then show "db_ok (snd (sql_create_refresh_token arg now new d))"
    by (cases rule: create_token_cases [of new arg d now]) (auto simp: db_ok_def)
qed

subsection \<open>Updates and deletes\<close>

lemma update_user_cases:
  obtains (missing) "\<forall>u\<in>set (users_tbl d). ur_id u \<noteq> uup_id arg"
      "sql_update_user arg now new d = (Inl Err_No_Rows, d)"
  | (taken) u v where "u \<in> set (users_tbl d)" "ur_id u = uup_id arg"
      "v \<in> set (users_tbl d)" "ur_id v \<noteq> uup_id arg"
      "ur_email v = coalesce (uup_email arg) (ur_email u)"
      "sql_update_user arg now new d = (Inl unique_violation, d)"
  | (made) u u' where "u \<in> set (users_tbl d)" "ur_id u = uup_id arg"
      "u' = u\<lparr>ur_email := coalesce (uup_email arg) (ur_email u),
              ur_password_hash := coalesce (uup_password_hash arg) (ur_password_hash u),
              ur_name := coalesce (uup_name arg) (ur_name u), ur_updated_at := now\<rparr>"
      "\<forall>v\<in>set (users_tbl d). ur_id v \<noteq> uup_id arg \<longrightarrow> ur_email v \<noteq> ur_email u'"
      "sql_update_user arg now new d = (Inr u', d\<lparr>users_tbl :=
         map (\<lambda>v. if ur_id v = uup_id arg then u' else v) (users_tbl d)\<rparr>)"
proof (cases "find (\<lambda>u. ur_id u = uup_id arg) (users_tbl d)")
  case None
  then have "\<forall>u\<in>set (users_tbl d). ur_id u \<noteq> uup_id arg" by (auto simp: find_None_iff)
  moreover have "sql_update_user arg now new d = (Inl Err_No_Rows, d)"
    by (simp add: sql_update_user_def None)
  ultimately show ?thesis by (rule missing)
next
  case (Some u)
  then have u: "u \<in> set (users_tbl d)" "ur_id u = uup_id arg" by (auto dest: find_SomeD)
  let ?e = "coalesce (uup_email arg) (ur_email u)"
  show ?thesis
  proof (cases "list_ex (\<lambda>v. ur_id v \<noteq> uup_id arg \<and> ur_email v = ?e) (users_tbl d)")
    case True
    then obtain v where "v \<in> set (users_tbl d)" "ur_id v \<noteq> uup_id arg" "ur_email v = ?e"
      by (auto simp: list_ex_iff)
    with u True Some show ?thesis by (intro taken [of u v]) (simp_all add: sql_update_user_def Let_def)
  next
    case False
    with u Some show ?thesis
      by (intro made [OF u refl]) (auto simp: sql_update_user_def Let_def list_ex_iff)
  qed
qed

lemma keeps_update_user: "keeps db_ok (sql_update_user arg)"
proof (rule keepsI)
  fix now new d
  assume ok: "db_ok d"
  then show "db_ok (snd (sql_update_user arg now new d))"
  proof (cases rule: update_user_cases [of d arg now new])
    case (made u u')
    let ?f = "\<lambda>v. if ur_id v = uup_id arg then u' else v"
    define us where "us = map ?f (users_tbl d)"
    have ids: "map ur_id us = map ur_id (users_tbl d)"
      using made(2,3) by (simp add: us_def)
    have "inj_on ur_email (set us)"
      using ok made(4) by (auto simp: db_ok_def distinct_map inj_on_def us_def split: if_splits)
    moreover have "distinct us"
      using ok ids by (metis db_ok_def distinct_map)
    ultimately have "distinct (map ur_email us)" by (simp add: distinct_map)
    moreover have "ur_id ` set us = ur_id ` set (users_tbl d)"
      using ids by (metis list.set_map)
    ultimately show ?thesis using ok made(5) ids by (simp add: db_ok_def us_def [symmetric])
  qed simp_all
qed

lemma keeps_delete_user: "keeps db_ok (sql_delete_user i)"
  by (rule keepsI)
    (auto simp: sql_delete_user_def db_ok_def distinct_map_filter)

lemma revoke_rows_keys [table_simps]:
  "users_tbl (revoke_rows P now d) = users_tbl d"
  "map tr_id (tokens_tbl (revoke_rows P now d)) = map tr_id (tokens_tbl d)"
  "map tr_token_hash (tokens_tbl (revoke_rows P now d)) = map tr_token_hash (tokens_tbl d)"
  "map tr_user_id (tokens_tbl (revoke_rows P now d)) = map tr_user_id (tokens_tbl d)"
  by (simp_all add: revoke_rows_def)

lemma db_ok_revoke_rows: "db_ok d \<Longrightarrow> db_ok (revoke_rows P now d)"
proof -
  assume ok: "db_ok d"
  have "tr_user_id ` set (tokens_tbl (revoke_rows P now d)) = tr_user_id ` set (tokens_tbl d)"
    by (metis list.set_map revoke_rows_keys(4))
  with ok show ?thesis by (fastforce simp: db_ok_def table_simps)
qed

lemma keeps_revokes:
  "keeps db_ok (sql_revoke_refresh_token i)"
  "keeps db_ok (sql_revoke_chain c)"
  "keeps db_ok (sql_revoke_all_for_user i)"
  by (rule keepsI, simp add: sql_revoke_refresh_token_def sql_revoke_chain_def
      sql_revoke_all_for_user_def db_ok_revoke_rows)+

lemma keeps_reads:
  "keeps I (sql_get_user_by_id i)" "keeps I (sql_get_user_by_email e)"
  "keeps I (sql_list_users la)" "keeps I sql_count_users"
  "keeps I (sql_get_refresh_token_by_hash h)"
  by (simp_all add: keeps_def table_simps)

lemmas statements_keep_integrity =
  keeps_create_user keeps_create_token keeps_update_user keeps_delete_user keeps_revokes keeps_reads

subsection \<open>How a statement ends\<close>

text \<open>Errors of the connection are never mistaken for a missing row or a violated constraint.\<close>

definition plain_error :: "go_error \<Rightarrow> bool" where
  "plain_error e \<longleftrightarrow> \<not> errors_is e Err_No_Rows \<and> errors_as_pg e \<noteq> Some ''23505''"

lemma run_stmt_ends:
  assumes "run_stmt q st w = (r, w')"
  obtains (answered) now new where
      "r = fst (st now new (db w))" "db w' = snd (st now new (db w))"
  | (failed) e now new where
      "r = Inl e" "plain_error e" "db w' = db w \<or> db w' = snd (st now new (db w))"
proof (cases "q_db q")
  case On_Pool
  show ?thesis
  proof (cases "fault_at w (tick w)")
    case None
    with assms On_Pool show ?thesis
      by (intro answered) (auto simp: run_stmt_def run_on_pool_def stmt_out_def)
  next
    case (Some f)
    with assms On_Pool show ?thesis
      by (cases f; intro failed)
        (auto simp: run_stmt_def run_on_pool_def stmt_out_def plain_error_def next_tick_def)
  qed
next
  case On_Tx
  show ?thesis
  proof (cases "fault_at w (tick w) = None \<and> \<not> tx_aborted w")
    case True
    with assms On_Tx show ?thesis
      by (intro answered) (auto simp: run_stmt_def run_on_tx_def Let_def)
  next
    case False
    have "\<exists>e. r = Inl e \<and> plain_error e \<and> db w' = db w"
      using assms On_Tx False
      by (auto simp: run_stmt_def run_on_tx_def plain_error_def next_tick_def split: option.splits)
    then show ?thesis by (auto intro: failed)
  qed
qed

text \<open>The part of the world no statement touches.\<close>

definition world_step :: "world \<Rightarrow> world \<Rightarrow> bool" where
  "world_step w w' \<longleftrightarrow> env_step w w' \<and> db_clock_at w' = db_clock_at w
     \<and> db_uuid_at w' = db_uuid_at w \<and> fault_at w' = fault_at w \<and> ts_store w' = ts_store w"

lemma world_step_refl [simp]: "world_step w w"
  by (simp add: world_step_def)

lemma world_step_trans [trans]: "world_step a b \<Longrightarrow> world_step b c \<Longrightarrow> world_step a c"
  by (auto simp: world_step_def intro: env_step_trans)

lemma world_step_next_tick [simp]: "world_step w (next_tick w)"
  by (simp add: world_step_def env_step_def next_tick_def)

lemma run_stmt_world: "run_stmt q st w = (r, w') \<Longrightarrow> world_step w w'"
  by (auto simp: run_stmt_def run_on_pool_def run_on_tx_def world_step_def env_step_def
      next_tick_def Let_def split: dbtx.splits option.splits fault.splits if_splits)

lemma run_stmt_keeps:
  assumes "run_stmt q st w = (r, w')" and "keeps I st" and "I (db w)"
  shows "I (db w')"
  using assms(1)
proof (cases rule: run_stmt_ends)
  case answered
  with assms(2,3) show ?thesis by (simp add: keepsD)
next
  case failed
  with assms(2,3) show ?thesis by (auto intro: keepsD)
qed

end
