(* ===== verification/Contracts.thy ===== *)
theory Contracts
  imports Runtime Models
begin

section \<open>The repository interfaces the services consume, and their contracts\<close>

text \<open>
  The consumer-side interfaces of \<open>internal/services\<close> (\<open>authUserRepo\<close>,
  \<open>refreshTokenRepo\<close>, \<open>userRepo\<close>) are records of functions, as a Go interface value is:
  a service holds one and calls through it. What a service may rely on is stated as a locale
  over the interface and an abstract view of the store (the list of tokens, the list of
  users). The services' lemmas are proved inside these locales; \<open>Repositories\<close> interprets
  them on the repositories of the program.

  Every law allows for failure: a call that returns an error has either no effect or the
  effect of the call that lost its reply.
\<close>

record 'w auth_user_repo =
  au_get_by_email :: "string \<Rightarrow> 'w \<Rightarrow> (go_error + user) \<times> 'w"

record 'w refresh_token_repo =
  rt_create :: "refresh_token_create \<Rightarrow> 'w \<Rightarrow> (go_error + refresh_token) \<times> 'w"
  rt_get_by_hash :: "string \<Rightarrow> 'w \<Rightarrow> (go_error + refresh_token) \<times> 'w"
  rt_revoke :: "uuid \<Rightarrow> 'w \<Rightarrow> go_error option \<times> 'w"
  rt_revoke_chain :: "uuid \<Rightarrow> 'w \<Rightarrow> go_error option \<times> 'w"
  rt_revoke_all_for_user :: "uuid \<Rightarrow> 'w \<Rightarrow> go_error option \<times> 'w"

record 'w user_repo =
  us_create :: "user_create \<Rightarrow> 'w \<Rightarrow> (go_error + user) \<times> 'w"
  us_get_by_id :: "uuid \<Rightarrow> 'w \<Rightarrow> (go_error + user) \<times> 'w"
  us_get_by_email :: "string \<Rightarrow> 'w \<Rightarrow> (go_error + user) \<times> 'w"
  us_list :: "list_users_input \<Rightarrow> 'w \<Rightarrow> (go_error + user list) \<times> 'w"
  us_update :: "uuid \<Rightarrow> user_update \<Rightarrow> 'w \<Rightarrow> (go_error + user) \<times> 'w"
  us_delete :: "uuid \<Rightarrow> 'w \<Rightarrow> go_error option \<times> 'w"

text \<open>The password library \<open>golang.org/x/crypto/bcrypt\<close>, which the services call.\<close>

record bcrypt_lib =
  bc_generate :: "nat \<Rightarrow> nat \<Rightarrow> string \<Rightarrow> go_error + string"
    \<comment> \<open>GenerateFromPassword(password, cost), with the salt of a step\<close>
  bc_compare :: "string \<Rightarrow> string \<Rightarrow> go_error option"
    \<comment> \<open>CompareHashAndPassword(hash, password)\<close>

subsection \<open>The refresh-token store\<close>

text \<open>The row an insert makes of its parameters, \<open>x\<close> the stored expiry.\<close>

definition stored_as :: "refresh_token_create \<Rightarrow> instant \<Rightarrow> refresh_token \<Rightarrow> bool" where
  "stored_as c x t \<longleftrightarrow> t_user_id t = tc_user_id c \<and> t_token_hash t = tc_token_hash c
     \<and> t_chain_id t = tc_chain_id c \<and> t_expires_at t = x \<and> active t"

locale refresh_store =
  fixes R :: "('d env_scheme) refresh_token_repo"
    and toks :: "'d env_scheme \<Rightarrow> refresh_token list"
    and ok :: "'d env_scheme \<Rightarrow> bool"
    and stamp :: "'d env_scheme \<Rightarrow> instant \<Rightarrow> instant"
  assumes toks_next_tick: "toks (next_tick w) = toks w"
    and ok_next_tick: "ok (next_tick w) = ok w"
    and stamp_next_tick: "stamp (next_tick w) = stamp w"
    and ok_ids: "ok w \<Longrightarrow> distinct (map t_id (toks w))"
    and ok_hashes: "ok w \<Longrightarrow> distinct (map t_token_hash (toks w))"
    and create_step: "rt_create R c w = (r, w') \<Longrightarrow>
      env_step w w' \<and> stamp w' = stamp w \<and> (ok w \<longrightarrow> ok w')"
    and create_Inr: "rt_create R c w = (Inr t, w') \<Longrightarrow>
      toks w' = toks w @ [t] \<and> stored_as c (stamp w (tc_expires_at c)) t"
    and create_Inl: "rt_create R c w = (Inl e, w') \<Longrightarrow>
      toks w' = toks w \<or>
      (\<exists>t. toks w' = toks w @ [t] \<and> stored_as c (stamp w (tc_expires_at c)) t)"
    and get_step: "rt_get_by_hash R h w = (r, w') \<Longrightarrow>
      env_step w w' \<and> stamp w' = stamp w \<and> (ok w \<longrightarrow> ok w') \<and> toks w' = toks w"
    and get_Inr: "rt_get_by_hash R h w = (Inr t, w') \<Longrightarrow> t \<in> set (toks w) \<and> t_token_hash t = h"
    and get_Inl: "rt_get_by_hash R h w = (Inl e, w') \<Longrightarrow> errors_is e Err_No_Rows \<Longrightarrow>
      \<forall>t\<in>set (toks w). t_token_hash t \<noteq> h"
    and revoke_step: "rt_revoke R i w = (x, w') \<Longrightarrow>
      env_step w w' \<and> stamp w' = stamp w \<and> (ok w \<longrightarrow> ok w')"
    and revoke_None: "rt_revoke R i w = (None, w') \<Longrightarrow>
      \<exists>now. toks w' = revoke_tokens (\<lambda>t. t_id t = i) now (toks w)"
    and revoke_Some: "rt_revoke R i w = (Some e, w') \<Longrightarrow>
      toks w' = toks w \<or> (\<exists>now. toks w' = revoke_tokens (\<lambda>t. t_id t = i) now (toks w))"
    and revoke_chain_step: "rt_revoke_chain R ch w = (x, w') \<Longrightarrow>
      env_step w w' \<and> stamp w' = stamp w \<and> (ok w \<longrightarrow> ok w')"
    and revoke_chain_None: "rt_revoke_chain R ch w = (None, w') \<Longrightarrow>
      \<exists>now. toks w' = revoke_tokens (\<lambda>t. t_chain_id t = ch) now (toks w)"
    and revoke_chain_Some: "rt_revoke_chain R ch w = (Some e, w') \<Longrightarrow>
      toks w' = toks w \<or> (\<exists>now. toks w' = revoke_tokens (\<lambda>t. t_chain_id t = ch) now (toks w))"
    and revoke_user_step: "rt_revoke_all_for_user R i w = (x, w') \<Longrightarrow>
      env_step w w' \<and> stamp w' = stamp w \<and> (ok w \<longrightarrow> ok w')"
    and revoke_user_None: "rt_revoke_all_for_user R i w = (None, w') \<Longrightarrow>
      \<exists>now. toks w' = revoke_tokens (\<lambda>t. t_user_id t = i) now (toks w)"
    and revoke_user_Some: "rt_revoke_all_for_user R i w = (Some e, w') \<Longrightarrow>
      toks w' = toks w \<or> (\<exists>now. toks w' = revoke_tokens (\<lambda>t. t_user_id t = i) now (toks w))"

text \<open>
  The same store while nothing fails: \<open>quiet\<close> says that no connection fault is to come
  and that the ids the server makes are new, \<open>known\<close> which user ids exist. Then a lookup
  finds the row or reports that there is none, revocations succeed, and an insert fails only
  for a missing user or a hash already stored.
\<close>

locale live_store = refresh_store R toks ok stamp
  for R :: "('d env_scheme) refresh_token_repo" and toks ok stamp +
  fixes quiet :: "'d env_scheme \<Rightarrow> bool"
    and known :: "'d env_scheme \<Rightarrow> uuid \<Rightarrow> bool"
  assumes quiet_next_tick: "quiet w \<Longrightarrow> quiet (next_tick w)"
    and known_next_tick: "known (next_tick w) = known w"
    and quiet_get: "rt_get_by_hash R h w = (x, w') \<Longrightarrow> quiet w \<Longrightarrow>
      quiet w' \<and> known w' = known w \<and> (\<forall>e. x = Inl e \<longrightarrow> errors_is e Err_No_Rows)"
    and quiet_revoke: "rt_revoke R i w = (y, w') \<Longrightarrow> quiet w \<Longrightarrow>
      quiet w' \<and> known w' = known w \<and> y = None"
    and quiet_chain: "rt_revoke_chain R ch w = (y, w') \<Longrightarrow> quiet w \<Longrightarrow> y = None"
    and quiet_user: "rt_revoke_all_for_user R i w = (y, w') \<Longrightarrow> quiet w \<Longrightarrow> y = None"
    and quiet_create: "rt_create R c w = (x, w') \<Longrightarrow> quiet w \<Longrightarrow> known w (tc_user_id c) \<Longrightarrow>
      \<forall>t\<in>set (toks w). t_token_hash t \<noteq> tc_token_hash c \<Longrightarrow> \<exists>t. x = Inr t"

subsection \<open>The user store, as the auth service sees it\<close>

locale user_lookup =
  fixes U :: "('d env_scheme) auth_user_repo"
    and usrs :: "'d env_scheme \<Rightarrow> user list"
  assumes lookup_Inr: "au_get_by_email U e w = (Inr u, w') \<Longrightarrow> u \<in> set (usrs w) \<and> u_email u = e"
    and lookup_Inl: "au_get_by_email U e w = (Inl x, w') \<Longrightarrow> errors_is x Err_No_Rows \<Longrightarrow>
      \<forall>u\<in>set (usrs w). u_email u \<noteq> e"
    and lookup_step: "au_get_by_email U e w = (r, w') \<Longrightarrow> env_step w w' \<and> usrs w' = usrs w"

text \<open>Both stores together, as the auth service is given them: looking a user up leaves the
  tokens alone.\<close>

locale auth_stores = refresh_store R toks ok stamp + user_lookup U usrs
  for R :: "('d env_scheme) refresh_token_repo" and toks ok stamp
    and U :: "('d env_scheme) auth_user_repo" and usrs +
  assumes lookup_tokens: "au_get_by_email U e w = (r, w') \<Longrightarrow>
      toks w' = toks w \<and> stamp w' = stamp w \<and> (ok w \<longrightarrow> ok w')"

locale live_stores = auth_stores R toks ok stamp U usrs + live_store R toks ok stamp quiet known
  for R :: "('d env_scheme) refresh_token_repo" and toks ok stamp
    and U :: "('d env_scheme) auth_user_repo" and usrs and quiet known +
  assumes quiet_lookup: "au_get_by_email U e w = (x, w') \<Longrightarrow> quiet w \<Longrightarrow>
      quiet w' \<and> known w' = known w \<and> (\<forall>err. x = Inl err \<longrightarrow> errors_is err Err_No_Rows)"
    and ok_unique_email: "ok w \<Longrightarrow> distinct (map u_email (usrs w))"
    and known_users: "known w i \<longleftrightarrow> i \<in> u_id ` set (usrs w)"

subsection \<open>The user store, as the user service sees it\<close>

text \<open>
  \<open>unique_violation_of\<close> says which errors the consumer reads as a unique-constraint
  violation. Lookups by id and by email are exact; an insert appends; an update patches one
  user; a page is the page of the abstract list, provided the cursor's time is one the store
  can represent (\<open>stamp\<close> leaves it alone).
\<close>

locale user_store =
  fixes U :: "('d env_scheme) user_repo"
    and usrs :: "'d env_scheme \<Rightarrow> user list"
    and ok :: "'d env_scheme \<Rightarrow> bool"
    and stamp :: "'d env_scheme \<Rightarrow> instant \<Rightarrow> instant"
  assumes users_next_tick: "usrs (next_tick w) = usrs w"
    and ok_user_ids: "ok w \<Longrightarrow> distinct (map u_id (usrs w))"
    and ok_emails: "ok w \<Longrightarrow> distinct (map u_email (usrs w))"
    and us_create_Inr: "us_create U c w = (Inr u, w') \<Longrightarrow>
      usrs w' = usrs w @ [u] \<and> u_email u = uc_email c \<and> u_password_hash u = uc_password_hash c
      \<and> u_name u = uc_name c"
    and us_create_dup: "us_create U c w = (Inl e, w') \<Longrightarrow> errors_as_pg e = Some ''23505'' \<Longrightarrow>
      usrs w' = usrs w"
    and us_create_taken: "us_create U c w = (Inr u, w') \<Longrightarrow> \<forall>v\<in>set (usrs w). u_email v \<noteq> uc_email c"
    and us_create_ok: "us_create U c w = (r, w') \<Longrightarrow> ok w \<Longrightarrow> ok w'"
    and us_get_Inr: "us_get_by_id U i w = (Inr u, w') \<Longrightarrow> u \<in> set (usrs w) \<and> u_id u = i"
    and us_get_Inl: "us_get_by_id U i w = (Inl e, w') \<Longrightarrow> errors_is e Err_No_Rows \<Longrightarrow>
      \<forall>u\<in>set (usrs w). u_id u \<noteq> i"
    and us_get_step: "us_get_by_id U i w = (r, w') \<Longrightarrow>
      usrs w' = usrs w \<and> (ok w \<longrightarrow> ok w')"
    and us_email_Inr: "us_get_by_email U x w = (Inr u, w') \<Longrightarrow> u \<in> set (usrs w) \<and> u_email u = x"
    and us_email_Inl: "us_get_by_email U x w = (Inl e, w') \<Longrightarrow> errors_is e Err_No_Rows \<Longrightarrow>
      \<forall>u\<in>set (usrs w). u_email u \<noteq> x"
    and us_email_step: "us_get_by_email U x w = (r, w') \<Longrightarrow>
      usrs w' = usrs w \<and> (ok w \<longrightarrow> ok w')"
    and us_list_Inr: "us_list U inp w = (Inr us, w') \<Longrightarrow> 0 \<le> sint (lui_limit inp) \<Longrightarrow>
      (\<And>k. lui_cursor inp = Some k \<Longrightarrow> stamp w (pc_created_at k) = pc_created_at k) \<Longrightarrow>
      us = user_page (nat (sint (lui_limit inp))) (lui_cursor inp) (usrs w)"
    and us_list_step: "us_list U inp w = (ls, w') \<Longrightarrow>
      usrs w' = usrs w \<and> (ok w \<longrightarrow> ok w')"
    and us_update_Inr: "us_update U i p w = (Inr u, w') \<Longrightarrow>
      \<exists>now v. v \<in> set (usrs w) \<and> u_id v = i \<and> u = patch_user p now v \<and>
        usrs w' = map (\<lambda>v. if u_id v = i then u else v) (usrs w)"
    and us_update_missing: "us_update U i p w = (Inl e, w') \<Longrightarrow> errors_is e Err_No_Rows \<Longrightarrow>
      usrs w' = usrs w \<and> (\<forall>u\<in>set (usrs w). u_id u \<noteq> i)"
    and us_update_dup: "us_update U i p w = (Inl e, w') \<Longrightarrow> ok w \<Longrightarrow>
      errors_as_pg e = Some ''23505'' \<Longrightarrow> usrs w' = usrs w \<and>
      (\<exists>x u. uu_email p = Some x \<and> u \<in> set (usrs w) \<and> u_id u \<noteq> i \<and> u_email u = x)"
    and us_update_ok: "us_update U i p w = (r, w') \<Longrightarrow> ok w \<Longrightarrow> ok w'"
    and us_delete_None: "us_delete U i w = (None, w') \<Longrightarrow>
      usrs w' = filter (\<lambda>u. u_id u \<noteq> i) (usrs w)"
    and us_delete_ok: "us_delete U i w = (d, w') \<Longrightarrow> ok w \<Longrightarrow> ok w'"
    and users_ok_next_tick: "ok (next_tick w) = ok w"

text \<open>The same store while nothing fails: only the errors that the state of the store explains
  are left.\<close>

locale live_users = user_store U usrs ok stamp
  for U :: "('d env_scheme) user_repo" and usrs ok stamp +
  fixes quiet :: "'d env_scheme \<Rightarrow> bool"
  assumes users_quiet_next: "quiet w \<Longrightarrow> quiet (next_tick w)"
    and quiet_us_create: "us_create U c w = (Inl e, w') \<Longrightarrow> quiet w \<Longrightarrow>
      errors_as_pg e = Some ''23505'' \<and> (\<exists>v\<in>set (usrs w). u_email v = uc_email c)"
    and quiet_us_get: "us_get_by_id U i w = (Inl e, w') \<Longrightarrow> quiet w \<Longrightarrow> errors_is e Err_No_Rows"
    and quiet_us_email: "us_get_by_email U x w = (Inl e, w') \<Longrightarrow> quiet w \<Longrightarrow> errors_is e Err_No_Rows"
    and quiet_us_list: "us_list U inp w = (ls, w') \<Longrightarrow> quiet w \<Longrightarrow> 0 \<le> sint (lui_limit inp) \<Longrightarrow>
      quiet w' \<and> stamp w' = stamp w \<and> (ok w \<longrightarrow> ok w') \<and> (\<exists>us. ls = Inr us)"
    and quiet_us_update: "us_update U i p w = (Inl e, w') \<Longrightarrow> quiet w \<Longrightarrow>
      errors_is e Err_No_Rows \<or> errors_as_pg e = Some ''23505''"
    and quiet_us_delete: "us_delete U i w = (d, w') \<Longrightarrow> quiet w \<Longrightarrow> d = None"

end
