(* ===== verification/Repositories.thy ===== *)
theory Repositories
  imports Sql_Laws Contracts
begin

section \<open>Repositories (internal/repositories)\<close>

text \<open>
  The hand-written repositories over the queries, method by method, and the transaction
  helper \<open>WithTx\<close>. \<open>user_repository\<close> and \<open>refresh_token_repository\<close> wrap a
  \<open>Queries\<close> value, which runs on the pool or on a transaction.
\<close>

record user_repository =
  urep_q :: queries

record refresh_token_repository =
  rrep_q :: queries

definition new_user_repository :: "queries \<Rightarrow> user_repository" where
  "new_user_repository q = \<lparr>urep_q = q\<rparr>"

definition new_refresh_token_repository :: "queries \<Rightarrow> refresh_token_repository" where
  "new_refresh_token_repository q = \<lparr>rrep_q = q\<rparr>"

subsection \<open>Users (user\_repository.go)\<close>

definition user_to_model :: "user_row \<Rightarrow> user" where
  "user_to_model row =
     \<lparr>u_id = ur_id row, u_email = ur_email row, u_password_hash = ur_password_hash row,
      u_name = ur_name row, u_created_at = ur_created_at row, u_updated_at = ur_updated_at row\<rparr>"

definition to_null_string :: "string option \<Rightarrow> null_string" where
  "to_null_string s =
     (case s of None \<Rightarrow> \<lparr>ns_string = [], ns_valid = False\<rparr>
      | Some v \<Rightarrow> \<lparr>ns_string = v, ns_valid = True\<rparr>)"

definition user_repo_create ::
    "user_repository \<Rightarrow> user_create \<Rightarrow> world \<Rightarrow> (go_error + user) \<times> world" where
  "user_repo_create r params w =
     (case q_create_user (urep_q r)
             \<lparr>cup_email = uc_email params, cup_password_hash = uc_password_hash params,
              cup_name = uc_name params\<rparr> w of
        (Inl err, w1) \<Rightarrow> (Inl err, w1)
      | (Inr row, w1) \<Rightarrow> (Inr (user_to_model row), w1))"

definition user_repo_get_by_id ::
    "user_repository \<Rightarrow> uuid \<Rightarrow> world \<Rightarrow> (go_error + user) \<times> world" where
  "user_repo_get_by_id r i w =
     (case q_get_user_by_id (urep_q r) i w of
        (Inl err, w1) \<Rightarrow> (Inl err, w1)
      | (Inr row, w1) \<Rightarrow> (Inr (user_to_model row), w1))"

definition user_repo_get_by_email ::
    "user_repository \<Rightarrow> string \<Rightarrow> world \<Rightarrow> (go_error + user) \<times> world" where
  "user_repo_get_by_email r email w =
     (case q_get_user_by_email (urep_q r) email w of
        (Inl err, w1) \<Rightarrow> (Inl err, w1)
      | (Inr row, w1) \<Rightarrow> (Inr (user_to_model row), w1))"

text \<open>The zero values of \<open>sql.NullTime\<close> and \<open>uuid.NullUUID\<close>; the zero time is year 1.\<close>

definition null_time_zero :: null_time where
  "null_time_zero = \<lparr>nt_time = - 62135596800 * second, nt_valid = False\<rparr>"

definition null_uuid_zero :: null_uuid where
  "null_uuid_zero = \<lparr>nu_uuid = uuid_nil, nu_valid = False\<rparr>"

definition list_params :: "list_users_input \<Rightarrow> list_users_params" where
  "list_params inp =
     (case lui_cursor inp of
        None \<Rightarrow> \<lparr>lup_cursor_created_at = null_time_zero, lup_cursor_id = null_uuid_zero,
                 lup_max_rows = lui_limit inp\<rparr>
      | Some c \<Rightarrow> \<lparr>lup_cursor_created_at = \<lparr>nt_time = pc_created_at c, nt_valid = True\<rparr>,
                   lup_cursor_id = \<lparr>nu_uuid = pc_id c, nu_valid = True\<rparr>,
                   lup_max_rows = lui_limit inp\<rparr>)"

definition user_repo_list ::
    "user_repository \<Rightarrow> list_users_input \<Rightarrow> world \<Rightarrow> (go_error + user list) \<times> world" where
  "user_repo_list r inp w =
     (case q_list_users (urep_q r) (list_params inp) w of
        (Inl err, w1) \<Rightarrow> (Inl err, w1)
      | (Inr rows, w1) \<Rightarrow> (Inr (map user_to_model rows), w1))"

definition user_repo_update ::
    "user_repository \<Rightarrow> uuid \<Rightarrow> user_update \<Rightarrow> world \<Rightarrow> (go_error + user) \<times> world" where
  "user_repo_update r i params w =
     (case q_update_user (urep_q r)
             \<lparr>uup_email = to_null_string (uu_email params),
              uup_password_hash = to_null_string (uu_password_hash params),
              uup_name = to_null_string (uu_name params), uup_id = i\<rparr> w of
        (Inl err, w1) \<Rightarrow> (Inl err, w1)
      | (Inr row, w1) \<Rightarrow> (Inr (user_to_model row), w1))"

definition user_repo_delete :: "user_repository \<Rightarrow> uuid \<Rightarrow> world \<Rightarrow> go_error option \<times> world" where
  "user_repo_delete r i w = q_delete_user (urep_q r) i w"

definition user_repo_count :: "user_repository \<Rightarrow> world \<Rightarrow> (go_error + nat) \<times> world" where
  "user_repo_count r w = q_count_users (urep_q r) w"

subsection \<open>Refresh tokens (refresh\_token\_repository.go)\<close>

definition refresh_token_to_model :: "token_row \<Rightarrow> refresh_token" where
  "refresh_token_to_model row =
     \<lparr>t_id = tr_id row, t_user_id = tr_user_id row, t_token_hash = tr_token_hash row,
      t_chain_id = tr_chain_id row, t_revoked_at = tr_revoked_at row,
      t_expires_at = tr_expires_at row, t_created_at = tr_created_at row,
      t_updated_at = tr_updated_at row\<rparr>"

definition token_repo_create ::
    "refresh_token_repository \<Rightarrow> refresh_token_create \<Rightarrow> world \<Rightarrow> (go_error + refresh_token) \<times> world" where
  "token_repo_create r rt w =
     (case q_create_refresh_token (rrep_q r)
             \<lparr>ctp_user_id = tc_user_id rt, ctp_token_hash = tc_token_hash rt,
              ctp_chain_id = tc_chain_id rt, ctp_expires_at = tc_expires_at rt\<rparr> w of
        (Inl err, w1) \<Rightarrow> (Inl err, w1)
      | (Inr row, w1) \<Rightarrow> (Inr (refresh_token_to_model row), w1))"

definition token_repo_get_by_hash ::
    "refresh_token_repository \<Rightarrow> string \<Rightarrow> world \<Rightarrow> (go_error + refresh_token) \<times> world" where
  "token_repo_get_by_hash r h w =
     (case q_get_refresh_token_by_hash (rrep_q r) h w of
        (Inl err, w1) \<Rightarrow> (Inl err, w1)
      | (Inr row, w1) \<Rightarrow> (Inr (refresh_token_to_model row), w1))"

definition token_repo_revoke ::
    "refresh_token_repository \<Rightarrow> uuid \<Rightarrow> world \<Rightarrow> go_error option \<times> world" where
  "token_repo_revoke r i w =
     (case q_revoke_refresh_token (rrep_q r) i w of
        (Inl err, w1) \<Rightarrow> if \<not> errors_is err Err_No_Rows then (Some err, w1) else (None, w1)
      | (Inr _, w1) \<Rightarrow> (None, w1))"

definition token_repo_revoke_chain ::
    "refresh_token_repository \<Rightarrow> uuid \<Rightarrow> world \<Rightarrow> go_error option \<times> world" where
  "token_repo_revoke_chain r c w = q_revoke_chain (rrep_q r) c w"

definition token_repo_revoke_all_for_user ::
    "refresh_token_repository \<Rightarrow> uuid \<Rightarrow> world \<Rightarrow> go_error option \<times> world" where
  "token_repo_revoke_all_for_user r i w = q_revoke_all_for_user (rrep_q r) i w"

subsection \<open>The group of repositories and transactions (repositories.go)\<close>

record repositories =
  reps_users :: user_repository
  reps_refresh_tokens :: refresh_token_repository

definition new_repositories :: "dbtx \<Rightarrow> repositories" where
  "new_repositories d =
     (let q = sqlc_new d
      in \<lparr>reps_users = new_user_repository q, reps_refresh_tokens = new_refresh_token_repository q\<rparr>)"

text \<open>
  \<open>fn\<close> either returns (nil or an error) or panics. A rollback restores the tables of the
  transaction's start, whether or not its reply arrives; a commit of an aborted transaction
  rolls back and is an error; a commit whose reply is lost took effect or did not.
\<close>

datatype tx_outcome = Tx_Return "go_error option" | Tx_Panic

definition with_tx :: "(repositories \<Rightarrow> world \<Rightarrow> tx_outcome \<times> world) \<Rightarrow> world \<Rightarrow> tx_outcome \<times> world" where
  "with_tx fn w =
     (case fault_at w (tick w) of
        Some f \<Rightarrow> (Tx_Return (Some (Wrapf ''begin tx''
                    (Foreign_Error (case f of Lost_Before m \<Rightarrow> m | Lost_After m \<Rightarrow> m)))), next_tick w)
      | None \<Rightarrow>
          (case fn (new_repositories On_Tx)
                  ((next_tick w)\<lparr>tx_now := db_clock_at w (tick w), tx_aborted := False\<rparr>) of
             (Tx_Panic, w2) \<Rightarrow> (Tx_Panic, (next_tick w2)\<lparr>db := db w\<rparr>)
           | (Tx_Return (Some err), w2) \<Rightarrow>
               (case fault_at w2 (tick w2) of
                  None \<Rightarrow> (Tx_Return (Some err), (next_tick w2)\<lparr>db := db w\<rparr>)
                | Some f \<Rightarrow> (Tx_Return (Some (Joined err (Wrapf ''rollback''
                    (Foreign_Error (case f of Lost_Before m \<Rightarrow> m | Lost_After m \<Rightarrow> m))))),
                   (next_tick w2)\<lparr>db := db w\<rparr>))
           | (Tx_Return None, w2) \<Rightarrow>
               (case fault_at w2 (tick w2) of
                  Some (Lost_Before m) \<Rightarrow>
                    (Tx_Return (Some (Wrapf ''commit'' (Foreign_Error m))), (next_tick w2)\<lparr>db := db w\<rparr>)
                | Some (Lost_After m) \<Rightarrow>
                    (Tx_Return (Some (Wrapf ''commit'' (Foreign_Error m))),
                     if tx_aborted w2 then (next_tick w2)\<lparr>db := db w\<rparr> else next_tick w2)
                | None \<Rightarrow>
                    if tx_aborted w2
                    then (Tx_Return (Some (Wrapf ''commit'' (Foreign_Error
                            ''commit unexpectedly resulted in rollback''))), (next_tick w2)\<lparr>db := db w\<rparr>)
                    else (Tx_Return None, next_tick w2))))"

subsection \<open>The interfaces the services are given\<close>

text \<open>\<open>*UserRepository\<close> and \<open>*RefreshTokenRepository\<close> as values of the consumer-side
  interfaces.\<close>

definition as_auth_user_repo :: "user_repository \<Rightarrow> world auth_user_repo" where
  "as_auth_user_repo r = \<lparr>au_get_by_email = user_repo_get_by_email r\<rparr>"

definition as_user_repo :: "user_repository \<Rightarrow> world user_repo" where
  "as_user_repo r =
     \<lparr>us_create = user_repo_create r, us_get_by_id = user_repo_get_by_id r,
      us_get_by_email = user_repo_get_by_email r, us_list = user_repo_list r,
      us_update = user_repo_update r, us_delete = user_repo_delete r\<rparr>"

definition as_refresh_token_repo :: "refresh_token_repository \<Rightarrow> world refresh_token_repo" where
  "as_refresh_token_repo r =
     \<lparr>rt_create = token_repo_create r, rt_get_by_hash = token_repo_get_by_hash r,
      rt_revoke = token_repo_revoke r, rt_revoke_chain = token_repo_revoke_chain r,
      rt_revoke_all_for_user = token_repo_revoke_all_for_user r\<rparr>"

subsection \<open>The abstract view: domain values in the tables\<close>

definition world_users :: "world \<Rightarrow> user list" where
  "world_users w = map user_to_model (users_tbl (db w))"

definition world_tokens :: "world \<Rightarrow> refresh_token list" where
  "world_tokens w = map refresh_token_to_model (tokens_tbl (db w))"

definition world_ok :: "world \<Rightarrow> bool" where
  "world_ok w \<longleftrightarrow> db_ok (db w)"

lemma db_next_tick [simp]: "db (next_tick w) = db w" "ts_store (next_tick w) = ts_store w"
  by (simp_all add: next_tick_def)

lemma view_next_tick [simp]:
  "world_users (next_tick w) = world_users w" "world_tokens (next_tick w) = world_tokens w"
  "world_ok (next_tick w) = world_ok w"
  by (simp_all add: world_users_def world_tokens_def world_ok_def)

lemma view_cong:
  "users_tbl (db w') = users_tbl (db w) \<Longrightarrow> world_users w' = world_users w"
  "tokens_tbl (db w') = tokens_tbl (db w) \<Longrightarrow> world_tokens w' = world_tokens w"
  by (simp_all add: world_users_def world_tokens_def)

lemma view_same:
  "db w' = db w \<Longrightarrow> world_users w' = world_users w"
  "db w' = db w \<Longrightarrow> world_tokens w' = world_tokens w"
  by (simp_all add: world_users_def world_tokens_def)

lemma user_to_model_sel [simp]:
  "u_id (user_to_model r) = ur_id r" "u_email (user_to_model r) = ur_email r"
  "u_password_hash (user_to_model r) = ur_password_hash r" "u_name (user_to_model r) = ur_name r"
  "u_created_at (user_to_model r) = ur_created_at r" "u_updated_at (user_to_model r) = ur_updated_at r"
  by (simp_all add: user_to_model_def)

lemma refresh_token_to_model_sel [simp]:
  "t_id (refresh_token_to_model r) = tr_id r" "t_user_id (refresh_token_to_model r) = tr_user_id r"
  "t_token_hash (refresh_token_to_model r) = tr_token_hash r"
  "t_chain_id (refresh_token_to_model r) = tr_chain_id r"
  "t_revoked_at (refresh_token_to_model r) = tr_revoked_at r"
  "t_expires_at (refresh_token_to_model r) = tr_expires_at r"
  "t_created_at (refresh_token_to_model r) = tr_created_at r"
  "t_updated_at (refresh_token_to_model r) = tr_updated_at r"
  by (simp_all add: refresh_token_to_model_def)

lemma view_keys:
  "map u_id (world_users w) = map ur_id (users_tbl (db w))"
  "map u_email (world_users w) = map ur_email (users_tbl (db w))"
  "map t_id (world_tokens w) = map tr_id (tokens_tbl (db w))"
  "map t_token_hash (world_tokens w) = map tr_token_hash (tokens_tbl (db w))"
  by (simp_all add: world_users_def world_tokens_def)

lemma refresh_token_to_model_revoked [simp]:
  "refresh_token_to_model (r\<lparr>tr_revoked_at := x, tr_updated_at := now\<rparr>) =
     (refresh_token_to_model r)\<lparr>t_revoked_at := x, t_updated_at := now\<rparr>"
  by (simp add: refresh_token_to_model_def)

lemma world_tokens_revoked:
  assumes "db w' = revoke_rows P now (db w)" and "\<And>r. P r = Q (refresh_token_to_model r)"
  shows "world_tokens w' = revoke_tokens Q now (world_tokens w)"
  using assms
  by (auto simp: world_tokens_def revoke_tokens_def revoke_rows_def active_def)

subsection \<open>The token repository meets its contract\<close>

lemmas token_repo_defs = as_refresh_token_repo_def token_repo_create_def token_repo_get_by_hash_def
  token_repo_revoke_def token_repo_revoke_chain_def token_repo_revoke_all_for_user_def
  q_create_refresh_token_def q_get_refresh_token_by_hash_def q_revoke_refresh_token_def
  q_revoke_chain_def q_revoke_all_for_user_def

lemma run_stmt_step:
  assumes "run_stmt q st w = (r, w')" and "keeps db_ok st"
  shows "env_step w w' \<and> ts_store w' = ts_store w \<and> (world_ok w \<longrightarrow> world_ok w')"
  using run_stmt_world [OF assms(1)] run_stmt_keeps [OF assms(1,2)]
  by (simp add: world_step_def world_ok_def)

lemma token_repo_steps:
  "token_repo_create r c w = (x, w') \<Longrightarrow>
     env_step w w' \<and> ts_store w' = ts_store w \<and> (world_ok w \<longrightarrow> world_ok w')"
  "token_repo_get_by_hash r h w = (x, w') \<Longrightarrow>
     env_step w w' \<and> ts_store w' = ts_store w \<and> (world_ok w \<longrightarrow> world_ok w')"
  "token_repo_revoke r i w = (y, w') \<Longrightarrow>
     env_step w w' \<and> ts_store w' = ts_store w \<and> (world_ok w \<longrightarrow> world_ok w')"
  "token_repo_revoke_chain r i w = (y, w') \<Longrightarrow>
     env_step w w' \<and> ts_store w' = ts_store w \<and> (world_ok w \<longrightarrow> world_ok w')"
  "token_repo_revoke_all_for_user r i w = (y, w') \<Longrightarrow>
     env_step w w' \<and> ts_store w' = ts_store w \<and> (world_ok w \<longrightarrow> world_ok w')"
  by (auto simp: token_repo_defs split: prod.splits sum.splits if_splits
      dest!: run_stmt_step [OF _ keeps_create_token] run_stmt_step [OF _ keeps_reads(5)]
        run_stmt_step [OF _ keeps_revokes(1)] run_stmt_step [OF _ keeps_revokes(2)]
        run_stmt_step [OF _ keeps_revokes(3)])

text \<open>The effect of an insert, whether or not its reply arrives.\<close>

lemma token_repo_create_effect:
  assumes "token_repo_create r c w = (x, w')"
  shows "(\<exists>t. (x = Inr t \<or> (\<exists>e. x = Inl e)) \<and> world_tokens w' = world_tokens w @ [t]
            \<and> stored_as c (ts_store w (tc_expires_at c)) t)
         \<or> (\<exists>e. x = Inl e) \<and> world_tokens w' = world_tokens w"
proof -
  let ?arg = "\<lparr>ctp_user_id = tc_user_id c, ctp_token_hash = tc_token_hash c,
      ctp_chain_id = tc_chain_id c, ctp_expires_at = ts_store w (tc_expires_at c)\<rparr>"
  obtain y where run: "run_stmt (rrep_q r) (sql_create_refresh_token ?arg) w = (y, w')"
    and x: "x = map_sum id refresh_token_to_model y"
    using assms by (auto simp: token_repo_defs split: prod.splits sum.splits)
  have made: "world_tokens w' = world_tokens w @ [refresh_token_to_model t]
      \<and> stored_as c (ts_store w (tc_expires_at c)) (refresh_token_to_model t)"
    if "db w' = db w\<lparr>tokens_tbl := tokens_tbl (db w) @ [t]\<rparr>" "tr_user_id t = ctp_user_id ?arg"
      "tr_token_hash t = ctp_token_hash ?arg" "tr_chain_id t = ctp_chain_id ?arg"
      "tr_revoked_at t = None" "tr_expires_at t = ctp_expires_at ?arg" for t
    using that by (simp add: world_tokens_def stored_as_def active_def)
  from run show ?thesis
  proof (cases rule: run_stmt_ends)
    case (answered now new)
    then show ?thesis
      by (cases rule: create_token_cases [of new ?arg "db w" now])
        (use x made in \<open>auto simp: world_tokens_def\<close>)
  next
    case (failed e now new)
    then show ?thesis
      by (cases rule: create_token_cases [of new ?arg "db w" now])
        (use x made in \<open>auto simp: world_tokens_def\<close>)
  qed
qed

lemma token_repo_create_failed:
  "token_repo_create r c w = (Inl e, w') \<Longrightarrow> world_tokens w' = world_tokens w \<or>
     (\<exists>t. world_tokens w' = world_tokens w @ [t] \<and> stored_as c (ts_store w (tc_expires_at c)) t)"
  using token_repo_create_effect [of r c w "Inl e" w'] by auto

lemma token_repo_create_done:
  "token_repo_create r c w = (Inr t, w') \<Longrightarrow> world_tokens w' = world_tokens w @ [t]
     \<and> stored_as c (ts_store w (tc_expires_at c)) t"
  using token_repo_create_effect [of r c w "Inr t" w'] by auto

lemma token_repo_get_effect:
  assumes "token_repo_get_by_hash r h w = (x, w')"
  shows "world_tokens w' = world_tokens w"
    and "x = Inr t \<Longrightarrow> t \<in> set (world_tokens w) \<and> t_token_hash t = h"
    and "x = Inl e \<Longrightarrow> errors_is e Err_No_Rows \<Longrightarrow> \<forall>t\<in>set (world_tokens w). t_token_hash t \<noteq> h"
proof -
  obtain y where run: "run_stmt (rrep_q r) (sql_get_refresh_token_by_hash h) w = (y, w')"
    and x: "x = map_sum id refresh_token_to_model y"
    using assms by (auto simp: token_repo_defs split: prod.splits sum.splits)
  from run show "world_tokens w' = world_tokens w"
    by (cases rule: run_stmt_ends) (auto simp: world_tokens_def table_simps)
  from run show "x = Inr t \<Longrightarrow> t \<in> set (world_tokens w) \<and> t_token_hash t = h"
    by (cases rule: run_stmt_ends)
      (auto simp: x world_tokens_def sql_get_refresh_token_by_hash_def
        split: option.splits dest!: find_SomeD)
  from run show "x = Inl e \<Longrightarrow> errors_is e Err_No_Rows \<Longrightarrow> \<forall>t\<in>set (world_tokens w). t_token_hash t \<noteq> h"
    by (cases rule: run_stmt_ends)
      (auto simp: x world_tokens_def sql_get_refresh_token_by_hash_def plain_error_def find_None_iff
        split: option.splits)
qed

lemma token_repo_revoke_effect:
  assumes "token_repo_revoke r i w = (x, w')"
  shows "x = None \<Longrightarrow> \<exists>now. world_tokens w' = revoke_tokens (\<lambda>t. t_id t = i) now (world_tokens w)"
    and "world_tokens w' = world_tokens w \<or>
      (\<exists>now. world_tokens w' = revoke_tokens (\<lambda>t. t_id t = i) now (world_tokens w))"
proof -
  obtain y where run: "run_stmt (rrep_q r) (sql_revoke_refresh_token i) w = (y, w')"
    and x: "x = (case y of Inl e \<Rightarrow> if errors_is e Err_No_Rows then None else Some e | Inr _ \<Rightarrow> None)"
    using assms by (auto simp: token_repo_defs split: prod.splits sum.splits if_splits)
  have stmt: "\<exists>t. world_tokens w' = revoke_tokens (\<lambda>t. t_id t = i) t (world_tokens w)"
    if "db w' = snd (sql_revoke_refresh_token i now new (db w))" for now new
  proof (cases "list_ex (\<lambda>t. tr_id t = i \<and> tr_revoked_at t = None) (tokens_tbl (db w))")
    case True
    with that show ?thesis
      by (intro exI [of _ now] world_tokens_revoked [where P = "\<lambda>t. tr_id t = i"])
        (simp_all add: sql_revoke_refresh_token_def)
  next
    case False
    with that have "db w' = db w" by (simp add: sql_revoke_refresh_token_def)
    moreover have "revoke_tokens (\<lambda>t. t_id t = i) now (world_tokens w) = world_tokens w"
      using False by (intro revoke_tokens_none) (auto simp: world_tokens_def active_def list_ex_iff)
    ultimately show ?thesis by (metis view_cong(2))
  qed
  from run show "x = None \<Longrightarrow> \<exists>now. world_tokens w' = revoke_tokens (\<lambda>t. t_id t = i) now (world_tokens w)"
    by (cases rule: run_stmt_ends) (auto simp: x plain_error_def intro: stmt)
  from run show "world_tokens w' = world_tokens w \<or>
      (\<exists>now. world_tokens w' = revoke_tokens (\<lambda>t. t_id t = i) now (world_tokens w))"
    by (cases rule: run_stmt_ends) (use stmt view_cong(2) in metis)+
qed

lemma exec_effect:
  assumes "(case run_stmt q st w of (Inl e, w1) \<Rightarrow> (Some e, w1) | (Inr _, w1) \<Rightarrow> (None, w1)) = (x, w')"
    and "\<And>now new. E (db w) (snd (st now new (db w)))"
  shows "x = None \<Longrightarrow> E (db w) (db w')" and "db w' = db w \<or> E (db w) (db w')"
proof -
  obtain y where run: "run_stmt q st w = (y, w')" and x: "x = None \<Longrightarrow> \<exists>u. y = Inr u"
    using assms(1) by (auto split: prod.splits sum.splits)
  from run show "x = None \<Longrightarrow> E (db w) (db w')"
    by (cases rule: run_stmt_ends) (use x assms(2) in auto)
  from run show "db w' = db w \<or> E (db w) (db w')"
    by (cases rule: run_stmt_ends) (use assms(2) in auto)
qed

lemma token_repo_revoke_chain_effect:
  assumes "token_repo_revoke_chain r c w = (x, w')"
  shows "x = None \<Longrightarrow> \<exists>now. world_tokens w' = revoke_tokens (\<lambda>t. t_chain_id t = c) now (world_tokens w)"
    and "world_tokens w' = world_tokens w \<or>
      (\<exists>now. world_tokens w' = revoke_tokens (\<lambda>t. t_chain_id t = c) now (world_tokens w))"
proof -
  let ?E = "\<lambda>d d'. \<exists>now. d' = revoke_rows (\<lambda>t. tr_chain_id t = c) now d"
  have view: "\<exists>now. world_tokens w' = revoke_tokens (\<lambda>t. t_chain_id t = c) now (world_tokens w)"
    if E: "?E (db w) (db w')"
  proof -
    from E obtain now where "db w' = revoke_rows (\<lambda>t. tr_chain_id t = c) now (db w)" by blast
    then have "world_tokens w' = revoke_tokens (\<lambda>t. t_chain_id t = c) now (world_tokens w)"
      by (rule world_tokens_revoked) simp
    then show ?thesis by blast
  qed
  have E: "?E (db w) (snd (sql_revoke_chain c now new (db w)))" for now new
    by (auto simp: sql_revoke_chain_def)
  note effect = exec_effect [OF assms [unfolded token_repo_revoke_chain_def q_revoke_chain_def],
      where E = ?E, OF E]
  show "x = None \<Longrightarrow> \<exists>now. world_tokens w' = revoke_tokens (\<lambda>t. t_chain_id t = c) now (world_tokens w)"
    using effect(1) by (rule view)
  show "world_tokens w' = world_tokens w \<or>
      (\<exists>now. world_tokens w' = revoke_tokens (\<lambda>t. t_chain_id t = c) now (world_tokens w))"
    using effect(2) view by (auto simp: world_tokens_def)
qed

lemma token_repo_revoke_all_effect:
  assumes "token_repo_revoke_all_for_user r i w = (x, w')"
  shows "x = None \<Longrightarrow> \<exists>now. world_tokens w' = revoke_tokens (\<lambda>t. t_user_id t = i) now (world_tokens w)"
    and "world_tokens w' = world_tokens w \<or>
      (\<exists>now. world_tokens w' = revoke_tokens (\<lambda>t. t_user_id t = i) now (world_tokens w))"
proof -
  let ?E = "\<lambda>d d'. \<exists>now. d' = revoke_rows (\<lambda>t. tr_user_id t = i) now d"
  have view: "\<exists>now. world_tokens w' = revoke_tokens (\<lambda>t. t_user_id t = i) now (world_tokens w)"
    if E: "?E (db w) (db w')"
  proof -
    from E obtain now where "db w' = revoke_rows (\<lambda>t. tr_user_id t = i) now (db w)" by blast
    then have "world_tokens w' = revoke_tokens (\<lambda>t. t_user_id t = i) now (world_tokens w)"
      by (rule world_tokens_revoked) simp
    then show ?thesis by blast
  qed
  have E: "?E (db w) (snd (sql_revoke_all_for_user i now new (db w)))" for now new
    by (auto simp: sql_revoke_all_for_user_def)
  note effect = exec_effect [OF assms [unfolded token_repo_revoke_all_for_user_def
      q_revoke_all_for_user_def], where E = ?E, OF E]
  show "x = None \<Longrightarrow> \<exists>now. world_tokens w' = revoke_tokens (\<lambda>t. t_user_id t = i) now (world_tokens w)"
    using effect(1) by (rule view)
  show "world_tokens w' = world_tokens w \<or>
      (\<exists>now. world_tokens w' = revoke_tokens (\<lambda>t. t_user_id t = i) now (world_tokens w))"
    using effect(2) view by (auto simp: world_tokens_def)
qed

interpretation tokens: refresh_store "as_refresh_token_repo r" world_tokens world_ok ts_store
  for r :: refresh_token_repository
proof (unfold_locales, goal_cases)
  case (4 w)
  then show ?case by (simp add: world_ok_def db_ok_def view_keys)
next
  case (5 w)
  then show ?case by (simp add: world_ok_def db_ok_def view_keys)
next
  case (9 h w x w')
  then show ?case
    using token_repo_steps(2) token_repo_get_effect(1) by (simp add: as_refresh_token_repo_def)
qed (auto simp: as_refresh_token_repo_def dest: token_repo_steps token_repo_create_done
    token_repo_create_failed token_repo_get_effect token_repo_revoke_effect
    token_repo_revoke_chain_effect token_repo_revoke_all_effect)

end
