(* ===== verification/User_Store.thy ===== *)
theory User_Store
  imports Repositories
begin

section \<open>The user repository meets its contracts\<close>

text \<open>
  The laws of \<open>user_lookup\<close> and \<open>user_store\<close> for the user repository over the
  tables: what each method returns and does, in terms of the abstract list of users.
\<close>

lemmas user_repo_defs = as_user_repo_def as_auth_user_repo_def user_repo_create_def
  user_repo_get_by_id_def user_repo_get_by_email_def user_repo_list_def user_repo_update_def
  user_repo_delete_def q_create_user_def q_get_user_by_id_def q_get_user_by_email_def
  q_list_users_def q_update_user_def q_delete_user_def

lemma user_repo_steps:
  "user_repo_create r c w = (x, w') \<Longrightarrow> world_step w w' \<and> (world_ok w \<longrightarrow> world_ok w')"
  "user_repo_get_by_id r i w = (x, w') \<Longrightarrow> world_step w w' \<and> (world_ok w \<longrightarrow> world_ok w')"
  "user_repo_get_by_email r e w = (x, w') \<Longrightarrow> world_step w w' \<and> (world_ok w \<longrightarrow> world_ok w')"
  "user_repo_list r l w = (y, w') \<Longrightarrow> world_step w w' \<and> (world_ok w \<longrightarrow> world_ok w')"
  "user_repo_update r i p w = (x, w') \<Longrightarrow> world_step w w' \<and> (world_ok w \<longrightarrow> world_ok w')"
  "user_repo_delete r i w = (z, w') \<Longrightarrow> world_step w w' \<and> (world_ok w \<longrightarrow> world_ok w')"
  by (auto simp: user_repo_defs world_ok_def Let_def split: prod.splits sum.splits
      dest: run_stmt_world run_stmt_keeps [where I = db_ok]
      intro: statements_keep_integrity)

subsection \<open>Reads\<close>

lemma user_repo_read_effect:
  "user_repo_get_by_id r i w = (x, w') \<Longrightarrow> db w' = db w"
  "user_repo_get_by_email r e w = (x, w') \<Longrightarrow> db w' = db w"
  "user_repo_list r l w = (y, w') \<Longrightarrow> db w' = db w"
  by (auto simp: user_repo_defs table_simps Let_def split: prod.splits sum.splits
      elim!: run_stmt_ends)

lemma user_repo_get_by_id_result:
  assumes "user_repo_get_by_id r i w = (x, w')"
  shows "x = Inr u \<Longrightarrow> u \<in> set (world_users w) \<and> u_id u = i"
    and "x = Inl e \<Longrightarrow> errors_is e Err_No_Rows \<Longrightarrow> \<forall>u\<in>set (world_users w). u_id u \<noteq> i"
proof -
  obtain y where run: "run_stmt (urep_q r) (sql_get_user_by_id i) w = (y, w')"
    and x: "x = map_sum id user_to_model y"
    using assms by (auto simp: user_repo_defs split: prod.splits sum.splits)
  from run show "x = Inr u \<Longrightarrow> u \<in> set (world_users w) \<and> u_id u = i"
    by (cases rule: run_stmt_ends)
      (auto simp: x world_users_def sql_get_user_by_id_def split: option.splits dest!: find_SomeD)
  from run show "x = Inl e \<Longrightarrow> errors_is e Err_No_Rows \<Longrightarrow> \<forall>u\<in>set (world_users w). u_id u \<noteq> i"
    by (cases rule: run_stmt_ends)
      (auto simp: x world_users_def sql_get_user_by_id_def plain_error_def find_None_iff
        split: option.splits)
qed

lemma user_repo_get_by_email_result:
  assumes "user_repo_get_by_email r a w = (x, w')"
  shows "x = Inr u \<Longrightarrow> u \<in> set (world_users w) \<and> u_email u = a"
    and "x = Inl e \<Longrightarrow> errors_is e Err_No_Rows \<Longrightarrow> \<forall>u\<in>set (world_users w). u_email u \<noteq> a"
proof -
  obtain y where run: "run_stmt (urep_q r) (sql_get_user_by_email a) w = (y, w')"
    and x: "x = map_sum id user_to_model y"
    using assms by (auto simp: user_repo_defs split: prod.splits sum.splits)
  from run show "x = Inr u \<Longrightarrow> u \<in> set (world_users w) \<and> u_email u = a"
    by (cases rule: run_stmt_ends)
      (auto simp: x world_users_def sql_get_user_by_email_def split: option.splits dest!: find_SomeD)
  from run show "x = Inl e \<Longrightarrow> errors_is e Err_No_Rows \<Longrightarrow> \<forall>u\<in>set (world_users w). u_email u \<noteq> a"
    by (cases rule: run_stmt_ends)
      (auto simp: x world_users_def sql_get_user_by_email_def plain_error_def find_None_iff
        split: option.splits)
qed

text \<open>The page a statement returns is the page of the abstract list.\<close>

lemma sort_key_user_rows: "sort_key user_key (map user_to_model rs) = map user_to_model (sort_key row_key rs)"
proof (induction rs)
  case (Cons r rs)
  have "insort_key user_key (user_to_model r) (map user_to_model ys) =
      map user_to_model (insort_key row_key r ys)" for ys
    by (induction ys) (simp_all add: user_key_def row_key_def)
  with Cons show ?case by simp
qed simp

lemma user_repo_list_result:
  assumes "user_repo_list r inp w = (Inr us, w')"
    and "0 \<le> sint (lui_limit inp)"
    and "\<And>k. lui_cursor inp = Some k \<Longrightarrow> ts_store w (pc_created_at k) = pc_created_at k"
  shows "us = user_page (nat (sint (lui_limit inp))) (lui_cursor inp) (world_users w)"
proof -
  define arg where "arg = list_params inp"
  let ?c = "lup_cursor_created_at arg"
  define arg' where "arg' = arg\<lparr>lup_cursor_created_at := ?c\<lparr>nt_time := ts_store w (nt_time ?c)\<rparr>\<rparr>"
  obtain rows where run: "run_stmt (urep_q r) (sql_list_users arg') w = (Inr rows, w')"
    and us: "us = map user_to_model rows"
    using assms(1) by (auto simp: user_repo_defs arg_def arg'_def Let_def split: prod.splits sum.splits)
  have max: "lup_max_rows arg' = lui_limit inp"
    by (simp add: arg'_def arg_def list_params_def split: option.split)
  have cut: "before_cursor arg' v = after_cursor (lui_cursor inp) (user_to_model v)" for v
    using assms(3)
    by (auto simp: before_cursor_def after_cursor_def arg'_def arg_def list_params_def row_key_def
        user_key_def cursor_key_def null_time_zero_def split: option.splits)
  have rows: "rows = take (nat (sint (lui_limit inp)))
      (rev (sort_key row_key (filter (before_cursor arg') (users_tbl (db w)))))"
    using run
  proof (cases rule: run_stmt_ends)
    case (answered now new)
    then show ?thesis using assms(2) by (simp add: sql_list_users_def max)
  next
    case failed
    then show ?thesis by simp
  qed
  have "filter (after_cursor (lui_cursor inp)) (map user_to_model rs) =
      map user_to_model (filter (before_cursor arg') rs)" for rs
    by (induction rs) (simp_all add: cut)
  then show ?thesis
    unfolding us rows user_page_def ordered_users_def world_users_def
    by (simp add: sort_key_user_rows rev_map take_map)
qed

subsection \<open>Writes\<close>

lemma user_repo_create_effect:
  assumes "user_repo_create r c w = (x, w')"
  shows "(\<exists>u. (x = Inr u \<or> (\<exists>e. x = Inl e \<and> plain_error e)) \<and> world_users w' = world_users w @ [u]
            \<and> u_email u = uc_email c \<and> u_password_hash u = uc_password_hash c \<and> u_name u = uc_name c
            \<and> (\<forall>v\<in>set (world_users w). u_id v \<noteq> u_id u \<and> u_email v \<noteq> u_email u))
         \<or> (\<exists>e. x = Inl e) \<and> db w' = db w"
proof -
  let ?arg = "\<lparr>cup_email = uc_email c, cup_password_hash = uc_password_hash c, cup_name = uc_name c\<rparr>"
  obtain y where run: "run_stmt (urep_q r) (sql_create_user ?arg) w = (y, w')"
    and x: "x = map_sum id user_to_model y"
    using assms by (auto simp: user_repo_defs split: prod.splits sum.splits)
  from run show ?thesis
  proof (cases rule: run_stmt_ends)
    case (answered now new)
    then show ?thesis
      by (cases rule: create_user_cases [of new ?arg "db w" now])
        (use x in \<open>auto simp: world_users_def\<close>)
  next
    case (failed e now new)
    then show ?thesis
      by (cases rule: create_user_cases [of new ?arg "db w" now])
        (use x in \<open>auto simp: world_users_def\<close>)
  qed
qed

lemma patch_user_row:
  "user_to_model (u\<lparr>ur_email := coalesce (to_null_string (uu_email p)) (ur_email u),
      ur_password_hash := coalesce (to_null_string (uu_password_hash p)) (ur_password_hash u),
      ur_name := coalesce (to_null_string (uu_name p)) (ur_name u), ur_updated_at := now\<rparr>)
   = patch_user p now (user_to_model u)"
  by (simp add: user_to_model_def patch_user_def coalesce_def to_null_string_def split: option.split)

lemma user_repo_update_effect:
  assumes "user_repo_update r i p w = (x, w')"
  obtains (patched) now v where "v \<in> set (world_users w)" "u_id v = i"
      "x = Inr (patch_user p now v) \<or> (\<exists>e. x = Inl e \<and> plain_error e)"
      "world_users w' = map (\<lambda>z. if u_id z = i then patch_user p now v else z) (world_users w)"
      "world_tokens w' = world_tokens w"
  | (missing) "x = Inl Err_No_Rows" "\<forall>u\<in>set (world_users w). u_id u \<noteq> i" "db w' = db w"
  | (taken) u v where "x = Inl unique_violation" "u \<in> set (world_users w)" "u_id u = i"
      "v \<in> set (world_users w)" "u_id v \<noteq> i"
      "u_email v = (case uu_email p of None \<Rightarrow> u_email u | Some a \<Rightarrow> a)" "db w' = db w"
  | (failed) e where "x = Inl e" "plain_error e" "db w' = db w"
proof -
  let ?arg = "\<lparr>uup_email = to_null_string (uu_email p),
      uup_password_hash = to_null_string (uu_password_hash p),
      uup_name = to_null_string (uu_name p), uup_id = i\<rparr>"
  obtain y where run: "run_stmt (urep_q r) (sql_update_user ?arg) w = (y, w')"
    and x: "x = map_sum id user_to_model y"
    using assms by (auto simp: user_repo_defs split: prod.splits sum.splits)
  have made: thesis
    if "u \<in> set (users_tbl (db w))" "ur_id u = i" "u' = u\<lparr>
        ur_email := coalesce (to_null_string (uu_email p)) (ur_email u),
        ur_password_hash := coalesce (to_null_string (uu_password_hash p)) (ur_password_hash u),
        ur_name := coalesce (to_null_string (uu_name p)) (ur_name u), ur_updated_at := now\<rparr>"
      "db w' = (db w)\<lparr>users_tbl := map (\<lambda>v. if ur_id v = i then u' else v) (users_tbl (db w))\<rparr>"
      "x = Inr (user_to_model u') \<or> (\<exists>e. x = Inl e \<and> plain_error e)" for u u' now
  proof (rule patched [of "user_to_model u" now])
    have u': "user_to_model u' = patch_user p now (user_to_model u)"
      using that(3) patch_user_row by simp
    show "x = Inr (patch_user p now (user_to_model u)) \<or> (\<exists>e. x = Inl e \<and> plain_error e)"
      using that(5) u' by simp
    show "world_users w' = map (\<lambda>z. if u_id z = i then patch_user p now (user_to_model u) else z)
        (world_users w)"
      using that(4) u' by (simp add: world_users_def)
  qed (use that(1,2,4) in \<open>simp_all add: world_users_def world_tokens_def\<close>)
  from run show ?thesis
  proof (cases rule: run_stmt_ends)
    case (answered now new)
    show ?thesis
    proof (cases rule: update_user_cases [of "db w" ?arg now new])
      case missing
      with answered x show ?thesis by (intro that(2)) (auto simp: world_users_def)
    next
      case (taken u v)
      with answered x show ?thesis
        by (intro that(3) [of "user_to_model u" "user_to_model v"])
          (auto simp: world_users_def coalesce_def to_null_string_def split: option.splits)
    next
      case m: (made u u')
      show ?thesis using m answered x by (intro made [of u u' now]) simp_all
    qed
  next
    case (failed e now new)
    show ?thesis
    proof (cases "db w' = db w")
      case True
      with failed x show ?thesis by (intro that(4)) auto
    next
      case False
      with failed have d: "db w' = snd (sql_update_user ?arg now new (db w))" by simp
      show ?thesis
      proof (cases rule: update_user_cases [of "db w" ?arg now new])
        case m: (made u u')
        show ?thesis using m failed x d by (intro made [of u u' now]) auto
      qed (use d False in simp_all)
    qed
  qed
qed

lemma user_repo_delete_effect:
  assumes "user_repo_delete r i w = (x, w')"
  shows "x = None \<Longrightarrow> world_users w' = filter (\<lambda>u. u_id u \<noteq> i) (world_users w)"
    and "db w' = db w \<or> db w' = (db w)\<lparr>
      users_tbl := filter (\<lambda>u. ur_id u \<noteq> i) (users_tbl (db w)),
      tokens_tbl := filter (\<lambda>t. tr_user_id t \<noteq> i) (tokens_tbl (db w))\<rparr>"
proof -
  let ?E = "\<lambda>d d'. users_tbl d' = filter (\<lambda>u. ur_id u \<noteq> i) (users_tbl d) \<and> (d' = d \<or>
      d' = d\<lparr>users_tbl := filter (\<lambda>u. ur_id u \<noteq> i) (users_tbl d),
            tokens_tbl := filter (\<lambda>t. tr_user_id t \<noteq> i) (tokens_tbl d)\<rparr>)"
  have E: "?E (db w) (snd (sql_delete_user i now new (db w)))" for now new
  proof (cases "list_ex (\<lambda>u. ur_id u = i) (users_tbl (db w))")
    case True
    then show ?thesis by (simp add: sql_delete_user_def)
  next
    case False
    then have "filter (\<lambda>u. ur_id u \<noteq> i) (users_tbl (db w)) = users_tbl (db w)"
      by (auto simp: filter_id_conv list_ex_iff)
    with False show ?thesis by (simp add: sql_delete_user_def)
  qed
  note effect = exec_effect [OF assms [unfolded user_repo_delete_def q_delete_user_def],
      where E = ?E, OF E]
  show "x = None \<Longrightarrow> world_users w' = filter (\<lambda>u. u_id u \<noteq> i) (world_users w)"
    using effect(1) by (auto simp: world_users_def filter_map o_def)
  show "db w' = db w \<or> db w' = (db w)\<lparr>
      users_tbl := filter (\<lambda>u. ur_id u \<noteq> i) (users_tbl (db w)),
      tokens_tbl := filter (\<lambda>t. tr_user_id t \<noteq> i) (tokens_tbl (db w))\<rparr>"
    using effect(2) by auto
qed

subsection \<open>The contracts hold\<close>

interpretation lookup: user_lookup "as_auth_user_repo r" world_users for r :: user_repository
proof (unfold_locales, goal_cases)
  case (3 e w x w')
  then have "user_repo_get_by_email r e w = (x, w')" by (simp add: as_auth_user_repo_def)
  then show ?case
    using user_repo_steps(3) user_repo_read_effect(2)
    by (simp add: world_step_def world_users_def)
qed (auto simp: as_auth_user_repo_def dest: user_repo_get_by_email_result)

lemma plain_not_unique: "plain_error e \<Longrightarrow> errors_as_pg e = Some ''23505'' \<Longrightarrow> False"
  by (simp add: plain_error_def)

interpretation users: user_store "as_user_repo r" world_users world_ok ts_store
  for r :: user_repository
proof (unfold_locales, goal_cases)
  case (2 w)
  then show ?case by (simp add: world_ok_def db_ok_def view_keys)
next
  case (3 w)
  then show ?case by (simp add: world_ok_def db_ok_def view_keys)
next
  case (4 c w u w')
  then show ?case
    using user_repo_create_effect [of r c w "Inr u" w'] by (auto simp: as_user_repo_def)
next
  case (5 c w e w')
  then show ?case
    using user_repo_create_effect [of r c w "Inl e" w']
    by (auto simp: as_user_repo_def dest: plain_not_unique intro: view_cong(1))
next
  case (6 c w u w')
  then show ?case
    using user_repo_create_effect [of r c w "Inr u" w'] by (auto simp: as_user_repo_def)
next
  case (16 i p w u w')
  then have "user_repo_update r i p w = (Inr u, w')" by (simp add: as_user_repo_def)
  then show ?case by (cases rule: user_repo_update_effect) auto
next
  case (17 i p w e w')
  then have "user_repo_update r i p w = (Inl e, w')" by (simp add: as_user_repo_def)
  then show ?case
    using 17 by (cases rule: user_repo_update_effect)
      (auto simp: plain_error_def unique_violation_def intro: view_cong(1))
next
  case (18 i p w e w')
  then have "user_repo_update r i p w = (Inl e, w')" by (simp add: as_user_repo_def)
  then show ?case
  proof (cases rule: user_repo_update_effect)
    case (taken u v)
    from taken(2-5) have "u \<noteq> v" by auto
    with taken 18(2) have "u_email v \<noteq> u_email u"
      by (auto simp: world_ok_def db_ok_def simp flip: view_keys dest: distinct_map_inj)
    with taken show ?thesis by (auto intro: view_cong(1) split: option.splits)
  qed (use 18 in \<open>auto dest: plain_not_unique\<close>)
qed (auto simp: as_user_repo_def intro: view_same(1) dest: user_repo_steps user_repo_read_effect
    user_repo_get_by_id_result user_repo_get_by_email_result user_repo_list_result
    user_repo_delete_effect)

end
