(* ===== verification/Access_Token.thy ===== *)
theory Access_Token
  imports Runtime
begin

section \<open>Access tokens (internal/auth/jwt.go)\<close>

text \<open>
  \<open>Signer.Sign\<close> and \<open>Verifier.Verify\<close>. The JWT library (\<open>golang-jwt/jwt/v5\<close>) and
  \<open>UUID.String\<close> are not part of the repository: they are the parameter record
  \<open>jwt_lib\<close>, and \<open>jwt_documented\<close> states the documented behaviour the code relies on
  (a token signed with HS256 parses back to its claims under the same key while it is valid,
  and the parse error of a token past its \<open>exp\<close> is \<open>jwt.ErrTokenExpired\<close>).
\<close>

record claims =
  c_user_id :: uuid
  c_chain_id :: uuid
  c_subject :: string
  c_issuer :: string
  c_issued_at :: instant
  c_expires_at :: instant
  c_not_before :: instant

record signer =
  sg_secret :: string
  sg_issuer :: string
  sg_access_ttl :: duration

record verifier =
  vf_secret :: string
  vf_issuer :: string

datatype signing_method = Method_HMAC string | Method_Other string

record parser_options =
  po_issuer :: string
  po_valid_methods :: "string list"

record jwt_lib =
  jl_numeric_date :: "instant \<Rightarrow> instant" \<comment> \<open>jwt.NewNumericDate\<close>
  jl_uuid_string :: "uuid \<Rightarrow> string" \<comment> \<open>UUID.String\<close>
  jl_signed_string :: "signing_method \<Rightarrow> claims \<Rightarrow> string \<Rightarrow> go_error + string"
    \<comment> \<open>NewWithClaims(method, claims).SignedString(secret)\<close>
  jl_parse :: "parser_options \<Rightarrow> (signing_method \<Rightarrow> go_error + string) \<Rightarrow> instant \<Rightarrow> string
      \<Rightarrow> go_error + claims" \<comment> \<open>NewParser(options).ParseWithClaims(token, keyfunc), at a time\<close>

definition new_signer :: "string \<Rightarrow> string \<Rightarrow> duration \<Rightarrow> signer" where
  "new_signer secret issuer access_ttl =
     \<lparr>sg_secret = secret, sg_issuer = issuer, sg_access_ttl = access_ttl\<rparr>"

definition new_verifier :: "string \<Rightarrow> string \<Rightarrow> verifier" where
  "new_verifier secret issuer = \<lparr>vf_secret = secret, vf_issuer = issuer\<rparr>"

definition signing_method_hs256 :: signing_method where
  "signing_method_hs256 = Method_HMAC ''HS256''"

definition sign_claims :: "jwt_lib \<Rightarrow> signer \<Rightarrow> uuid \<Rightarrow> uuid \<Rightarrow> instant \<Rightarrow> claims" where
  "sign_claims J s user_id chain_id now =
     \<lparr>c_user_id = user_id, c_chain_id = chain_id, c_subject = jl_uuid_string J user_id,
      c_issuer = sg_issuer s, c_issued_at = jl_numeric_date J now,
      c_expires_at = jl_numeric_date J (now + sg_access_ttl s),
      c_not_before = jl_numeric_date J now\<rparr>"

definition signer_sign ::
    "jwt_lib \<Rightarrow> signer \<Rightarrow> uuid \<Rightarrow> uuid \<Rightarrow> 'd env_scheme \<Rightarrow> (go_error + string) \<times> 'd env_scheme" where
  "signer_sign J s user_id chain_id w =
     (case time_now w of
        (now, w1) \<Rightarrow>
          (case jl_signed_string J signing_method_hs256 (sign_claims J s user_id chain_id now)
                  (sg_secret s) of
             Inl err \<Rightarrow> (Inl (Wrapf ''auth: sign access token'' err), w1)
           | Inr tok \<Rightarrow> (Inr tok, w1)))"

definition verify_options :: "verifier \<Rightarrow> parser_options" where
  "verify_options v = \<lparr>po_issuer = vf_issuer v, po_valid_methods = [''HS256'']\<rparr>"

definition verify_key :: "verifier \<Rightarrow> signing_method \<Rightarrow> go_error + string" where
  "verify_key v m =
     (case m of Method_HMAC alg \<Rightarrow> Inr (vf_secret v)
      | Method_Other alg \<Rightarrow> Inl (New_Error ''unexpected signing method''))"

definition verifier_verify ::
    "jwt_lib \<Rightarrow> verifier \<Rightarrow> string \<Rightarrow> 'd env_scheme \<Rightarrow> (go_error + claims) \<times> 'd env_scheme" where
  "verifier_verify J v token w =
     (case time_now w of
        (now, w1) \<Rightarrow>
          (case jl_parse J (verify_options v) (verify_key v) now token of
             Inl err \<Rightarrow> if errors_is err Jwt_Token_Expired then (Inl Err_Token_Expired, w1)
                        else (Inl Err_Token_Invalid, w1)
           | Inr c \<Rightarrow> (Inr c, w1)))"

subsection \<open>The documented behaviour of the library\<close>

definition dates_numeric :: "jwt_lib \<Rightarrow> claims \<Rightarrow> bool" where
  "dates_numeric J c \<longleftrightarrow> jl_numeric_date J (c_issued_at c) = c_issued_at c
     \<and> jl_numeric_date J (c_expires_at c) = c_expires_at c
     \<and> jl_numeric_date J (c_not_before c) = c_not_before c"

text \<open>
  Dates are cut to whole seconds. A token made with HS256 and a secret, parsed under options
  that allow HS256 and a key function that gives the same secret, gives the claims back when
  the issuer is the expected one (the library checks none when it is given the empty string)
  and the time is within \<open>nbf \<le> now < exp\<close>; otherwise an
  error, which is \<open>ErrTokenExpired\<close> exactly when the time is not before \<open>exp\<close>. The issuer
  is taken to be valid UTF-8 (the JSON of a token would carry another one, repaired, and the
  comparison would fail); it comes from \<open>JWT_ISSUER\<close>, \<open>gostartv2\<close> by default.
\<close>

definition jwt_documented :: "jwt_lib \<Rightarrow> bool" where
  "jwt_documented J \<longleftrightarrow>
     (\<forall>t. jl_numeric_date J t \<le> t \<and> t < jl_numeric_date J t + second
        \<and> jl_numeric_date J (jl_numeric_date J t) = jl_numeric_date J t) \<and>
     (\<forall>secret c token. dates_numeric J c \<longrightarrow>
        jl_signed_string J signing_method_hs256 c secret = Inr token \<longrightarrow>
        (\<forall>opts key now. key signing_method_hs256 = Inr secret \<longrightarrow>
           ''HS256'' \<in> set (po_valid_methods opts) \<longrightarrow>
           (if po_issuer opts \<in> {[], c_issuer c} \<and> c_not_before c \<le> now \<and> now < c_expires_at c
            then jl_parse J opts key now token = Inr c
            else \<exists>e. jl_parse J opts key now token = Inl e
                   \<and> (errors_is e Jwt_Token_Expired \<longleftrightarrow> c_expires_at c \<le> now))))"

lemma dates_numeric_sign: "jwt_documented J \<Longrightarrow> dates_numeric J (sign_claims J s u c now)"
  by (simp add: jwt_documented_def dates_numeric_def sign_claims_def)

lemma jwt_parse_signed:
  assumes "jwt_documented J" and "dates_numeric J c"
    and "jl_signed_string J signing_method_hs256 c secret = Inr token"
    and "key signing_method_hs256 = Inr secret" and "''HS256'' \<in> set (po_valid_methods opts)"
  shows "if po_issuer opts \<in> {[], c_issuer c} \<and> c_not_before c \<le> now \<and> now < c_expires_at c
     then jl_parse J opts key now token = Inr c
     else \<exists>e. jl_parse J opts key now token = Inl e
            \<and> (errors_is e Jwt_Token_Expired \<longleftrightarrow> c_expires_at c \<le> now)"
  using assms unfolding jwt_documented_def by blast

subsection \<open>What signing and verifying do to the state, and together\<close>

lemma signer_sign_state: "signer_sign J s u c w = (r, w') \<Longrightarrow> w' = next_tick w"
  by (auto simp: signer_sign_def time_now_def split: sum.splits)

lemma verifier_verify_state: "verifier_verify J v t w = (r, w') \<Longrightarrow> w' = next_tick w"
  by (auto simp: verifier_verify_def time_now_def split: sum.splits if_splits)

lemma verifier_verify_errors:
  "verifier_verify J v t w = (Inl e, w') \<Longrightarrow> e = Err_Token_Expired \<or> e = Err_Token_Invalid"
  by (auto simp: verifier_verify_def time_now_def split: sum.splits if_splits)

lemma verify_signed:
  assumes J: "jwt_documented J"
    and sign: "signer_sign J (new_signer secret issuer ttl) u c w0 = (Inr token, w1)"
  shows "fst (verifier_verify J (new_verifier secret issuer) token w) =
    (let cl = sign_claims J (new_signer secret issuer ttl) u c (clock_at w0 (tick w0));
         now = clock_at w (tick w)
     in if c_not_before cl \<le> now \<and> now < c_expires_at cl then Inr cl
        else if c_expires_at cl \<le> now then Inl Err_Token_Expired else Inl Err_Token_Invalid)"
proof -
  let ?cl = "sign_claims J (new_signer secret issuer ttl) u c (clock_at w0 (tick w0))"
  have tok: "jl_signed_string J signing_method_hs256 ?cl secret = Inr token"
    using sign by (auto simp: signer_sign_def time_now_def new_signer_def split: sum.splits)
  note parse = jwt_parse_signed [OF J dates_numeric_sign [OF J] tok,
      of "verify_key (new_verifier secret issuer)" "verify_options (new_verifier secret issuer)"]
  have "c_issuer ?cl = issuer" by (simp add: sign_claims_def new_signer_def)
  then show ?thesis
    using parse [of "clock_at w (tick w)"]
    by (auto simp: verifier_verify_def time_now_def verify_options_def verify_key_def
        new_verifier_def signing_method_hs256_def Let_def split: if_splits)
qed

end
