(* ===== verification/Encoding.thy ===== *)
theory Encoding
  imports Prelude
begin

section \<open>Byte strings: hexadecimal and unpadded URL-safe base64\<close>

text \<open>
  The two encodings \<open>internal/auth/random.go\<close> uses: \<open>hex.EncodeToString\<close> for the
  stored digest and \<open>base64.RawURLEncoding.EncodeToString\<close> for the token in the cookie,
  over the bytes of a Go string. The lemmas: both are injective, their lengths, their
  alphabets.
\<close>

definition bytes_of :: "string \<Rightarrow> byte list" where
  "bytes_of s = map of_char s"

subsection \<open>Hexadecimal\<close>

definition hex_alphabet :: string where
  "hex_alphabet = ''0123456789abcdef''"

definition hex_byte :: "byte \<Rightarrow> string" where
  "hex_byte b = [hex_alphabet ! (unat b div 16), hex_alphabet ! (unat b mod 16)]"

definition hex_encode :: "byte list \<Rightarrow> string" where
  "hex_encode bs = concat (map hex_byte bs)"

lemma hex_alphabet_length [simp]: "length hex_alphabet = 16"
  by (simp add: hex_alphabet_def)

lemma hex_alphabet_distinct: "distinct hex_alphabet"
  by (simp add: hex_alphabet_def)

lemma hex_digit_eq [simp]:
  "i < 16 \<Longrightarrow> j < 16 \<Longrightarrow> hex_alphabet ! i = hex_alphabet ! j \<longleftrightarrow> i = j"
  by (simp add: nth_eq_iff_index_eq [OF hex_alphabet_distinct])

lemma unat_byte_lt: "unat (b :: byte) < 256"
proof -
  have "unat b < 2 ^ LENGTH(8)" by (rule unsigned_less)
  then show ?thesis by simp
qed

lemma byte_eq_by_parts:
  assumes "unat (a :: byte) div m = unat b div m" and "unat a mod m = unat b mod m"
  shows "a = b"
proof -
  have "unat a = unat b"
    using assms by (metis div_mult_mod_eq)
  then show ?thesis by (simp add: word_unat_eq_iff)
qed

lemma hex_nibbles: "unat (b :: byte) div 16 < 16" "unat (b :: byte) mod 16 < 16"
  using unat_byte_lt [of b] by (simp_all add: div_less_iff_less_mult)

lemma hex_byte_inj: "hex_byte a = hex_byte b \<longleftrightarrow> a = b"
  by (auto simp: hex_byte_def hex_nibbles dest: byte_eq_by_parts)

lemma hex_encode_Cons [simp]: "hex_encode (b # bs) = hex_byte b @ hex_encode bs"
  by (simp add: hex_encode_def)

lemma hex_encode_Nil [simp]: "hex_encode [] = []"
  by (simp add: hex_encode_def)

lemma length_hex_encode [simp]: "length (hex_encode bs) = 2 * length bs"
  by (induction bs) (simp_all add: hex_byte_def)

lemma set_hex_encode: "set (hex_encode bs) \<subseteq> set hex_alphabet"
  by (induction bs) (simp_all add: hex_byte_def hex_nibbles)

lemma hex_encode_inj: "hex_encode as = hex_encode bs \<longleftrightarrow> as = bs"
proof (induction as arbitrary: bs)
  case Nil
  then show ?case by (cases bs) (simp_all add: hex_byte_def)
next
  case (Cons a as)
  show ?case
  proof (cases bs)
    case Nil
    then show ?thesis by (simp add: hex_byte_def)
  next
    case (Cons b bs')
    have "length (hex_byte a) = length (hex_byte b)" by (simp add: hex_byte_def)
    then show ?thesis using Cons Cons.IH by (simp add: hex_byte_inj)
  qed
qed

subsection \<open>Base64, URL alphabet, no padding\<close>

definition b64_alphabet :: string where
  "b64_alphabet = ''ABCDEFGHIJKLMNOPQRSTUVWXYZabcdefghijklmnopqrstuvwxyz0123456789-_''"

definition b64 :: "nat \<Rightarrow> char" where
  "b64 i = b64_alphabet ! i"

fun b64url_encode :: "byte list \<Rightarrow> string" where
  "b64url_encode (a # b # c # bs) =
     b64 (unat a div 4) # b64 (unat a mod 4 * 16 + unat b div 16)
       # b64 (unat b mod 16 * 4 + unat c div 64) # b64 (unat c mod 64) # b64url_encode bs"
| "b64url_encode [a, b] =
     [b64 (unat a div 4), b64 (unat a mod 4 * 16 + unat b div 16), b64 (unat b mod 16 * 4)]"
| "b64url_encode [a] = [b64 (unat a div 4), b64 (unat a mod 4 * 16)]"
| "b64url_encode [] = []"

lemma b64_alphabet_length [simp]: "length b64_alphabet = 64"
  by (simp add: b64_alphabet_def)

lemma b64_alphabet_distinct: "distinct b64_alphabet"
  by (simp add: b64_alphabet_def)

lemma b64_eq [simp]: "i < 64 \<Longrightarrow> j < 64 \<Longrightarrow> b64 i = b64 j \<longleftrightarrow> i = j"
  by (simp add: b64_def nth_eq_iff_index_eq [OF b64_alphabet_distinct])

lemma b64_in: "i < 64 \<Longrightarrow> b64 i \<in> set b64_alphabet"
  by (simp add: b64_def)

lemma sextets:
  "unat (a :: byte) div 4 < 64" "unat a mod 4 * 16 < 64" "unat a mod 16 * 4 < 64"
  "unat a mod 4 * 16 + unat (b :: byte) div 16 < 64"
  "unat a mod 16 * 4 + unat b div 64 < 64" "unat a mod 64 < 64"
  using unat_byte_lt [of a] unat_byte_lt [of b] by linarith+

lemma nat_split_eq:
  assumes "(i::nat) * m + r = j * m + s" and "r < m" and "s < m"
  shows "i = j \<and> r = s"
proof -
  have "i = (i * m + r) div m" and "j = (j * m + s) div m" using assms(2,3) by simp_all
  with assms(1) have "i = j" by simp
  with assms(1) show ?thesis by simp
qed

lemma sextet_split:
  "unat (a :: byte) mod 4 * 16 + unat (b :: byte) div 16 = unat a' mod 4 * 16 + unat b' div 16
     \<Longrightarrow> unat (a' :: byte) mod 4 = unat a mod 4 \<and> unat (b' :: byte) div 16 = unat b div 16"
  "unat (b :: byte) mod 16 * 4 + unat (c :: byte) div 64 = unat b' mod 16 * 4 + unat c' div 64
     \<Longrightarrow> unat (b' :: byte) mod 16 = unat b mod 16 \<and> unat (c' :: byte) div 64 = unat c div 64"
  using nat_split_eq [of "unat a mod 4" 16 "unat b div 16" "unat a' mod 4" "unat b' div 16"]
    nat_split_eq [of "unat b mod 16" 4 "unat c div 64" "unat b' mod 16" "unat c' div 64"]
    hex_nibbles(1) [of b] hex_nibbles(1) [of b'] unat_byte_lt [of c] unat_byte_lt [of c']
  by (simp_all add: div_less_iff_less_mult)

lemma length_b64url_encode: "length (b64url_encode bs) = (4 * length bs + 2) div 3"
  by (induction bs rule: b64url_encode.induct) simp_all

lemma set_b64url_encode: "set (b64url_encode bs) \<subseteq> set b64_alphabet"
  by (induction bs rule: b64url_encode.induct) (simp_all add: b64_in sextets)

lemma b64url_encode_inj_length:
  "length as = length bs \<Longrightarrow> b64url_encode as = b64url_encode bs \<Longrightarrow> as = bs"
proof (induction as arbitrary: bs rule: b64url_encode.induct)
  case (1 a b c as)
  then obtain a' b' c' bs' where bs: "bs = a' # b' # c' # bs'"
    by (metis length_Suc_conv)
  have parts: "unat a div 4 = unat a' div 4" "unat a mod 4 = unat a' mod 4"
      "unat b div 16 = unat b' div 16" "unat b mod 16 = unat b' mod 16"
      "unat c div 64 = unat c' div 64" "unat c mod 64 = unat c' mod 64"
    using 1(3) unfolding bs by (auto simp: sextets dest!: sextet_split)
  have "a = a'" "b = b'" "c = c'"
    by (rule byte_eq_by_parts [OF parts(1,2)] byte_eq_by_parts [OF parts(3,4)]
        byte_eq_by_parts [OF parts(5,6)])+
  with 1 bs show ?case by simp
next
  case (2 a b)
  from 2(1) obtain a' b' where bs: "bs = [a', b']"
    by (cases bs rule: b64url_encode.cases) auto
  have parts: "unat a div 4 = unat a' div 4" "unat a mod 4 = unat a' mod 4"
      "unat b div 16 = unat b' div 16" "unat b mod 16 = unat b' mod 16"
    using 2(2) unfolding bs by (auto simp: sextets dest!: sextet_split)
  have "a = a'" "b = b'"
    by (rule byte_eq_by_parts [OF parts(1,2)] byte_eq_by_parts [OF parts(3,4)])+
  with bs show ?case by simp
next
  case (3 a)
  from 3(1) obtain a' where bs: "bs = [a']"
    by (cases bs rule: b64url_encode.cases) auto
  have "unat a div 4 = unat a' div 4" "unat a mod 4 = unat a' mod 4"
    using 3(2) unfolding bs by (auto simp: sextets)
  with bs show ?case by (auto intro: byte_eq_by_parts)
next
  case 4
  then show ?case by simp
qed

lemma encoded_length_less: "n < m \<Longrightarrow> (4 * n + 2) div 3 < (4 * m + 2) div (3 :: nat)"
  by linarith

lemma b64url_encode_inj:
  assumes "b64url_encode as = b64url_encode bs" shows "as = bs"
proof -
  have "(4 * length as + 2) div 3 = (4 * length bs + 2) div 3"
    using assms by (metis length_b64url_encode)
  then have "length as = length bs"
    by (metis encoded_length_less less_irrefl linorder_neqE_nat)
  with assms show ?thesis by (simp add: b64url_encode_inj_length)
qed

end
