(* ===== verification/Sha256.thy ===== *)
theory Sha256
  imports Encoding
begin

unbundle bit_operations_syntax

section \<open>SHA-256\<close>

text \<open>
  \<open>crypto/sha256.Sum256\<close> of the standard library, as FIPS 180-4 defines it, on byte
  lists: padding, the message schedule, 64 rounds per block of 16 big-endian words. The lemma
  the program needs of it in general is the length of the digest; concrete digests are
  evaluated in \<open>Sha256_Vectors\<close>.
\<close>

type_synonym word32 = "32 word"

datatype sha_state = Sha_State word32 word32 word32 word32 word32 word32 word32 word32

text \<open>
  The initial state and the round constants are the first 32 bits of the fractional parts of
  the square roots of the first eight primes and of the cube roots of the first 64;
  \<open>sha_constants_roots\<close> checks the round constants against that definition.
\<close>

definition sha_init :: sha_state where
  "sha_init = Sha_State 1779033703 3144134277 1013904242 2773480762
     1359893119 2600822924 528734635 1541459225"

definition sha_constants :: "word32 list" where
  "sha_constants =
    [1116352408, 1899447441, 3049323471, 3921009573, 961987163, 1508970993, 2453635748,
     2870763221, 3624381080, 310598401, 607225278, 1426881987, 1925078388, 2162078206,
     2614888103, 3248222580, 3835390401, 4022224774, 264347078, 604807628, 770255983, 1249150122,
     1555081692, 1996064986, 2554220882, 2821834349, 2952996808, 3210313671, 3336571891,
     3584528711, 113926993, 338241895, 666307205, 773529912, 1294757372, 1396182291, 1695183700,
     1986661051, 2177026350, 2456956037, 2730485921, 2820302411, 3259730800, 3345764771,
     3516065817, 3600352804, 4094571909, 275423344, 430227734, 506948616, 659060556, 883997877,
     958139571, 1322822218, 1537002063, 1747873779, 1955562222, 2024104815, 2227730452,
     2361852424, 2428436474, 2756734187, 3204031479, 3329325298]"

text \<open>The first 64 primes, each with the whole part of its cube root.\<close>

definition prime_roots :: "(nat \<times> nat) list" where
  "prime_roots =
    [(2, 1), (3, 1), (5, 1), (7, 1), (11, 2), (13, 2), (17, 2), (19, 2), (23, 2),
     (29, 3), (31, 3), (37, 3), (41, 3), (43, 3), (47, 3), (53, 3), (59, 3), (61, 3),
     (67, 4), (71, 4), (73, 4), (79, 4), (83, 4), (89, 4), (97, 4), (101, 4),
     (103, 4), (107, 4), (109, 4), (113, 4), (127, 5), (131, 5), (137, 5), (139, 5),
     (149, 5), (151, 5), (157, 5), (163, 5), (167, 5), (173, 5), (179, 5), (181, 5),
     (191, 5), (193, 5), (197, 5), (199, 5), (211, 5), (223, 6), (227, 6), (229, 6),
     (233, 6), (239, 6), (241, 6), (251, 6), (257, 6), (263, 6), (269, 6), (271, 6),
     (277, 6), (281, 6), (283, 6), (293, 6), (307, 6), (311, 6)]"

definition cube_root_bits :: "nat \<times> nat \<Rightarrow> word32 \<Rightarrow> bool" where
  "cube_root_bits pn c \<longleftrightarrow>
     (let r = snd pn * 2 ^ 32 + unat c
      in r * r * r \<le> fst pn * 2 ^ 96 \<and> fst pn * 2 ^ 96 < (r + 1) * (r + 1) * (r + 1))"

lemma sha_constants_roots: "list_all2 cube_root_bits prime_roots sha_constants"
  unfolding prime_roots_def sha_constants_def
  by (intro list.rel_intros) (simp_all add: cube_root_bits_def Let_def)

definition rotr :: "nat \<Rightarrow> word32 \<Rightarrow> word32" where
  "rotr n x = drop_bit n x OR push_bit (32 - n) x"

definition small_sigma0 :: "word32 \<Rightarrow> word32" where
  "small_sigma0 x = rotr 7 x XOR rotr 18 x XOR drop_bit 3 x"

definition small_sigma1 :: "word32 \<Rightarrow> word32" where
  "small_sigma1 x = rotr 17 x XOR rotr 19 x XOR drop_bit 10 x"

definition big_sigma0 :: "word32 \<Rightarrow> word32" where
  "big_sigma0 x = rotr 2 x XOR rotr 13 x XOR rotr 22 x"

definition big_sigma1 :: "word32 \<Rightarrow> word32" where
  "big_sigma1 x = rotr 6 x XOR rotr 11 x XOR rotr 25 x"

definition sha_ch :: "word32 \<Rightarrow> word32 \<Rightarrow> word32 \<Rightarrow> word32" where
  "sha_ch e f g = (e AND f) XOR (NOT e AND g)"

definition sha_maj :: "word32 \<Rightarrow> word32 \<Rightarrow> word32 \<Rightarrow> word32" where
  "sha_maj a b c = (a AND b) XOR (a AND c) XOR (b AND c)"

text \<open>The schedule, from a window of the last sixteen words, oldest first.\<close>

fun sha_schedule :: "nat \<Rightarrow> word32 list \<Rightarrow> word32 list" where
  "sha_schedule 0 win = win"
| "sha_schedule (Suc n) win =
     hd win # sha_schedule n
       (tl win @ [small_sigma1 (win ! 14) + win ! 9 + small_sigma0 (win ! 1) + win ! 0])"

fun sha_shift :: "word32 \<Rightarrow> word32 \<Rightarrow> sha_state \<Rightarrow> sha_state" where
  "sha_shift t1 t2 (Sha_State a b c d e f g h) = Sha_State (t1 + t2) a b c (d + t1) e f g"

fun sha_round :: "word32 \<Rightarrow> sha_state \<Rightarrow> sha_state" where
  "sha_round kw (Sha_State a b c d e f g h) =
     sha_shift (h + big_sigma1 e + sha_ch e f g + kw) (big_sigma0 a + sha_maj a b c)
       (Sha_State a b c d e f g h)"

fun sha_add :: "sha_state \<Rightarrow> sha_state \<Rightarrow> sha_state" where
  "sha_add (Sha_State a b c d e f g h) (Sha_State a' b' c' d' e' f' g' h') =
     Sha_State (a + a') (b + b') (c + c') (d + d') (e + e') (f + f') (g + g') (h + h')"

definition sha_block :: "sha_state \<Rightarrow> word32 list \<Rightarrow> sha_state" where
  "sha_block st ws = sha_add st (fold sha_round (map2 (+) sha_constants (sha_schedule 48 ws)) st)"

fun sha_blocks :: "sha_state \<Rightarrow> word32 list \<Rightarrow> sha_state" where
  "sha_blocks st ws =
     (if length ws < 16 then st else sha_blocks (sha_block st (take 16 ws)) (drop 16 ws))"

declare sha_blocks.simps [simp del]

definition be_word :: "byte \<Rightarrow> byte \<Rightarrow> byte \<Rightarrow> byte \<Rightarrow> word32" where
  "be_word a b c d = push_bit 24 (ucast a) OR push_bit 16 (ucast b) OR push_bit 8 (ucast c) OR ucast d"

fun be_words :: "byte list \<Rightarrow> word32 list" where
  "be_words (a # b # c # d # bs) = be_word a b c d # be_words bs"
| "be_words _ = []"

definition be_bytes :: "word32 \<Rightarrow> byte list" where
  "be_bytes w = [ucast (drop_bit 24 w), ucast (drop_bit 16 w), ucast (drop_bit 8 w), ucast w]"

definition be_length :: "nat \<Rightarrow> byte list" where
  "be_length n = map (\<lambda>i. ucast (drop_bit i (word_of_nat n :: 64 word))) [56, 48, 40, 32, 24, 16, 8, 0]"

definition sha_pad :: "byte list \<Rightarrow> byte list" where
  "sha_pad m = m @ [0x80] @ replicate ((119 - length m mod 64) mod 64) 0 @ be_length (8 * length m)"

fun sha_output :: "sha_state \<Rightarrow> byte list" where
  "sha_output (Sha_State a b c d e f g h) = concat (map be_bytes [a, b, c, d, e, f, g, h])"

definition sha256 :: "byte list \<Rightarrow> byte list" where
  "sha256 m = sha_output (sha_blocks sha_init (be_words (sha_pad m)))"

lemma length_sha256 [simp]: "length (sha256 m) = 32"
  by (cases "sha_blocks sha_init (be_words (sha_pad m))") (simp add: sha256_def be_bytes_def)

lemma length_sha_pad: "length (sha_pad m) mod 64 = 0"
proof -
  define r where "r = length m mod 64"
  have r: "r < 64" by (simp add: r_def)
  have fill: "(119 - r) mod 64 = (if r < 56 then 55 - r else 119 - r)"
    using r by (auto simp: mod_if)
  have "length (sha_pad m) mod 64 = (length m + (9 + (119 - r) mod 64)) mod 64"
    by (simp add: sha_pad_def be_length_def r_def ac_simps)
  also have "\<dots> = (r + (9 + (119 - r) mod 64)) mod 64"
    unfolding r_def by (rule mod_add_left_eq [symmetric])
  also have "\<dots> = 0"
    unfolding fill using r by (auto simp: mod_if)
  finally show ?thesis .
qed

end
