(* ===== verification/Refresh_Secret.thy ===== *)
theory Refresh_Secret
  imports Runtime Sha256
begin

section \<open>Minting and hashing refresh tokens (internal/auth/random.go)\<close>

text \<open>
  \<open>GenerateRefreshToken\<close> and \<open>HashRefreshToken\<close>, with what the callers rely on: the
  length and alphabet of a token (so that it passes through a cookie unchanged), that
  different random bytes give different tokens, and the shape of the stored digest.
\<close>

definition refresh_token_bytes :: nat where
  "refresh_token_bytes = 32"

definition generate_refresh_token :: "'d env_scheme \<Rightarrow> (go_error + string) \<times> 'd env_scheme" where
  "generate_refresh_token w =
     (case rand_read refresh_token_bytes w of
        (Inl err, w1) \<Rightarrow> (Inl (Wrapf ''auth: read random bytes'' err), w1)
      | (Inr b, w1) \<Rightarrow> (Inr (b64url_encode b), w1))"

definition hash_refresh_token :: "string \<Rightarrow> string" where
  "hash_refresh_token token = hex_encode (sha256 (bytes_of token))"

lemma snd_generate_refresh_token [simp]: "snd (generate_refresh_token w) = next_tick w"
  by (simp add: generate_refresh_token_def rand_read_def split: option.split)

lemma generate_refresh_token_state:
  "generate_refresh_token w = (r, w') \<Longrightarrow> w' = next_tick w"
  using snd_generate_refresh_token [of w] by simp

lemma generate_refresh_token_Inr:
  "generate_refresh_token w = (Inr t, w') \<longleftrightarrow>
     entropy_fault_at w (tick w) = None \<and> w' = next_tick w \<and>
     t = b64url_encode (map (entropy_at w (tick w)) [0..<32])"
  by (auto simp: generate_refresh_token_def rand_read_def refresh_token_bytes_def
      split: option.splits)

lemma length_hash_refresh_token [simp]: "length (hash_refresh_token t) = 64"
  by (simp add: hash_refresh_token_def)

lemma set_hash_refresh_token: "set (hash_refresh_token t) \<subseteq> set ''0123456789abcdef''"
  using set_hex_encode by (simp add: hash_refresh_token_def hex_alphabet_def)

lemma hash_refresh_token_eq_iff:
  "hash_refresh_token s = hash_refresh_token t \<longleftrightarrow> sha256 (bytes_of s) = sha256 (bytes_of t)"
  by (simp add: hash_refresh_token_def hex_encode_inj)

lemma generated_token_length:
  "generate_refresh_token w = (Inr t, w') \<Longrightarrow> length t = 43"
  by (simp add: generate_refresh_token_Inr length_b64url_encode)

lemma generated_token_alphabet:
  "generate_refresh_token w = (Inr t, w') \<Longrightarrow> set t \<subseteq> set b64_alphabet"
  using set_b64url_encode by (simp add: generate_refresh_token_Inr)

lemma generated_token_nonempty: "generate_refresh_token w = (Inr t, w') \<Longrightarrow> t \<noteq> []"
  using generated_token_length by fastforce

end
