(* ===== verification/Auth_Service.thy ===== *)
theory Auth_Service
  imports Repositories User_Store Access_Token Refresh_Secret
begin

section \<open>The authentication service (internal/services/auth\_service.go)\<close>

text \<open>
  \<open>Login\<close>, \<open>Refresh\<close>, \<open>Logout\<close>, \<open>LogoutAll\<close> and the helper
  \<open>issueRefreshAndAccess\<close>, over the repository interfaces the service is given. The
  password library (\<open>golang.org/x/crypto/bcrypt\<close>) is the parameter record
  \<open>bcrypt_lib\<close>.

  The lemmas are proved inside the contract \<open>refresh_store\<close>: for each operation a case
  analysis of everything it can return, with what it did to the tokens in each case, whatever
  fails on the way.
\<close>

record 'w auth_service =
  as_users :: "'w auth_user_repo"
  as_refresh_tokens :: "'w refresh_token_repo"
  as_signer :: signer
  as_refresh_ttl :: duration

definition new_auth_service ::
    "'w auth_user_repo \<Rightarrow> 'w refresh_token_repo \<Rightarrow> signer \<Rightarrow> duration \<Rightarrow> 'w auth_service" where
  "new_auth_service users refresh_tokens sig refresh_ttl =
     \<lparr>as_users = users, as_refresh_tokens = refresh_tokens, as_signer = sig,
      as_refresh_ttl = refresh_ttl\<rparr>"

definition issue_refresh_and_access ::
    "jwt_lib \<Rightarrow> ('d env_scheme) auth_service \<Rightarrow> uuid \<Rightarrow> uuid \<Rightarrow> 'd env_scheme
      \<Rightarrow> (go_error + string \<times> string) \<times> 'd env_scheme" where
  "issue_refresh_and_access J s user_id chain_id w =
     (case generate_refresh_token w of
        (Inl err, w1) \<Rightarrow> (Inl (Wrapf ''generate refresh token'' err), w1)
      | (Inr plaintext, w1) \<Rightarrow>
          (case time_now w1 of
             (now, w2) \<Rightarrow>
               (case rt_create (as_refresh_tokens s)
                       \<lparr>tc_user_id = user_id, tc_token_hash = hash_refresh_token plaintext,
                        tc_chain_id = chain_id, tc_expires_at = now + as_refresh_ttl s\<rparr> w2 of
                  (Inl err, w3) \<Rightarrow> (Inl (Wrapf ''create refresh token'' err), w3)
                | (Inr _, w3) \<Rightarrow>
                    (case signer_sign J (as_signer s) user_id chain_id w3 of
                       (Inl err, w4) \<Rightarrow> (Inl (Wrapf ''sign access token'' err), w4)
                     | (Inr access, w4) \<Rightarrow> (Inr (access, plaintext), w4)))))"

definition auth_login ::
    "jwt_lib \<Rightarrow> bcrypt_lib \<Rightarrow> ('d env_scheme) auth_service \<Rightarrow> string \<Rightarrow> string \<Rightarrow> 'd env_scheme
      \<Rightarrow> (go_error + string \<times> string) \<times> 'd env_scheme" where
  "auth_login J B s email password w =
     (case au_get_by_email (as_users s) email w of
        (Inl err, w1) \<Rightarrow>
          if errors_is err Err_No_Rows then (Inl Err_Invalid_Credentials, w1)
          else (Inl (Wrapf ''get user by email'' err), w1)
      | (Inr usr, w1) \<Rightarrow>
          (case bc_compare B (u_password_hash usr) password of
             Some _ \<Rightarrow> (Inl Err_Invalid_Credentials, w1)
           | None \<Rightarrow>
               (case uuid_new w1 of
                  (chain_id, w2) \<Rightarrow> issue_refresh_and_access J s (u_id usr) chain_id w2)))"

definition auth_refresh ::
    "jwt_lib \<Rightarrow> ('d env_scheme) auth_service \<Rightarrow> string \<Rightarrow> 'd env_scheme
      \<Rightarrow> (go_error + string \<times> string) \<times> 'd env_scheme" where
  "auth_refresh J s presented w =
     (case rt_get_by_hash (as_refresh_tokens s) (hash_refresh_token presented) w of
        (Inl err, w1) \<Rightarrow>
          if errors_is err Err_No_Rows then (Inl Err_Refresh_Token_Revoked, w1)
          else (Inl (Wrapf ''get refresh token'' err), w1)
      | (Inr row, w1) \<Rightarrow>
          if t_revoked_at row \<noteq> None then
            (case rt_revoke_chain (as_refresh_tokens s) (t_chain_id row) w1 of
               (Some rerr, w2) \<Rightarrow> (Inl (Wrapf ''revoke chain on reuse'' rerr), w2)
             | (None, w2) \<Rightarrow> (Inl Err_Refresh_Token_Reuse, w2))
          else
            (case time_now w1 of
               (now, w2) \<Rightarrow>
                 if t_expires_at row < now then (Inl Err_Refresh_Token_Expired, w2)
                 else
                   (case rt_revoke (as_refresh_tokens s) (t_id row) w2 of
                      (Some err, w3) \<Rightarrow> (Inl (Wrapf ''revoke old refresh token'' err), w3)
                    | (None, w3) \<Rightarrow>
                        issue_refresh_and_access J s (t_user_id row) (t_chain_id row) w3)))"

definition auth_logout ::
    "('d env_scheme) auth_service \<Rightarrow> string \<Rightarrow> 'd env_scheme \<Rightarrow> go_error option \<times> 'd env_scheme" where
  "auth_logout s presented w =
     (case rt_get_by_hash (as_refresh_tokens s) (hash_refresh_token presented) w of
        (Inl err, w1) \<Rightarrow>
          if errors_is err Err_No_Rows then (None, w1)
          else (Some (Wrapf ''get refresh token'' err), w1)
      | (Inr row, w1) \<Rightarrow>
          (case rt_revoke (as_refresh_tokens s) (t_id row) w1 of
             (Some err, w2) \<Rightarrow> (Some (Wrapf ''revoke refresh token'' err), w2)
           | (None, w2) \<Rightarrow> (None, w2)))"

definition auth_logout_all ::
    "('d env_scheme) auth_service \<Rightarrow> uuid \<Rightarrow> 'd env_scheme \<Rightarrow> go_error option \<times> 'd env_scheme" where
  "auth_logout_all s user_id w =
     (case rt_revoke_all_for_user (as_refresh_tokens s) user_id w of
        (Some err, w1) \<Rightarrow> (Some (Wrapf ''revoke all for user'' err), w1)
      | (None, w1) \<Rightarrow> (None, w1))"

subsection \<open>What each operation can return and do\<close>

text \<open>
  \<open>token_step ts ts'\<close>: what any operation may do to the list of tokens, whatever fails:
  revoke some, then add at most one. Revocation is never undone and rows keep their identity.
\<close>

definition same_token :: "refresh_token \<Rightarrow> refresh_token \<Rightarrow> bool" where
  "same_token t t' \<longleftrightarrow> t_id t' = t_id t \<and> t_user_id t' = t_user_id t
     \<and> t_token_hash t' = t_token_hash t \<and> t_chain_id t' = t_chain_id t
     \<and> t_expires_at t' = t_expires_at t \<and> t_created_at t' = t_created_at t
     \<and> (\<not> active t \<longrightarrow> t' = t)"

definition only_revoked :: "refresh_token list \<Rightarrow> refresh_token list \<Rightarrow> bool" where
  "only_revoked ts ts' \<longleftrightarrow> list_all2 same_token ts ts'"

lemma only_revoked_refl [simp]: "only_revoked ts ts"
  by (simp add: only_revoked_def same_token_def list.rel_refl)

lemma same_token_trans: "same_token a b \<Longrightarrow> same_token b c \<Longrightarrow> same_token a c"
  by (auto simp: same_token_def)

lemma only_revoked_trans: "only_revoked a b \<Longrightarrow> only_revoked b c \<Longrightarrow> only_revoked a c"
  unfolding only_revoked_def
  using list_all2_trans [of same_token same_token same_token a b c] same_token_trans by blast

lemma only_revoked_revoke [simp]: "only_revoked ts (revoke_tokens P now ts)"
  by (auto simp: only_revoked_def revoke_tokens_def list_all2_conv_all_nth same_token_def active_def)

definition token_step :: "refresh_token list \<Rightarrow> refresh_token list \<Rightarrow> bool" where
  "token_step ts ts' \<longleftrightarrow>
     (\<exists>ms. only_revoked ts ms \<and> (ts' = ms \<or> (\<exists>t. ts' = ms @ [t] \<and> active t)))"

lemma token_step_revoked: "only_revoked ts ts' \<Longrightarrow> token_step ts ts'"
  by (auto simp: token_step_def)

lemma token_step_refl [simp]: "token_step ts ts"
  by (rule token_step_revoked) simp

lemma only_revoked_in:
  assumes "only_revoked ts ts'" and "t \<in> set ts"
  shows "\<exists>t'\<in>set ts'. same_token t t'"
  using assms by (auto simp: only_revoked_def list_all2_conv_all_nth in_set_conv_nth [of t]
      intro: bexI [OF _ nth_mem])

lemma only_revoked_rev:
  assumes "only_revoked ts ts'" and "t' \<in> set ts'"
  shows "\<exists>t\<in>set ts. same_token t t'"
proof -
  obtain i where "i < length ts'" "t' = ts' ! i" using assms(2) by (metis in_set_conv_nth)
  with assms(1) show ?thesis
    by (intro bexI [of _ "ts ! i"]) (auto simp: only_revoked_def list_all2_conv_all_nth)
qed

lemma token_step_in:
  assumes "token_step ts ts'" and "t \<in> set ts"
  shows "\<exists>t'\<in>set ts'. same_token t t'"
  using assms only_revoked_in [OF _ assms(2)] by (auto simp: token_step_def)

context refresh_store
begin

lemma issue_cases:
  assumes "issue_refresh_and_access J s u c w = (r, w')" and "as_refresh_tokens s = R"
  obtains (issued) t access plain w4 where "r = Inr (access, plain)" "toks w' = toks w @ [t]"
      "active t" "t_user_id t = u" "t_chain_id t = c" "t_token_hash t = hash_refresh_token plain"
      "t_expires_at t = stamp w (clock_at w (Suc (tick w)) + as_refresh_ttl s)"
      "plain = b64url_encode (map (entropy_at w (tick w)) [0..<32])"
      "signer_sign J (as_signer s) u c w4 = (Inr access, w')" "Suc (tick w) < tick w4"
      "env_step w w'" "ok w \<longrightarrow> ok w'"
  | (lost) t m e where "r = Inl (Wrapf m e)" "toks w' = toks w @ [t]" "active t" "t_user_id t = u"
      "t_chain_id t = c" "env_step w w'" "ok w \<longrightarrow> ok w'"
  | (failed) m e where "r = Inl (Wrapf m e)" "toks w' = toks w" "env_step w w'" "ok w \<longrightarrow> ok w'"
proof -
  obtain g w1 where gen: "generate_refresh_token w = (g, w1)" by fastforce
  have w1: "w1 = next_tick w" using gen by (rule generate_refresh_token_state)
  show thesis
  proof (cases g)
    case (Inl err)
    with assms(1) gen w1 show ?thesis
      by (intro failed) (auto simp: issue_refresh_and_access_def toks_next_tick ok_next_tick)
  next
    case (Inr plain)
    define w2 where "w2 = next_tick w1"
    define c' where "c' = \<lparr>tc_user_id = u, tc_token_hash = hash_refresh_token plain,
      tc_chain_id = c, tc_expires_at = clock_at w (Suc (tick w)) + as_refresh_ttl s\<rparr>"
    obtain x w3 where cr: "rt_create R c' w2 = (x, w3)" by fastforce
    have w2: "toks w2 = toks w" "stamp w2 = stamp w" "ok w2 = ok w" "env_step w w2"
      by (auto simp: w2_def w1 toks_next_tick stamp_next_tick ok_next_tick env_step_def)
    have step: "env_step w w3" "ok w \<longrightarrow> ok w3"
      using create_step [OF cr] w2 env_step_trans by auto
    have later: "Suc (tick w) < tick w3"
      using create_step [OF cr] by (auto simp: w2_def w1 dest!: env_step_tick)
    have plain: "plain = b64url_encode (map (entropy_at w (tick w)) [0..<32])"
      using gen Inr by (simp add: generate_refresh_token_Inr)
    show ?thesis
    proof (cases x)
      case (Inl err)
      then have r: "r = Inl (Wrapf ''create refresh token'' err)" "w' = w3"
        using assms gen Inr cr w1
        by (auto simp: issue_refresh_and_access_def time_now_def w2_def c'_def)
      from create_Inl [OF cr [unfolded Inl]] w2 consider "toks w3 = toks w"
        | t where "toks w3 = toks w @ [t]" "stored_as c' (stamp w (tc_expires_at c')) t" by auto
      then show ?thesis
      proof cases
        case 1
        with r step show ?thesis by (intro failed) auto
      next
        case (2 t)
        with r step show ?thesis by (intro lost) (auto simp: stored_as_def c'_def)
      qed
    next
      case x: (Inr t)
      have t: "toks w3 = toks w @ [t]" "stored_as c' (stamp w (tc_expires_at c')) t"
        using create_Inr [OF cr [unfolded x]] w2 by auto
      obtain a w4 where sign: "signer_sign J (as_signer s) u c w3 = (a, w4)" by fastforce
      have w4: "w4 = next_tick w3" using sign by (rule signer_sign_state)
      have step4: "toks w4 = toks w @ [t]" "env_step w w4" "ok w \<longrightarrow> ok w4"
        using step t by (auto simp: w4 toks_next_tick ok_next_tick intro: env_step_trans)
      show ?thesis
      proof (cases a)
        case (Inl err)
        then have "r = Inl (Wrapf ''sign access token'' err)" "w' = w4"
          using assms gen Inr cr x sign w1
          by (auto simp: issue_refresh_and_access_def time_now_def w2_def c'_def)
        with step4 t show ?thesis by (intro lost) (auto simp: stored_as_def c'_def)
      next
        case a: (Inr access)
        then have "r = Inr (access, plain)" "w' = w4"
          using assms gen Inr cr x sign w1
          by (auto simp: issue_refresh_and_access_def time_now_def w2_def c'_def)
        with later step4 t plain sign a show ?thesis
          by (intro issued) (auto simp: stored_as_def c'_def)
      qed
    qed
  qed
qed

text \<open>\<open>Refresh\<close>, case by case.\<close>

lemma refresh_cases:
  assumes "auth_refresh J s presented w = (r, w')" and "as_refresh_tokens s = R"
  obtains (unknown) "r = Inl Err_Refresh_Token_Revoked" "toks w' = toks w"
      "\<forall>t\<in>set (toks w). t_token_hash t \<noteq> hash_refresh_token presented"
      "env_step w w'" "ok w \<longrightarrow> ok w'"
  | (broken) e where "r = Inl (Wrapf ''get refresh token'' e)" "\<not> errors_is e Err_No_Rows"
      "toks w' = toks w" "env_step w w'" "ok w \<longrightarrow> ok w'"
  | (reuse) row now where "row \<in> set (toks w)" "t_token_hash row = hash_refresh_token presented"
      "\<not> active row" "r = Inl Err_Refresh_Token_Reuse"
      "toks w' = revoke_tokens (\<lambda>t. t_chain_id t = t_chain_id row) now (toks w)"
      "env_step w w'" "ok w \<longrightarrow> ok w'"
  | (reuse_broken) row e now where "row \<in> set (toks w)"
      "t_token_hash row = hash_refresh_token presented" "\<not> active row"
      "r = Inl (Wrapf ''revoke chain on reuse'' e)"
      "toks w' = toks w \<or> toks w' = revoke_tokens (\<lambda>t. t_chain_id t = t_chain_id row) now (toks w)"
      "env_step w w'" "ok w \<longrightarrow> ok w'"
  | (expired) row k where "row \<in> set (toks w)" "t_token_hash row = hash_refresh_token presented"
      "active row" "tick w \<le> k" "k < tick w'" "t_expires_at row < clock_at w k"
      "r = Inl Err_Refresh_Token_Expired"
      "toks w' = toks w" "env_step w w'" "ok w \<longrightarrow> ok w'"
  | (revoke_broken) row e k now where "row \<in> set (toks w)"
      "t_token_hash row = hash_refresh_token presented" "active row"
      "tick w \<le> k" "k < tick w'" "\<not> t_expires_at row < clock_at w k"
      "r = Inl (Wrapf ''revoke old refresh token'' e)"
      "toks w' = toks w \<or> toks w' = revoke_tokens (\<lambda>t. t_id t = t_id row) now (toks w)"
      "env_step w w'" "ok w \<longrightarrow> ok w'"
  | (revoked) row k now w3 where "row \<in> set (toks w)"
      "t_token_hash row = hash_refresh_token presented" "active row"
      "tick w \<le> k" "k < tick w3" "\<not> t_expires_at row < clock_at w k"
      "toks w3 = revoke_tokens (\<lambda>t. t_id t = t_id row) now (toks w)"
      "issue_refresh_and_access J s (t_user_id row) (t_chain_id row) w3 = (r, w')"
      "env_step w w3" "stamp w3 = stamp w" "ok w \<longrightarrow> ok w3"
proof -
  obtain x w1 where get: "rt_get_by_hash R (hash_refresh_token presented) w = (x, w1)" by fastforce
  note g = get_step [OF get]
  show thesis
  proof (cases x)
    case (Inl e)
    show ?thesis
    proof (cases "errors_is e Err_No_Rows")
      case True
      with assms get Inl g get_Inl show ?thesis
        by (intro unknown) (auto simp: auth_refresh_def)
    next
      case False
      with assms get Inl g show ?thesis by (intro broken [of e]) (auto simp: auth_refresh_def)
    qed
  next
    case (Inr row)
    note row = get_Inr [OF get [unfolded Inr]]
    show ?thesis
    proof (cases "active row")
      case False
      obtain y w2 where rc: "rt_revoke_chain R (t_chain_id row) w1 = (y, w2)" by fastforce
      have c: "env_step w w2" "ok w \<longrightarrow> ok w2"
        using revoke_chain_step [OF rc] g env_step_trans by auto
      have out: "r = (case y of None \<Rightarrow> Inl Err_Refresh_Token_Reuse
            | Some e \<Rightarrow> Inl (Wrapf ''revoke chain on reuse'' e))" "w' = w2"
        using assms get Inr False rc by (auto simp: auth_refresh_def active_def split: option.splits)
      show ?thesis
      proof (cases y)
        case None
        with revoke_chain_None rc g obtain now where
          "toks w2 = revoke_tokens (\<lambda>t. t_chain_id t = t_chain_id row) now (toks w)" by metis
        with None out row False c show ?thesis by (intro reuse) auto
      next
        case (Some e)
        with revoke_chain_Some rc g obtain now where "toks w2 = toks w \<or>
          toks w2 = revoke_tokens (\<lambda>t. t_chain_id t = t_chain_id row) now (toks w)" by metis
        with Some out row False c show ?thesis by (intro reuse_broken) auto
      qed
    next
      case True
      define k where "k = tick w1"
      define w2 where "w2 = next_tick w1"
      have w2: "toks w2 = toks w" "stamp w2 = stamp w" "env_step w w2" "ok w \<longrightarrow> ok w2"
        using g by (auto simp: w2_def toks_next_tick stamp_next_tick ok_next_tick
            intro: env_step_trans)
      have now: "clock_at w1 (tick w1) = clock_at w k" using g by (simp add: env_step_def k_def)
      have k: "tick w \<le> k" "k < tick w2" using g by (simp_all add: env_step_def k_def w2_def)
      show ?thesis
      proof (cases "t_expires_at row < clock_at w k")
        case late: True
        with assms get Inr True w2 row now k show ?thesis
          by (intro expired) (auto simp: auth_refresh_def time_now_def active_def w2_def)
      next
        case live: False
        obtain y w3 where rv: "rt_revoke R (t_id row) w2 = (y, w3)" by fastforce
        have c: "env_step w w3" "ok w \<longrightarrow> ok w3" "stamp w3 = stamp w"
          using revoke_step [OF rv] w2 env_step_trans by auto
        have k3: "k < tick w3"
          using revoke_step [OF rv] k(2) by (auto dest!: env_step_tick)
        show ?thesis
        proof (cases y)
          case None
          with revoke_None rv w2 obtain now' where
            "toks w3 = revoke_tokens (\<lambda>t. t_id t = t_id row) now' (toks w)" by metis
          with assms get Inr True live rv None row now c k k3 show ?thesis
            by (intro revoked) (auto simp: auth_refresh_def time_now_def active_def w2_def)
        next
          case (Some e)
          with revoke_Some rv w2 obtain now' where "toks w3 = toks w \<or>
            toks w3 = revoke_tokens (\<lambda>t. t_id t = t_id row) now' (toks w)" by metis
          with assms get Inr True live rv Some row now c k k3 show ?thesis
            by (intro revoke_broken) (auto simp: auth_refresh_def time_now_def active_def w2_def)
        qed
      qed
    qed
  qed
qed

lemma logout_cases:
  assumes "auth_logout s presented w = (x, w')" and "as_refresh_tokens s = R"
  obtains (unknown) "x = None" "toks w' = toks w"
      "\<forall>t\<in>set (toks w). t_token_hash t \<noteq> hash_refresh_token presented"
      "env_step w w'" "ok w \<longrightarrow> ok w'"
  | (revoked) row now where "x = None" "row \<in> set (toks w)"
      "t_token_hash row = hash_refresh_token presented"
      "toks w' = revoke_tokens (\<lambda>t. t_id t = t_id row) now (toks w)"
      "env_step w w'" "ok w \<longrightarrow> ok w'"
  | (failed) e m row now where "x = Some (Wrapf m e)"
      "toks w' = toks w \<or> row \<in> set (toks w) \<and> t_token_hash row = hash_refresh_token presented
         \<and> toks w' = revoke_tokens (\<lambda>t. t_id t = t_id row) now (toks w)"
      "env_step w w'" "ok w \<longrightarrow> ok w'"
proof -
  obtain y w1 where get: "rt_get_by_hash R (hash_refresh_token presented) w = (y, w1)" by fastforce
  note g = get_step [OF get]
  show thesis
  proof (cases y)
    case (Inl e)
    with assms get g get_Inl show ?thesis
      by (cases "errors_is e Err_No_Rows")
        (auto simp: auth_logout_def intro: unknown failed)
  next
    case (Inr row)
    note row = get_Inr [OF get [unfolded Inr]]
    obtain z w2 where rv: "rt_revoke R (t_id row) w1 = (z, w2)" by fastforce
    have c: "env_step w w2" "ok w \<longrightarrow> ok w2"
      using revoke_step [OF rv] g env_step_trans by auto
    show ?thesis
    proof (cases z)
      case None
      with revoke_None rv g obtain now where
        "toks w2 = revoke_tokens (\<lambda>t. t_id t = t_id row) now (toks w)" by metis
      with assms get Inr rv None row c show ?thesis
        by (intro revoked) (auto simp: auth_logout_def)
    next
      case (Some e)
      with revoke_Some rv g obtain now where "toks w2 = toks w \<or>
        toks w2 = revoke_tokens (\<lambda>t. t_id t = t_id row) now (toks w)" by metis
      with assms get Inr rv Some row c show ?thesis
        by (intro failed) (auto simp: auth_logout_def)
    qed
  qed
qed

lemma logout_all_cases:
  assumes "auth_logout_all s u w = (x, w')" and "as_refresh_tokens s = R"
  obtains (revoked) now where "x = None"
      "toks w' = revoke_tokens (\<lambda>t. t_user_id t = u) now (toks w)" "env_step w w'" "ok w \<longrightarrow> ok w'"
  | (failed) e now where "x = Some (Wrapf ''revoke all for user'' e)"
      "toks w' = toks w \<or> toks w' = revoke_tokens (\<lambda>t. t_user_id t = u) now (toks w)"
      "env_step w w'" "ok w \<longrightarrow> ok w'"
proof -
  obtain y w1 where rv: "rt_revoke_all_for_user R u w = (y, w1)" by fastforce
  note c = revoke_user_step [OF rv]
  show thesis
  proof (cases y)
    case None
    with revoke_user_None rv obtain now where
      "toks w1 = revoke_tokens (\<lambda>t. t_user_id t = u) now (toks w)" by metis
    with assms rv None c show ?thesis by (intro revoked) (auto simp: auth_logout_all_def)
  next
    case (Some e)
    with revoke_user_Some rv obtain now where "toks w1 = toks w \<or>
      toks w1 = revoke_tokens (\<lambda>t. t_user_id t = u) now (toks w)" by metis
    with assms rv Some c show ?thesis by (intro failed) (auto simp: auth_logout_all_def)
  qed
qed

end

context auth_stores
begin

lemma login_cases:
  assumes "auth_login J B s email pw w = (r, w')"
    and "as_refresh_tokens s = R" and "as_users s = U"
  obtains (unknown) "r = Inl Err_Invalid_Credentials" "\<forall>u\<in>set (usrs w). u_email u \<noteq> email"
      "toks w' = toks w" "env_step w w'" "ok w \<longrightarrow> ok w'"
  | (wrong) u where "r = Inl Err_Invalid_Credentials" "u \<in> set (usrs w)" "u_email u = email"
      "bc_compare B (u_password_hash u) pw \<noteq> None" "toks w' = toks w" "env_step w w'" "ok w \<longrightarrow> ok w'"
  | (broken) e where "r = Inl (Wrapf ''get user by email'' e)" "\<not> errors_is e Err_No_Rows"
      "toks w' = toks w" "env_step w w'" "ok w \<longrightarrow> ok w'"
  | (matched) u k w2 where "u \<in> set (usrs w)" "u_email u = email"
      "bc_compare B (u_password_hash u) pw = None" "tick w \<le> k" "k < tick w2"
      "issue_refresh_and_access J s (u_id u) (uuid_at w k) w2 = (r, w')"
      "env_step w w2" "toks w2 = toks w" "stamp w2 = stamp w" "ok w \<longrightarrow> ok w2"
proof -
  obtain x w1 where get: "au_get_by_email U email w = (x, w1)" by fastforce
  note g = lookup_step [OF get] lookup_tokens [OF get]
  show thesis
  proof (cases x)
    case (Inl e)
    show ?thesis
    proof (cases "errors_is e Err_No_Rows")
      case True
      with assms get Inl g lookup_Inl show ?thesis by (intro unknown) (auto simp: auth_login_def)
    next
      case False
      with assms get Inl g show ?thesis by (intro broken) (auto simp: auth_login_def)
    qed
  next
    case (Inr u)
    note u = lookup_Inr [OF get [unfolded Inr]]
    show ?thesis
    proof (cases "bc_compare B (u_password_hash u) pw")
      case (Some e)
      with assms get Inr g u show ?thesis by (intro wrong) (auto simp: auth_login_def)
    next
      case None
      have "issue_refresh_and_access J s (u_id u) (uuid_at w (tick w1)) (next_tick w1) = (r, w')"
        using assms get Inr None g by (simp add: auth_login_def uuid_new_def env_step_def)
      with u None g show ?thesis
        by (intro matched [of u "tick w1" "next_tick w1"])
          (auto simp: toks_next_tick stamp_next_tick ok_next_tick dest: env_step_tick
            intro: env_step_trans)
    qed
  qed
qed

end

interpretation auth: auth_stores "as_refresh_token_repo rt" world_tokens world_ok ts_store
    "as_auth_user_repo ur" world_users
  for rt :: refresh_token_repository and ur :: user_repository
proof (unfold_locales, goal_cases)
  case (1 e w x w')
  then have "user_repo_get_by_email ur e w = (x, w')" by (simp add: as_auth_user_repo_def)
  then show ?case
    using user_repo_steps(3) user_repo_read_effect(2)
    by (simp add: world_step_def world_tokens_def)
qed

end
