(* ===== verification/Sessions.thy ===== *)
theory Sessions
  imports Auth_Service
begin

section \<open>Sessions: runs of the authentication operations\<close>

text \<open>
  The operations of the auth service as events, a run as a list of them, and the facts that
  hold after any run whatever fails in it: rows are only ever revoked or added
  (\<open>token_step\<close>), a revoked row stays as it is, every session chain has at most one active
  token (\<open>session_inv\<close>, for one request at a time), no operation but \<open>Login\<close> and a
  successful rotation adds a token. The service is wired as \<open>server.NewServer\<close> does.
\<close>

datatype auth_op = Login string string | Refresh string | Logout string | Logout_All uuid

fun exec_op ::
    "jwt_lib \<Rightarrow> bcrypt_lib \<Rightarrow> ('d env_scheme) auth_service \<Rightarrow> auth_op \<Rightarrow> 'd env_scheme \<Rightarrow> 'd env_scheme" where
  "exec_op J B s (Login email pw) w = snd (auth_login J B s email pw w)"
| "exec_op J B s (Refresh p) w = snd (auth_refresh J s p w)"
| "exec_op J B s (Logout p) w = snd (auth_logout s p w)"
| "exec_op J B s (Logout_All u) w = snd (auth_logout_all s u w)"

fun run_ops ::
    "jwt_lib \<Rightarrow> bcrypt_lib \<Rightarrow> ('d env_scheme) auth_service \<Rightarrow> auth_op list \<Rightarrow> 'd env_scheme \<Rightarrow> 'd env_scheme" where
  "run_ops J B s [] w = w"
| "run_ops J B s (x # xs) w = run_ops J B s xs (exec_op J B s x w)"

text \<open>At most one active token per chain, and every chain id was issued by \<open>uuid.New\<close>.\<close>

definition one_active :: "refresh_token list \<Rightarrow> bool" where
  "one_active ts \<longleftrightarrow> distinct (map t_chain_id (filter active ts))"

definition chains_issued :: "'d env_scheme \<Rightarrow> refresh_token list \<Rightarrow> bool" where
  "chains_issued w ts \<longleftrightarrow> (\<forall>t\<in>set ts. \<exists>k<tick w. t_chain_id t = uuid_at w k)"

lemma one_active_unique:
  assumes "one_active ts" "a \<in> set ts" "b \<in> set ts" "active a" "active b"
    "t_chain_id a = t_chain_id b"
  shows "a = b"
  using assms by (auto simp: one_active_def intro: distinct_map_inj [of t_chain_id "filter active ts"])

lemma one_active_revoke: "one_active ts \<Longrightarrow> one_active (revoke_tokens P now ts)"
  unfolding one_active_def active_revoke_tokens
  using distinct_map_filter [of t_chain_id "filter active ts" "\<lambda>t. \<not> P t"] by simp

lemma one_active_snoc:
  assumes "one_active ts" and "\<And>u. u \<in> set ts \<Longrightarrow> active u \<Longrightarrow> t_chain_id u \<noteq> t_chain_id t"
  shows "one_active (ts @ [t])"
proof -
  have "t_chain_id t \<notin> t_chain_id ` {u \<in> set ts. active u}" using assms(2) by fastforce
  with assms(1) show ?thesis by (simp add: one_active_def)
qed

lemma revoked_chain_free:
  assumes "one_active ts" "row \<in> set ts" "active row" "distinct (map t_id ts)"
    "u \<in> set (revoke_tokens (\<lambda>t. t_id t = t_id row) now ts)" "active u"
  shows "t_chain_id u \<noteq> t_chain_id row"
proof
  assume same: "t_chain_id u = t_chain_id row"
  from assms(5,6) have "u \<in> set (filter active (revoke_tokens (\<lambda>t. t_id t = t_id row) now ts))"
    by simp
  then have "u \<in> set ts" "t_id u \<noteq> t_id row" unfolding active_revoke_tokens by auto
  with assms same have "u = row" by (intro one_active_unique) auto
  with \<open>t_id u \<noteq> t_id row\<close> show False by simp
qed

lemma chains_issued_mono:
  assumes "chains_issued w ts" "env_step w w'" "set (map t_chain_id ts') \<subseteq> set (map t_chain_id ts)"
  shows "chains_issued w' ts'"
  unfolding chains_issued_def
proof
  fix t'
  assume "t' \<in> set ts'"
  with assms(3) obtain t where "t \<in> set ts" "t_chain_id t' = t_chain_id t" by fastforce
  with assms(1,2) show "\<exists>k<tick w'. t_chain_id t' = uuid_at w' k"
    unfolding chains_issued_def env_step_def by (metis order_less_le_trans)
qed

lemma chains_issued_revoke:
  "chains_issued w ts \<Longrightarrow> env_step w w' \<Longrightarrow> chains_issued w' (revoke_tokens P now ts)"
  by (erule chains_issued_mono) (simp_all only: revoke_tokens_keys order_refl)

lemma chains_issued_same: "chains_issued w ts \<Longrightarrow> env_step w w' \<Longrightarrow> chains_issued w' ts"
  by (erule chains_issued_mono) simp_all

lemma chains_issued_snoc:
  "chains_issued w ts \<Longrightarrow> k < tick w \<Longrightarrow> t_chain_id t = uuid_at w k \<Longrightarrow> chains_issued w (ts @ [t])"
  by (auto simp: chains_issued_def)

definition sessions_good :: "'d env_scheme \<Rightarrow> refresh_token list \<Rightarrow> bool" where
  "sessions_good w ts \<longleftrightarrow> one_active ts \<and> chains_issued w ts"

lemma sessions_good_revoke:
  "sessions_good w ts \<Longrightarrow> env_step w w' \<Longrightarrow> sessions_good w' (revoke_tokens P now ts)"
  by (auto simp: sessions_good_def intro: one_active_revoke chains_issued_revoke)

lemma sessions_good_same: "sessions_good w ts \<Longrightarrow> env_step w w' \<Longrightarrow> sessions_good w' ts"
  by (auto simp: sessions_good_def intro: chains_issued_same)

lemma sessions_good_snoc:
  assumes "sessions_good w ts" "env_step w w'" "k < tick w" "t_chain_id t = uuid_at w k"
    and "\<And>u. u \<in> set ts \<Longrightarrow> active u \<Longrightarrow> t_chain_id u \<noteq> t_chain_id t"
  shows "sessions_good w' (ts @ [t])"
  using assms chains_issued_same [OF chains_issued_snoc [of w ts k t] assms(2)]
  by (simp add: sessions_good_def one_active_snoc)

lemma sessions_good_chain:
  "sessions_good w ts \<Longrightarrow> t \<in> set ts \<Longrightarrow> \<exists>k<tick w. t_chain_id t = uuid_at w k"
  by (simp add: sessions_good_def chains_issued_def)

lemma sessions_good_revoked_free:
  assumes "sessions_good w ts" "row \<in> set ts" "active row" "distinct (map t_id ts)"
  shows "\<forall>u\<in>set (revoke_tokens (\<lambda>t. t_id t = t_id row) now ts).
           active u \<longrightarrow> t_chain_id u \<noteq> t_chain_id row"
  using assms revoked_chain_free unfolding sessions_good_def by blast

text \<open>A chain id made now is not the chain of any row, as long as \<open>uuid.New\<close> does not
  repeat itself within the first \<open>n\<close> steps.\<close>

lemma sessions_good_fresh:
  assumes "sessions_good w ts" "inj_on (uuid_at w) {..<n}" "tick w \<le> k" "k < n" "u \<in> set ts"
  shows "t_chain_id u \<noteq> uuid_at w k"
proof
  assume "t_chain_id u = uuid_at w k"
  moreover obtain j where "j < tick w" "t_chain_id u = uuid_at w j"
    using sessions_good_chain [OF assms(1,5)] by blast
  ultimately have "j = k" using assms(2-4) by (auto dest: inj_onD)
  with \<open>j < tick w\<close> assms(3) show False by simp
qed

subsection \<open>Each operation\<close>

context refresh_store
begin

lemma issue_step:
  assumes "issue_refresh_and_access J s u c w = (r, w')" "as_refresh_tokens s = R"
  shows "env_step w w' \<and> (ok w \<longrightarrow> ok w') \<and> (toks w' = toks w \<or> (\<exists>t. toks w' = toks w @ [t] \<and> active t))"
  using assms by (cases rule: issue_cases) auto

lemma issue_good:
  assumes "issue_refresh_and_access J s u c w = (r, w')" "as_refresh_tokens s = R"
    and "sessions_good w (toks w)" "k < tick w" "c = uuid_at w k"
    and "\<forall>v\<in>set (toks w). active v \<longrightarrow> t_chain_id v \<noteq> c"
  shows "sessions_good w' (toks w')"
  using assms(1,2)
proof (cases rule: issue_cases)
  case (issued t access plain w4)
  then show ?thesis using assms by (auto intro!: sessions_good_snoc [where w = w and k = k])
next
  case (lost t m e)
  then show ?thesis using assms by (auto intro!: sessions_good_snoc [where w = w and k = k])
next
  case (failed m e)
  then show ?thesis using assms by (auto intro: sessions_good_same)
qed

lemma token_step_issue:
  assumes "issue_refresh_and_access J s u c w1 = (r, w')" "as_refresh_tokens s = R"
    and "only_revoked ts (toks w1)"
  shows "token_step ts (toks w')"
  using issue_step [OF assms(1,2)] assms(3) by (auto simp: token_step_def)

lemma refresh_step:
  assumes "auth_refresh J s p w = (r, w')" "as_refresh_tokens s = R"
  shows "env_step w w' \<and> (ok w \<longrightarrow> ok w') \<and> token_step (toks w) (toks w')"
  using assms
proof (cases rule: refresh_cases)
  case (revoked row k now w3)
  then show ?thesis
    using issue_step [OF revoked(8) assms(2)] token_step_issue [OF revoked(8) assms(2)]
    by (auto intro: env_step_trans)
qed (auto simp: token_step_revoked)

lemma refresh_good:
  assumes "auth_refresh J s p w = (r, w')" "as_refresh_tokens s = R"
    and "ok w" "sessions_good w (toks w)"
  shows "sessions_good w' (toks w')"
  using assms(1,2)
proof (cases rule: refresh_cases)
  case (revoked row k now w3)
  obtain j where j: "j < tick w" "t_chain_id row = uuid_at w j"
    using sessions_good_chain [OF assms(4) revoked(1)] by blast
  have "sessions_good w3 (toks w3)"
    using revoked assms by (auto intro: sessions_good_revoke)
  moreover have "\<forall>v\<in>set (toks w3). active v \<longrightarrow> t_chain_id v \<noteq> t_chain_id row"
    using sessions_good_revoked_free [OF assms(4) revoked(1,3) ok_ids [OF assms(3)]] revoked
    by simp
  moreover have "j < tick w3" "t_chain_id row = uuid_at w3 j"
    using j revoked env_step_tick [of w w3] by (auto simp: env_step_uuid)
  ultimately show ?thesis using issue_good [OF revoked(8) assms(2)] by blast
next
  case (reuse_broken row e now)
  then show ?thesis using assms(4) by (auto intro: sessions_good_revoke sessions_good_same)
next
  case (revoke_broken row e k now)
  then show ?thesis using assms(4) by (auto intro: sessions_good_revoke sessions_good_same)
qed (use assms(4) in \<open>auto intro: sessions_good_revoke sessions_good_same\<close>)

lemma logout_step:
  assumes "auth_logout s p w = (x, w')" "as_refresh_tokens s = R"
  shows "env_step w w' \<and> (ok w \<longrightarrow> ok w') \<and> (\<exists>P now. toks w' = toks w \<or> toks w' = revoke_tokens P now (toks w))"
  using assms by (cases rule: logout_cases) blast+

lemma logout_all_step:
  assumes "auth_logout_all s u w = (x, w')" "as_refresh_tokens s = R"
  shows "env_step w w' \<and> (ok w \<longrightarrow> ok w') \<and> (\<exists>P now. toks w' = toks w \<or> toks w' = revoke_tokens P now (toks w))"
  using assms by (cases rule: logout_all_cases) blast+

text \<open>A token that has been revoked never buys a new pair.\<close>

lemma refresh_revoked_rejected:
  assumes "auth_refresh J s p w = (r, w')" "as_refresh_tokens s = R" "ok w"
    and "t \<in> set (toks w)" "\<not> active t" "t_token_hash t = hash_refresh_token p"
  shows "\<exists>e. r = Inl e"
proof -
  have same: "row = t" if "row \<in> set (toks w)" "t_token_hash row = hash_refresh_token p" for row
    using distinct_map_inj [OF ok_hashes [OF assms(3)] that(1) assms(4)] that(2) assms(6) by simp
  show ?thesis
    using assms(1,2) by (cases rule: refresh_cases) (use same assms(5) in auto)
qed

end

context auth_stores
begin

lemma login_step:
  assumes "auth_login J B s email pw w = (r, w')" "as_refresh_tokens s = R" "as_users s = U"
  shows "env_step w w' \<and> (ok w \<longrightarrow> ok w') \<and> token_step (toks w) (toks w')"
  using assms
proof (cases rule: login_cases)
  case (matched u k w2)
  then show ?thesis
    using issue_step [OF matched(6) assms(2)] token_step_issue [OF matched(6) assms(2)]
    by (auto intro: env_step_trans)
qed auto

lemma login_good:
  assumes "auth_login J B s email pw w = (r, w')" "as_refresh_tokens s = R" "as_users s = U"
    and "inj_on (uuid_at w) {..<n}" "tick w' \<le> n" "sessions_good w (toks w)"
  shows "sessions_good w' (toks w')"
  using assms(1-3)
proof (cases rule: login_cases)
  case (matched u k w2)
  have "k < n"
    using env_step_tick issue_step [OF matched(6) assms(2)] matched(5) assms(5) by fastforce
  then have "\<forall>v\<in>set (toks w2). active v \<longrightarrow> t_chain_id v \<noteq> uuid_at w k"
    using sessions_good_fresh [OF assms(6,4) matched(4)] matched by simp
  moreover have "sessions_good w2 (toks w2)" using matched assms(6) by (auto intro: sessions_good_same)
  moreover have "uuid_at w k = uuid_at w2 k" using matched by (simp add: env_step_uuid)
  ultimately show ?thesis using issue_good [OF matched(6) assms(2)] matched(5) by blast
qed (use assms(6) in \<open>auto intro: sessions_good_same\<close>)

lemma exec_step:
  assumes "as_refresh_tokens s = R" "as_users s = U"
  shows "env_step w (exec_op J B s x w) \<and> (ok w \<longrightarrow> ok (exec_op J B s x w))
    \<and> token_step (toks w) (toks (exec_op J B s x w))"
proof (cases x)
  case (Login e p)
  obtain r w' where "auth_login J B s e p w = (r, w')" by fastforce
  with Login login_step [OF this assms] show ?thesis by simp
next
  case (Refresh p)
  obtain r w' where "auth_refresh J s p w = (r, w')" by fastforce
  with Refresh refresh_step [OF this assms(1)] show ?thesis by simp
next
  case (Logout p)
  obtain r w' where "auth_logout s p w = (r, w')" by fastforce
  with Logout logout_step [OF this assms(1)] show ?thesis
    by (auto intro: token_step_revoked)
next
  case (Logout_All u)
  obtain r w' where "auth_logout_all s u w = (r, w')" by fastforce
  with Logout_All logout_all_step [OF this assms(1)] show ?thesis
    by (auto intro: token_step_revoked)
qed

lemma exec_good:
  assumes "as_refresh_tokens s = R" "as_users s = U" "ok w" "sessions_good w (toks w)"
    and "inj_on (uuid_at w) {..<n}" "tick (exec_op J B s x w) \<le> n"
  shows "sessions_good (exec_op J B s x w) (toks (exec_op J B s x w))"
proof (cases x)
  case (Login e p)
  obtain r w' where "auth_login J B s e p w = (r, w')" by fastforce
  with Login login_good [OF this assms(1,2,5) _ assms(4)] assms(6) show ?thesis by simp
next
  case (Refresh p)
  obtain r w' where "auth_refresh J s p w = (r, w')" by fastforce
  with Refresh refresh_good [OF this assms(1,3,4)] show ?thesis by simp
next
  case (Logout p)
  obtain r w' where "auth_logout s p w = (r, w')" by fastforce
  with Logout logout_step [OF this assms(1)] assms(4) show ?thesis
    by (auto intro: sessions_good_same sessions_good_revoke)
next
  case (Logout_All u)
  obtain r w' where "auth_logout_all s u w = (r, w')" by fastforce
  with Logout_All logout_all_step [OF this assms(1)] assms(4) show ?thesis
    by (auto intro: sessions_good_same sessions_good_revoke)
qed

subsection \<open>Runs\<close>

lemma run_step:
  assumes "as_refresh_tokens s = R" "as_users s = U"
  shows "env_step w (run_ops J B s xs w)"
proof (induction xs arbitrary: w)
  case (Cons x xs)
  then show ?case using exec_step [OF assms] by (metis env_step_trans run_ops.simps(2))
qed simp

lemma run_good:
  assumes "as_refresh_tokens s = R" "as_users s = U"
    and "ok w" "sessions_good w (toks w)" "inj_on (uuid_at w) {..<tick (run_ops J B s xs w)}"
  shows "ok (run_ops J B s xs w) \<and> sessions_good (run_ops J B s xs w) (toks (run_ops J B s xs w))"
  using assms(3-5)
proof (induction xs arbitrary: w)
  case (Cons x xs)
  have "uuid_at (exec_op J B s x w) = uuid_at w" using exec_step [OF assms(1,2)] env_step_uuid by blast
  moreover have "tick (exec_op J B s x w) \<le> tick (run_ops J B s (x # xs) w)"
    using env_step_tick run_step [OF assms(1,2)] by fastforce
  ultimately show ?case
    using Cons exec_step [OF assms(1,2), of w J B x]
      exec_good [OF assms(1,2) Cons.prems(1,2,3)] by simp
qed simp

text \<open>Every row survives a run with its identity, and a revoked row exactly as it was.\<close>

lemma run_rows_stay:
  assumes "as_refresh_tokens s = R" "as_users s = U" "t \<in> set (toks w)"
  shows "\<exists>t'\<in>set (toks (run_ops J B s xs w)). same_token t t'"
  using assms(3)
proof (induction xs arbitrary: w t)
  case Nil
  then show ?case by (auto simp: same_token_def)
next
  case (Cons x xs)
  then obtain m where m: "m \<in> set (toks (exec_op J B s x w))" "same_token t m"
    using exec_step [OF assms(1,2)] token_step_in by blast
  from Cons.IH [OF m(1)] m(2) show ?case by (auto intro: same_token_trans)
qed

lemma run_ok:
  assumes "as_refresh_tokens s = R" "as_users s = U" "ok w"
  shows "ok (run_ops J B s xs w)"
  using assms(3) exec_step [OF assms(1,2)] by (induction xs arbitrary: w) auto

lemma run_revoked_rejected:
  assumes "as_refresh_tokens s = R" "as_users s = U" "ok w"
    and "t \<in> set (toks w)" "\<not> active t" "t_token_hash t = hash_refresh_token p"
  shows "\<exists>e. fst (auth_refresh J s p (run_ops J B s xs w)) = Inl e"
proof -
  obtain t' where "t' \<in> set (toks (run_ops J B s xs w))" "same_token t t'"
    using run_rows_stay [OF assms(1,2,4)] by blast
  with assms(5) have "t \<in> set (toks (run_ops J B s xs w))" by (simp add: same_token_def)
  with refresh_revoked_rejected [OF _ assms(1) run_ok [OF assms(1-3)] _ assms(5,6)]
  show ?thesis by (metis prod.collapse)
qed

end

end
