(* ===== verification/Session_Spec.thy ===== *)
theory Session_Spec
  imports Sessions
begin

section \<open>Sessions as the service promises them\<close>

text \<open>
  The contract of the auth service without tables, clocks and faults: a session is what a chain
  id maps to, with its user, the digest of its one current token and the expiry. \<open>session_spec\<close>
  says which sessions an operation may start, renew and end for each of its answers;
  \<open>sessions_of\<close> reads the sessions off the token table. The lemma \<open>run_refines\<close> is the
  simulation: every operation of the service, whatever fails in it, is a step of the contract.
\<close>

subsection \<open>The contract\<close>

record session =
  se_user :: uuid
  se_digest :: string
  se_expires :: instant

type_synonym sessions = "uuid \<Rightarrow> session option"

definition end_sessions :: "(uuid \<Rightarrow> session \<Rightarrow> bool) \<Rightarrow> sessions \<Rightarrow> sessions" where
  "end_sessions P S c = (case S c of None \<Rightarrow> None | Some s \<Rightarrow> if P c s then None else Some s)"

text \<open>The answer as the client sees it: a plaintext refresh token, a success, or an error.\<close>

datatype outcome = Granted string | Done | Refused

text \<open>\<open>cred e p\<close> are the users whose credentials are \<open>e\<close> and \<open>p\<close>. An operation that reports an
  error may have had its effect or a part of it.\<close>

fun session_spec ::
    "(string \<Rightarrow> string \<Rightarrow> uuid set) \<Rightarrow> auth_op \<Rightarrow> sessions \<Rightarrow> outcome \<Rightarrow> sessions \<Rightarrow> bool" where
  "session_spec cred (Login e p) S (Granted plain) S' \<longleftrightarrow>
     (\<exists>c s. c \<notin> dom S \<and> se_user s \<in> cred e p \<and> se_digest s = hash_refresh_token plain \<and> S' = S(c \<mapsto> s))"
| "session_spec cred (Login e p) S Refused S' \<longleftrightarrow>
     S' = S \<or> (\<exists>c s. c \<notin> dom S \<and> se_user s \<in> cred e p \<and> S' = S(c \<mapsto> s))"
| "session_spec cred (Refresh p) S (Granted plain) S' \<longleftrightarrow>
     (\<exists>c s s'. S c = Some s \<and> se_digest s = hash_refresh_token p \<and> se_user s' = se_user s
        \<and> se_digest s' = hash_refresh_token plain \<and> S' = S(c \<mapsto> s'))"
| "session_spec cred (Refresh p) S Refused S' \<longleftrightarrow>
     S' = S \<or> (\<exists>c. S' = S(c := None))
     \<or> (\<exists>c s s'. S c = Some s \<and> se_digest s = hash_refresh_token p \<and> se_user s' = se_user s \<and> S' = S(c \<mapsto> s'))"
| "session_spec cred (Logout p) S Done S' \<longleftrightarrow> S' = end_sessions (\<lambda>c s. se_digest s = hash_refresh_token p) S"
| "session_spec cred (Logout p) S Refused S' \<longleftrightarrow>
     S' = S \<or> S' = end_sessions (\<lambda>c s. se_digest s = hash_refresh_token p) S"
| "session_spec cred (Logout_All u) S Done S' \<longleftrightarrow> S' = end_sessions (\<lambda>c s. se_user s = u) S"
| "session_spec cred (Logout_All u) S Refused S' \<longleftrightarrow> S' = S \<or> S' = end_sessions (\<lambda>c s. se_user s = u) S"
| "session_spec cred x S out S' \<longleftrightarrow> False"

fun session_run ::
    "(string \<Rightarrow> string \<Rightarrow> uuid set) \<Rightarrow> auth_op list \<Rightarrow> sessions \<Rightarrow> outcome list \<Rightarrow> sessions \<Rightarrow> bool" where
  "session_run cred [] S [] S' \<longleftrightarrow> S' = S"
| "session_run cred (x # xs) S (out # outs) S' \<longleftrightarrow>
     (\<exists>S1. session_spec cred x S out S1 \<and> session_run cred xs S1 outs S')"
| "session_run cred xs S outs S' \<longleftrightarrow> False"

subsection \<open>The service against it\<close>

definition tokens_outcome :: "go_error + string \<times> string \<Rightarrow> outcome" where
  "tokens_outcome r = (case r of Inl e \<Rightarrow> Refused | Inr (access, plain) \<Rightarrow> Granted plain)"

definition end_outcome :: "go_error option \<Rightarrow> outcome" where
  "end_outcome r = (case r of None \<Rightarrow> Done | Some e \<Rightarrow> Refused)"

lemma outcome_simps [simp]:
  "tokens_outcome (Inl e) = Refused" "tokens_outcome (Inr (a, p)) = Granted p"
  "end_outcome None = Done" "end_outcome (Some e) = Refused"
  by (simp_all add: tokens_outcome_def end_outcome_def)

fun op_outcome ::
    "jwt_lib \<Rightarrow> bcrypt_lib \<Rightarrow> ('d env_scheme) auth_service \<Rightarrow> auth_op \<Rightarrow> 'd env_scheme \<Rightarrow> outcome" where
  "op_outcome J B s (Login email pw) w = tokens_outcome (fst (auth_login J B s email pw w))"
| "op_outcome J B s (Refresh p) w = tokens_outcome (fst (auth_refresh J s p w))"
| "op_outcome J B s (Logout p) w = end_outcome (fst (auth_logout s p w))"
| "op_outcome J B s (Logout_All u) w = end_outcome (fst (auth_logout_all s u w))"

fun run_outcomes ::
    "jwt_lib \<Rightarrow> bcrypt_lib \<Rightarrow> ('d env_scheme) auth_service \<Rightarrow> auth_op list \<Rightarrow> 'd env_scheme \<Rightarrow> outcome list" where
  "run_outcomes J B s [] w = []"
| "run_outcomes J B s (x # xs) w = op_outcome J B s x w # run_outcomes J B s xs (exec_op J B s x w)"

definition session_of :: "refresh_token \<Rightarrow> session" where
  "session_of t = \<lparr>se_user = t_user_id t, se_digest = t_token_hash t, se_expires = t_expires_at t\<rparr>"

lemma session_of_sel [simp]:
  "se_user (session_of t) = t_user_id t" "se_digest (session_of t) = t_token_hash t"
  by (simp_all add: session_of_def)

definition sessions_of :: "refresh_token list \<Rightarrow> sessions" where
  "sessions_of ts = map_of (map (\<lambda>t. (t_chain_id t, session_of t)) (filter active ts))"

definition credentials :: "bcrypt_lib \<Rightarrow> user list \<Rightarrow> string \<Rightarrow> string \<Rightarrow> uuid set" where
  "credentials B us e p = {u_id u | u. u \<in> set us \<and> u_email u = e \<and> bc_compare B (u_password_hash u) p = None}"

subsection \<open>What happens to the table, seen as sessions\<close>

lemma sessions_eqI: "(\<And>c s. S c = Some s \<longleftrightarrow> S' c = Some s) \<Longrightarrow> S = S'" for S S' :: sessions
  by (rule ext) (metis not_None_eq)

lemma end_sessions_Some [simp]: "end_sessions P S c = Some s \<longleftrightarrow> S c = Some s \<and> \<not> P c s"
  by (auto simp: end_sessions_def split: option.split)

lemma end_sessions_chain: "end_sessions (\<lambda>k s. k = c) S = S(c := None)"
  by (rule sessions_eqI) auto

lemma sessions_of_Some:
  assumes "one_active ts"
  shows "sessions_of ts c = Some s \<longleftrightarrow> (\<exists>t\<in>set ts. active t \<and> t_chain_id t = c \<and> s = session_of t)"
proof -
  have "distinct (map fst (map (\<lambda>t. (t_chain_id t, session_of t)) (filter active ts)))"
    using assms by (simp add: one_active_def o_def)
  from map_of_eq_Some_iff [OF this, of c s] show ?thesis by (auto simp: sessions_of_def)
qed

lemma sessions_of_dom: "dom (sessions_of ts) = t_chain_id ` {t \<in> set ts. active t}"
  by (force simp: sessions_of_def dom_map_of_conv_image_fst)

lemma in_revoked_active:
  "t \<in> set (revoke_tokens P now ts) \<and> active t \<longleftrightarrow> t \<in> set ts \<and> active t \<and> \<not> P t"
  using active_revoke_tokens [of P now ts] by (metis (no_types, lifting) mem_Collect_eq set_filter)

lemma sessions_of_revoke:
  assumes "one_active ts" and "\<And>t. t \<in> set ts \<Longrightarrow> active t \<Longrightarrow> P t = Q (t_chain_id t) (session_of t)"
  shows "sessions_of (revoke_tokens P now ts) = end_sessions Q (sessions_of ts)"
proof (rule sessions_eqI)
  fix c s
  have "sessions_of (revoke_tokens P now ts) c = Some s
    \<longleftrightarrow> (\<exists>t. (t \<in> set (revoke_tokens P now ts) \<and> active t) \<and> t_chain_id t = c \<and> s = session_of t)"
    using sessions_of_Some [OF one_active_revoke [OF assms(1)]] by auto
  also have "\<dots> \<longleftrightarrow> sessions_of ts c = Some s \<and> \<not> Q c s"
    unfolding in_revoked_active using sessions_of_Some [OF assms(1)] assms(2) by auto
  finally show "sessions_of (revoke_tokens P now ts) c = Some s \<longleftrightarrow> end_sessions Q (sessions_of ts) c = Some s"
    by simp
qed

lemma sessions_of_revoke_chain:
  "one_active ts \<Longrightarrow> sessions_of (revoke_tokens (\<lambda>t. t_chain_id t = c) now ts) = (sessions_of ts)(c := None)"
  using sessions_of_revoke [where Q = "\<lambda>k s. k = c"] by (simp add: end_sessions_chain)

lemma sessions_of_revoke_row:
  assumes "one_active ts" "distinct (map t_id ts)" "row \<in> set ts" "active row"
  shows "sessions_of (revoke_tokens (\<lambda>t. t_id t = t_id row) now ts) = (sessions_of ts)(t_chain_id row := None)"
proof -
  have "t_id t = t_id row \<longleftrightarrow> t_chain_id t = t_chain_id row" if "t \<in> set ts" "active t" for t
    using one_active_unique [OF assms(1) that(1) assms(3) that(2) assms(4)]
      distinct_map_inj [OF assms(2) that(1) assms(3)] by auto
  then show ?thesis
    using sessions_of_revoke [OF assms(1), where Q = "\<lambda>k s. k = t_chain_id row"] by (simp add: end_sessions_chain)
qed

text \<open>Revoking a row by its id ends the session whose current token it is, if there is one.\<close>

lemma sessions_of_revoke_digest:
  assumes "one_active ts" "distinct (map t_id ts)" "distinct (map t_token_hash ts)" "row \<in> set ts"
  shows "sessions_of (revoke_tokens (\<lambda>t. t_id t = t_id row) now ts)
    = end_sessions (\<lambda>c s. se_digest s = t_token_hash row) (sessions_of ts)"
proof (rule sessions_of_revoke [OF assms(1)])
  fix t assume "t \<in> set ts"
  then show "(t_id t = t_id row) = (se_digest (session_of t) = t_token_hash row)"
    using distinct_map_inj [OF assms(2) _ assms(4)] distinct_map_inj [OF assms(3) _ assms(4)] by auto
qed

lemma end_sessions_none:
  assumes "one_active ts" "\<forall>t\<in>set ts. t_token_hash t \<noteq> h"
  shows "end_sessions (\<lambda>c s. se_digest s = h) (sessions_of ts) = sessions_of ts"
  by (rule sessions_eqI) (use assms in \<open>auto simp: sessions_of_Some\<close>)

lemma sessions_of_snoc:
  assumes "active t" "t_chain_id t \<notin> dom (sessions_of ts)"
  shows "sessions_of (ts @ [t]) = (sessions_of ts)(t_chain_id t \<mapsto> session_of t)"
proof -
  have "sessions_of [t] = [t_chain_id t \<mapsto> session_of t]" using assms(1) by (simp add: sessions_of_def)
  moreover have "sessions_of (ts @ [t]) = sessions_of [t] ++ sessions_of ts" by (simp add: sessions_of_def map_of_append)
  ultimately show ?thesis using assms(2) by (auto simp: map_add_def split: option.splits)
qed

subsection \<open>Each operation is a step of the contract\<close>

context refresh_store
begin

lemma issue_refines:
  assumes "issue_refresh_and_access J s u c w = (r, w')" "as_refresh_tokens s = R"
    and "c \<notin> dom (sessions_of (toks w))"
  obtains (unchanged) "tokens_outcome r = Refused" "sessions_of (toks w') = sessions_of (toks w)"
  | (started) z where "se_user z = u" "sessions_of (toks w') = (sessions_of (toks w))(c \<mapsto> z)"
      "tokens_outcome r = Refused \<or> (\<exists>plain. tokens_outcome r = Granted plain \<and> se_digest z = hash_refresh_token plain)"
  using assms(1,2)
proof (cases rule: issue_cases)
  case (issued t access plain w4)
  then show ?thesis using sessions_of_snoc [of t "toks w"] assms(3) by (intro started [of "session_of t"]) auto
next
  case (lost t m e)
  then show ?thesis using sessions_of_snoc [of t "toks w"] assms(3) by (intro started [of "session_of t"]) auto
next
  case (failed m e)
  then show ?thesis by (intro unchanged) auto
qed

lemma refresh_refines:
  assumes "auth_refresh J s p w = (r, w')" "as_refresh_tokens s = R" "ok w" "one_active (toks w)"
  shows "session_spec cred (Refresh p) (sessions_of (toks w)) (tokens_outcome r) (sessions_of (toks w'))"
  using assms(1,2)
proof (cases rule: refresh_cases)
  case (revoke_broken row e k now)
  then show ?thesis
    using sessions_of_revoke_row [OF assms(4) ok_ids [OF assms(3)], of row now] by auto
next
  case (revoked row k now w3)
  let ?S = "sessions_of (toks w)" and ?c = "t_chain_id row"
  have S: "sessions_of (toks w3) = ?S(?c := None)"
    using sessions_of_revoke_row [OF assms(4) ok_ids [OF assms(3)] revoked(1,3)] revoked(7) by simp
  have free: "?c \<notin> dom (sessions_of (toks w3))" by (simp add: S)
  have row: "?S ?c = Some (session_of row)" using revoked(1,3) by (auto simp: sessions_of_Some [OF assms(4)])
  show ?thesis
    using revoked(8) assms(2) free
  proof (cases rule: issue_refines)
    case (started z)
    then have S': "sessions_of (toks w') = ?S(?c \<mapsto> z)" by (simp add: S)
    then have renewed: "\<exists>c q q'. ?S c = Some q \<and> se_digest q = hash_refresh_token p \<and> se_user q' = se_user q
        \<and> se_digest q' = se_digest z \<and> sessions_of (toks w') = ?S(c \<mapsto> q')"
      using row revoked(2) started(1) by (intro exI [of _ ?c] exI [of _ "session_of row"] exI [of _ z]) simp
    from started(3) show ?thesis
    proof (elim disjE exE conjE)
      assume "tokens_outcome r = Refused"
      with renewed show ?thesis by auto
    next
      fix plain assume "tokens_outcome r = Granted plain" "se_digest z = hash_refresh_token plain"
      with renewed show ?thesis by auto
    qed
  next
    case unchanged
    then show ?thesis using S by auto
  qed
qed (use sessions_of_revoke_chain [OF assms(4)] in auto)

lemma logout_refines:
  assumes "auth_logout s p w = (x, w')" "as_refresh_tokens s = R" "ok w" "one_active (toks w)"
  shows "session_spec cred (Logout p) (sessions_of (toks w)) (end_outcome x) (sessions_of (toks w'))"
proof -
  have row: "sessions_of (revoke_tokens (\<lambda>t. t_id t = t_id row) now (toks w))
      = end_sessions (\<lambda>c s. se_digest s = t_token_hash row) (sessions_of (toks w))" if "row \<in> set (toks w)" for row now
    by (rule sessions_of_revoke_digest [OF assms(4) ok_ids [OF assms(3)] ok_hashes [OF assms(3)] that])
  show ?thesis
    using assms(1,2)
    by (cases rule: logout_cases) (use row end_sessions_none [OF assms(4)] in auto)
qed

lemma logout_all_refines:
  assumes "auth_logout_all s u w = (x, w')" "as_refresh_tokens s = R" "one_active (toks w)"
  shows "session_spec cred (Logout_All u) (sessions_of (toks w)) (end_outcome x) (sessions_of (toks w'))"
proof -
  have "sessions_of (revoke_tokens (\<lambda>t. t_user_id t = u) now (toks w))
      = end_sessions (\<lambda>c s. se_user s = u) (sessions_of (toks w))" for now
    by (rule sessions_of_revoke [OF assms(3)]) simp
  with assms(1,2) show ?thesis by (cases rule: logout_all_cases) auto
qed

end

context auth_stores
begin

lemma login_refines:
  assumes "auth_login J B s e p w = (r, w')" "as_refresh_tokens s = R" "as_users s = U"
    and "inj_on (uuid_at w) {..<n}" "tick w' \<le> n" "sessions_good w (toks w)"
  shows "session_spec (credentials B (usrs w)) (Login e p) (sessions_of (toks w)) (tokens_outcome r) (sessions_of (toks w'))"
  using assms(1-3)
proof (cases rule: login_cases)
  case (matched u k w2)
  have "k < n"
    using env_step_tick issue_step [OF matched(6) assms(2)] matched(5) assms(5) by fastforce
  then have fresh: "t_chain_id t \<noteq> uuid_at w k" if "t \<in> set (toks w)" for t
    using sessions_good_fresh [OF assms(6,4) matched(4)] that by blast
  have free: "uuid_at w k \<notin> dom (sessions_of (toks w))" by (auto simp: sessions_of_dom dest!: fresh)
  then have free2: "uuid_at w k \<notin> dom (sessions_of (toks w2))" by (simp add: matched(8))
  have cred: "u_id u \<in> credentials B (usrs w) e p" using matched(1-3) by (auto simp: credentials_def)
  show ?thesis
    using matched(6) assms(2) free2
  proof (cases rule: issue_refines)
    case (started z)
    have "\<exists>c q. c \<notin> dom (sessions_of (toks w)) \<and> se_user q \<in> credentials B (usrs w) e p \<and> se_digest q = se_digest z
        \<and> sessions_of (toks w') = (sessions_of (toks w))(c \<mapsto> q)"
      using started(1,2) free cred matched(8) by (intro exI [of _ "uuid_at w k"] exI [of _ z]) simp
    with started(3) show ?thesis by (elim disjE exE conjE) (simp_all, blast+)
  qed (simp add: matched(8))
qed auto

end

text \<open>The operations of the token store leave the users alone, so the credentials do not change
  during a run.\<close>

locale session_stores = auth_stores R toks ok stamp U usrs
  for R :: "('d env_scheme) refresh_token_repo" and toks ok stamp
    and U :: "('d env_scheme) auth_user_repo" and usrs +
  assumes usrs_next_tick: "usrs (next_tick w) = usrs w"
    and usrs_create: "rt_create R c w = (r, w') \<Longrightarrow> usrs w' = usrs w"
    and usrs_get: "rt_get_by_hash R h w = (r, w') \<Longrightarrow> usrs w' = usrs w"
    and usrs_revoke: "rt_revoke R i w = (x, w') \<Longrightarrow> usrs w' = usrs w"
    and usrs_revoke_chain: "rt_revoke_chain R ch w = (x, w') \<Longrightarrow> usrs w' = usrs w"
    and usrs_revoke_user: "rt_revoke_all_for_user R i w = (x, w') \<Longrightarrow> usrs w' = usrs w"
begin

lemma issue_users:
  assumes "issue_refresh_and_access J s u c w = (r, w')" "as_refresh_tokens s = R"
  shows "usrs w' = usrs w"
  using assms(1)
  by (auto simp: issue_refresh_and_access_def time_now_def usrs_next_tick assms(2) split: prod.splits sum.splits
      dest!: usrs_create generate_refresh_token_state signer_sign_state)

lemma exec_users:
  assumes "as_refresh_tokens s = R" "as_users s = U"
  shows "usrs (exec_op J B s x w) = usrs w"
proof (cases x)
  case (Login e p)
  then show ?thesis
    by (auto simp: assms auth_login_def uuid_new_def usrs_next_tick issue_users [OF prod.collapse [symmetric] assms(1)]
        split: prod.split sum.split option.split dest!: lookup_step)
next
  case (Refresh p)
  then show ?thesis
    by (auto simp: assms auth_refresh_def time_now_def usrs_next_tick issue_users [OF prod.collapse [symmetric] assms(1)]
        split: prod.split sum.split option.split dest!: usrs_get usrs_revoke usrs_revoke_chain)
next
  case (Logout p)
  then show ?thesis
    by (auto simp: assms auth_logout_def split: prod.split sum.split option.split dest!: usrs_get usrs_revoke)
next
  case (Logout_All u)
  then show ?thesis
    by (auto simp: assms auth_logout_all_def split: prod.split option.split dest!: usrs_revoke_user)
qed

lemma exec_refines:
  assumes "as_refresh_tokens s = R" "as_users s = U" "ok w" "sessions_good w (toks w)"
    and "inj_on (uuid_at w) {..<n}" "tick (exec_op J B s x w) \<le> n"
  shows "session_spec (credentials B (usrs w)) x (sessions_of (toks w)) (op_outcome J B s x w)
    (sessions_of (toks (exec_op J B s x w)))"
proof -
  have one: "one_active (toks w)" using assms(4) by (simp add: sessions_good_def)
  show ?thesis
  proof (cases x)
    case (Login e p)
    then show ?thesis using login_refines [OF prod.collapse [symmetric] assms(1,2,5) _ assms(4)] assms(6) by simp
  next
    case (Refresh p)
    then show ?thesis using refresh_refines [OF prod.collapse [symmetric] assms(1,3) one] by simp
  next
    case (Logout p)
    then show ?thesis using logout_refines [OF prod.collapse [symmetric] assms(1,3) one] by simp
  next
    case (Logout_All u)
    then show ?thesis using logout_all_refines [OF prod.collapse [symmetric] assms(1) one] by simp
  qed
qed

lemma run_refines:
  assumes "as_refresh_tokens s = R" "as_users s = U"
    and "ok w" "sessions_good w (toks w)" "inj_on (uuid_at w) {..<tick (run_ops J B s xs w)}"
  shows "session_run (credentials B (usrs w)) xs (sessions_of (toks w)) (run_outcomes J B s xs w)
    (sessions_of (toks (run_ops J B s xs w)))"
  using assms(3-5)
proof (induction xs arbitrary: w)
  case (Cons x xs)
  let ?w = "exec_op J B s x w"
  have step: "env_step w ?w" "ok ?w" using exec_step [OF assms(1,2)] Cons.prems(1) by blast+
  have n: "tick ?w \<le> tick (run_ops J B s xs ?w)" using run_step [OF assms(1,2)] env_step_tick by blast
  have inj: "inj_on (uuid_at w) {..<tick (run_ops J B s xs ?w)}" using Cons.prems(3) by simp
  have "sessions_good ?w (toks ?w)" by (rule exec_good [OF assms(1,2) Cons.prems(1,2) inj n])
  then have "session_run (credentials B (usrs ?w)) xs (sessions_of (toks ?w)) (run_outcomes J B s xs ?w)
      (sessions_of (toks (run_ops J B s xs ?w)))"
    using Cons.IH [OF step(2)] inj env_step_uuid [OF step(1)] by simp
  with exec_refines [OF assms(1,2) Cons.prems(1,2) inj n] show ?case
    by (auto simp: exec_users [OF assms(1,2)])
qed simp

end

lemma run_stmt_users:
  assumes "run_stmt q st w = (r, w')" "\<And>U. keeps (\<lambda>d. users_tbl d = U) st"
  shows "world_users w' = world_users w"
  using run_stmt_keeps [OF assms(1), of "\<lambda>d. users_tbl d = users_tbl (db w)"] assms(2) by (simp add: world_users_def)

lemma token_statements_keep_users:
  "keeps (\<lambda>d. users_tbl d = U) (sql_create_refresh_token a)"
  "keeps (\<lambda>d. users_tbl d = U) (sql_get_refresh_token_by_hash h)"
  "keeps (\<lambda>d. users_tbl d = U) (sql_revoke_refresh_token i)"
  "keeps (\<lambda>d. users_tbl d = U) (sql_revoke_chain c)"
  "keeps (\<lambda>d. users_tbl d = U) (sql_revoke_all_for_user i)"
  by (auto simp: keeps_def sql_create_refresh_token_def sql_revoke_refresh_token_def sql_revoke_chain_def
      sql_revoke_all_for_user_def table_simps Let_def)

interpretation sessions: session_stores "as_refresh_token_repo rt" world_tokens world_ok ts_store
    "as_auth_user_repo ur" world_users
  for rt :: refresh_token_repository and ur :: user_repository
  by unfold_locales
    (auto simp: token_repo_defs split: prod.splits sum.splits if_splits
      dest: run_stmt_users [OF _ token_statements_keep_users(1)] run_stmt_users [OF _ token_statements_keep_users(2)]
        run_stmt_users [OF _ token_statements_keep_users(3)] run_stmt_users [OF _ token_statements_keep_users(4)]
        run_stmt_users [OF _ token_statements_keep_users(5)])

end
