(* ===== verification/Live_Store.thy ===== *)
theory Live_Store
  imports User_Store
begin

section \<open>The token store on a healthy connection pool\<close>

text \<open>
  The repositories that \<open>server.NewServer\<close> builds run on the connection pool. While no
  connection fault is to come (\<open>world_quiet\<close>), every statement is answered by the server;
  this theory interprets the contract \<open>live_store\<close> for them, from which the success of an
  operation (and not only what a success means) is proved.
\<close>

abbreviation pool_tokens :: refresh_token_repository where
  "pool_tokens \<equiv> reps_refresh_tokens (new_repositories On_Pool)"

abbreviation pool_users :: user_repository where
  "pool_users \<equiv> reps_users (new_repositories On_Pool)"

text \<open>No fault from now on, and the ids \<open>gen_random_uuid()\<close> will make are not taken.\<close>

definition world_quiet :: "world \<Rightarrow> bool" where
  "world_quiet w \<longleftrightarrow> (\<forall>k\<ge>tick w. fault_at w k = None) \<and>
     (\<forall>k\<ge>tick w. \<forall>t\<in>set (tokens_tbl (db w)). tr_id t \<noteq> db_uuid_at w k)"

definition world_known :: "world \<Rightarrow> uuid \<Rightarrow> bool" where
  "world_known w i \<longleftrightarrow> i \<in> u_id ` set (world_users w)"

lemma pool_queries [simp]:
  "rrep_q pool_tokens = \<lparr>q_db = On_Pool\<rparr>" "urep_q pool_users = \<lparr>q_db = On_Pool\<rparr>"
  by (simp_all add: new_repositories_def new_refresh_token_repository_def
      new_user_repository_def sqlc_new_def Let_def)

lemma run_stmt_quiet:
  "world_quiet w \<Longrightarrow> run_stmt \<lparr>q_db = On_Pool\<rparr> st w =
     (fst (stmt_out st w), (next_tick w)\<lparr>db := snd (stmt_out st w)\<rparr>)"
  by (simp add: run_stmt_def run_on_pool_def world_quiet_def)

lemma world_quiet_next:
  assumes "world_quiet w" and "tr_id ` set (tokens_tbl d) \<subseteq> tr_id ` set (tokens_tbl (db w))"
  shows "world_quiet ((next_tick w)\<lparr>db := d\<rparr>)"
  unfolding world_quiet_def
proof (intro conjI allI impI ballI)
  fix k assume "tick ((next_tick w)\<lparr>db := d\<rparr>) \<le> k"
  then have k: "tick w \<le> k" by (simp add: next_tick_def)
  then show "fault_at ((next_tick w)\<lparr>db := d\<rparr>) k = None"
    using assms(1) by (simp add: world_quiet_def next_tick_def)
  fix t assume "t \<in> set (tokens_tbl (db ((next_tick w)\<lparr>db := d\<rparr>)))"
  then have "tr_id t \<in> tr_id ` set (tokens_tbl (db w))" using assms(2) by auto
  then obtain u where "u \<in> set (tokens_tbl (db w))" "tr_id u = tr_id t" by force
  moreover have "tr_id u \<noteq> db_uuid_at w k"
    using assms(1) k \<open>u \<in> set (tokens_tbl (db w))\<close> by (simp add: world_quiet_def)
  ultimately show "tr_id t \<noteq> db_uuid_at ((next_tick w)\<lparr>db := d\<rparr>) k"
    by (simp add: next_tick_def)
qed

lemma world_quiet_next_tick: "world_quiet w \<Longrightarrow> world_quiet (next_tick w)"
  using world_quiet_next [of w "db w"] by (simp add: next_tick_def)

lemma revoke_rows_tables [simp]:
  "map tr_id (tokens_tbl (revoke_rows P now d)) = map tr_id (tokens_tbl d)"
  "users_tbl (revoke_rows P now d) = users_tbl d"
  by (simp_all add: revoke_rows_def)

lemma revoke_rows_ids [simp]:
  "tr_id ` set (tokens_tbl (revoke_rows P now d)) = tr_id ` set (tokens_tbl d)"
  using revoke_rows_tables(1) [of P now d] by (metis list.set_map)

lemma world_known_view: "users_tbl (db w') = users_tbl (db w) \<Longrightarrow> world_known w' = world_known w"
  by (auto simp: world_known_def world_users_def)

lemma live_get:
  assumes "token_repo_get_by_hash pool_tokens h w = (x, w')" "world_quiet w"
  shows "world_quiet w' \<and> world_known w' = world_known w \<and> (\<forall>e. x = Inl e \<longrightarrow> errors_is e Err_No_Rows)"
  using assms
  by (auto simp: token_repo_defs run_stmt_quiet stmt_out_def sql_get_refresh_token_by_hash_def
      intro!: world_quiet_next world_known_view split: option.splits sum.splits)

lemma live_revoke:
  assumes "token_repo_revoke pool_tokens i w = (y, w')" "world_quiet w"
  shows "world_quiet w' \<and> world_known w' = world_known w \<and> y = None"
  using assms
  by (auto simp: token_repo_defs run_stmt_quiet stmt_out_def sql_revoke_refresh_token_def
      simp del: list.set_map intro!: world_quiet_next world_known_view
      eq_refl [OF revoke_rows_ids] split: sum.splits if_splits)

lemma live_revoke_many:
  "token_repo_revoke_chain pool_tokens c w = (y, w') \<Longrightarrow> world_quiet w \<Longrightarrow> y = None"
  "token_repo_revoke_all_for_user pool_tokens i w = (y, w') \<Longrightarrow> world_quiet w \<Longrightarrow> y = None"
  by (auto simp: token_repo_defs run_stmt_quiet stmt_out_def sql_revoke_chain_def
      sql_revoke_all_for_user_def)

lemma live_create:
  assumes "token_repo_create pool_tokens c w = (x, w')" "world_quiet w" "world_known w (tc_user_id c)"
    and "\<forall>t\<in>set (world_tokens w). t_token_hash t \<noteq> tc_token_hash c"
  shows "\<exists>t. x = Inr t"
proof -
  have "\<not> list_ex (\<lambda>t. tr_id t = db_uuid_at w (tick w) \<or> tr_token_hash t = tc_token_hash c)
      (tokens_tbl (db w))"
    using assms(2,4) by (auto simp: world_quiet_def world_tokens_def list_ex_iff)
  moreover have "list_ex (\<lambda>u. ur_id u = tc_user_id c) (users_tbl (db w))"
    using assms(3) by (auto simp: world_known_def world_users_def list_ex_iff)
  ultimately show ?thesis
    using assms(1,2)
    by (auto simp: token_repo_defs run_stmt_quiet stmt_out_def sql_create_refresh_token_def Let_def)
qed

interpretation live: live_store "as_refresh_token_repo pool_tokens" world_tokens world_ok ts_store
    world_quiet world_known
proof (unfold_locales, goal_cases)
  case (1 w)
  then show ?case by (rule world_quiet_next_tick)
next
  case (2 w)
  show ?case by (rule world_known_view) simp
next
  case (3 h w x w')
  then show ?case using live_get [of h w x w'] by (simp add: as_refresh_token_repo_def)
next
  case (4 i w y w')
  then show ?case using live_revoke [of i w y w'] by (simp add: as_refresh_token_repo_def)
next
  case (5 c w y w')
  then show ?case using live_revoke_many(1) [of c w y w'] by (simp add: as_refresh_token_repo_def)
next
  case (6 i w y w')
  then show ?case using live_revoke_many(2) [of i w y w'] by (simp add: as_refresh_token_repo_def)
next
  case (7 c w x w')
  then show ?case using live_create [of c w x w'] by (simp add: as_refresh_token_repo_def)
qed

subsection \<open>The user store\<close>

definition world_quiet_users :: "world \<Rightarrow> bool" where
  "world_quiet_users w \<longleftrightarrow> (\<forall>k\<ge>tick w. fault_at w k = None) \<and>
     (\<forall>k\<ge>tick w. \<forall>u\<in>set (users_tbl (db w)). ur_id u \<noteq> db_uuid_at w k)"

lemma run_stmt_quiet_users:
  "world_quiet_users w \<Longrightarrow> run_stmt \<lparr>q_db = On_Pool\<rparr> st w =
     (fst (stmt_out st w), (next_tick w)\<lparr>db := snd (stmt_out st w)\<rparr>)"
  by (simp add: run_stmt_def run_on_pool_def world_quiet_users_def)

lemma world_quiet_users_next:
  "world_quiet_users w \<Longrightarrow> users_tbl d = users_tbl (db w) \<Longrightarrow>
     world_quiet_users ((next_tick w)\<lparr>db := d\<rparr>)"
  by (simp add: world_quiet_users_def next_tick_def)

lemma live_create_user:
  assumes "user_repo_create pool_users c w = (Inl e, w')" "world_quiet_users w"
  shows "e = unique_violation \<and> (\<exists>v\<in>set (world_users w). u_email v = uc_email c)"
  using assms
  by (auto simp: user_repo_defs run_stmt_quiet_users stmt_out_def sql_create_user_def Let_def
      world_quiet_users_def list_ex_iff world_users_def split: sum.splits if_splits)

lemma live_list_users:
  assumes "user_repo_list pool_users inp w = (x, w')" "world_quiet_users w" "0 \<le> sint (lui_limit inp)"
  shows "world_quiet_users w' \<and> ts_store w' = ts_store w \<and> (\<exists>us. x = Inr us)"
proof -
  have "lup_max_rows (list_params inp) = lui_limit inp"
    by (simp add: list_params_def split: option.split)
  then show ?thesis
    using assms
    by (auto simp: user_repo_defs run_stmt_quiet_users stmt_out_def sql_list_users_def Let_def
        world_quiet_users_next split: sum.splits if_splits)
qed

lemma live_read_user:
  "user_repo_get_by_id pool_users i w = (Inl e, w') \<Longrightarrow> world_quiet_users w \<Longrightarrow> e = Err_No_Rows"
  "user_repo_get_by_email pool_users a w = (Inl e, w') \<Longrightarrow> world_quiet_users w \<Longrightarrow> e = Err_No_Rows"
  by (auto simp: user_repo_defs run_stmt_quiet_users stmt_out_def sql_get_user_by_id_def
      sql_get_user_by_email_def split: sum.splits option.splits)

lemma live_write_user:
  "user_repo_update pool_users i p w = (Inl e, w') \<Longrightarrow> world_quiet_users w \<Longrightarrow>
     e = Err_No_Rows \<or> e = unique_violation"
  "user_repo_delete pool_users i w = (d, w') \<Longrightarrow> world_quiet_users w \<Longrightarrow> d = None"
  by (auto simp: user_repo_defs run_stmt_quiet_users stmt_out_def sql_update_user_def
      sql_delete_user_def Let_def split: sum.splits option.splits if_splits)

interpretation live_user: live_users "as_user_repo pool_users" world_users world_ok ts_store
    world_quiet_users
proof (unfold_locales, goal_cases)
  case (1 w)
  then show ?case using world_quiet_users_next [of w "db w"] by (simp add: next_tick_def)
next
  case (2 c w e w')
  then show ?case using live_create_user [of c w e w'] by (simp add: as_user_repo_def unique_violation_def)
next
  case (3 i w e w')
  then show ?case using live_read_user(1) [of i w e w'] by (simp add: as_user_repo_def)
next
  case (4 a w e w')
  then show ?case using live_read_user(2) [of a w e w'] by (simp add: as_user_repo_def)
next
  case (5 inp w ls w')
  then show ?case
    using live_list_users [of inp w ls w'] user_repo_steps(4) by (simp add: as_user_repo_def)
next
  case (6 i p w e w')
  then show ?case
    using live_write_user(1) [of i p w e w'] by (auto simp: as_user_repo_def unique_violation_def)
next
  case (7 i w d w')
  then show ?case using live_write_user(2) [of i w d w'] by (simp add: as_user_repo_def)
qed

end
