(* ===== verification/Auth_Live.thy ===== *)
theory Auth_Live
  imports Live_Store Sessions
begin

section \<open>What the authentication operations answer while nothing fails\<close>

text \<open>
  Inside \<open>live_store\<close>: the answer of \<open>Refresh\<close> for each state of the presented token,
  so that a live token is exchanged and is not merely never refused for a wrong reason, and
  the success of \<open>Logout\<close>, \<open>LogoutAll\<close> and of issuing a pair.
\<close>

definition minted_at :: "'d env_scheme \<Rightarrow> nat \<Rightarrow> string" where
  "minted_at w k = b64url_encode (map (entropy_at w k) [0..<refresh_token_bytes])"

text \<open>From now on the random source answers, and what it answers hashes to no stored digest.\<close>

definition mint_ready :: "'d env_scheme \<Rightarrow> refresh_token list \<Rightarrow> bool" where
  "mint_ready w ts \<longleftrightarrow> (\<forall>k\<ge>tick w. entropy_fault_at w k = None \<and>
     (\<forall>t\<in>set ts. t_token_hash t \<noteq> hash_refresh_token (minted_at w k)))"

definition can_sign :: "jwt_lib \<Rightarrow> signer \<Rightarrow> uuid \<Rightarrow> uuid \<Rightarrow> bool" where
  "can_sign J sg u c \<longleftrightarrow> (\<forall>now. \<exists>tok.
     jl_signed_string J signing_method_hs256 (sign_claims J sg u c now) (sg_secret sg) = Inr tok)"

lemma can_sign_ok: "can_sign J sg u c \<Longrightarrow> \<exists>tok. signer_sign J sg u c w = (Inr tok, next_tick w)"
  by (auto simp: can_sign_def signer_sign_def time_now_def split: sum.split)
    (metis sum.distinct(1))

lemma mint_ready_step:
  "mint_ready w ts \<Longrightarrow> env_step w w' \<Longrightarrow> map t_token_hash ts' = map t_token_hash ts \<Longrightarrow> mint_ready w' ts'"
  unfolding mint_ready_def env_step_def minted_at_def
  by (metis (no_types, lifting) image_iff image_set order_trans)

context live_store
begin

lemma issue_lives:
  assumes "as_refresh_tokens s = R" "quiet w" "known w u" "mint_ready w (toks w)"
    and "can_sign J (as_signer s) u c"
  shows "\<exists>access plain w'. issue_refresh_and_access J s u c w = (Inr (access, plain), w')"
proof -
  let ?p = "minted_at w (tick w)" and ?w2 = "next_tick (next_tick w)"
  let ?c = "\<lparr>tc_user_id = u, tc_token_hash = hash_refresh_token ?p, tc_chain_id = c,
    tc_expires_at = clock_at w (Suc (tick w)) + as_refresh_ttl s\<rparr>"
  have gen: "generate_refresh_token w = (Inr ?p, next_tick w)"
    using assms(4) by (simp add: generate_refresh_token_Inr mint_ready_def minted_at_def
        refresh_token_bytes_def)
  obtain x w3 where cr: "rt_create R ?c ?w2 = (x, w3)" by fastforce
  have "\<exists>t. x = Inr t"
    using quiet_create [OF cr] assms(2-4)
    by (simp add: quiet_next_tick known_next_tick toks_next_tick mint_ready_def)
  moreover obtain tok where "signer_sign J (as_signer s) u c w3 = (Inr tok, next_tick w3)"
    using can_sign_ok [OF assms(5)] by blast
  ultimately show ?thesis
    using gen cr assms(1) by (auto simp: issue_refresh_and_access_def time_now_def)
qed

lemma refresh_answers:
  assumes "as_refresh_tokens s = R" "ok w" "quiet w"
  shows "\<forall>t\<in>set (toks w). t_token_hash t \<noteq> hash_refresh_token p \<Longrightarrow>
      fst (auth_refresh J s p w) = Inl Err_Refresh_Token_Revoked"
    and "t \<in> set (toks w) \<Longrightarrow> t_token_hash t = hash_refresh_token p \<Longrightarrow> \<not> active t \<Longrightarrow>
      fst (auth_refresh J s p w) = Inl Err_Refresh_Token_Reuse"
    and "t \<in> set (toks w) \<Longrightarrow> t_token_hash t = hash_refresh_token p \<Longrightarrow> active t \<Longrightarrow>
      \<forall>k\<ge>tick w. t_expires_at t < clock_at w k \<Longrightarrow>
      fst (auth_refresh J s p w) = Inl Err_Refresh_Token_Expired"
    and "t \<in> set (toks w) \<Longrightarrow> t_token_hash t = hash_refresh_token p \<Longrightarrow> active t \<Longrightarrow>
      \<forall>k\<ge>tick w. clock_at w k \<le> t_expires_at t \<Longrightarrow> known w (t_user_id t) \<Longrightarrow>
      mint_ready w (toks w) \<Longrightarrow> can_sign J (as_signer s) (t_user_id t) (t_chain_id t) \<Longrightarrow>
      \<exists>access plain. fst (auth_refresh J s p w) = Inr (access, plain)"
proof -
  obtain x w1 where get: "rt_get_by_hash R (hash_refresh_token p) w = (x, w1)" by fastforce
  note g = get_step [OF get] and q = quiet_get [OF get assms(3)]
  have None: "\<exists>e. x = Inl e \<and> errors_is e Err_No_Rows"
    if "\<forall>t\<in>set (toks w). t_token_hash t \<noteq> hash_refresh_token p"
    using that q get get_Inr by (cases x) blast+
  have Some: "x = Inr t" if "t \<in> set (toks w)" "t_token_hash t = hash_refresh_token p" for t
  proof (cases x)
    case (Inl e)
    with q get get_Inl that show ?thesis by blast
  next
    case (Inr row)
    with get_Inr get have "row \<in> set (toks w)" "t_token_hash row = hash_refresh_token p" by auto
    with that ok_hashes [OF assms(2)] have "row = t" by (auto intro: distinct_map_inj)
    with Inr show ?thesis by simp
  qed
  show "fst (auth_refresh J s p w) = Inl Err_Refresh_Token_Revoked"
    if "\<forall>t\<in>set (toks w). t_token_hash t \<noteq> hash_refresh_token p"
    using None [OF that] get assms(1) by (auto simp: auth_refresh_def)
  show "fst (auth_refresh J s p w) = Inl Err_Refresh_Token_Reuse"
    if t: "t \<in> set (toks w)" "t_token_hash t = hash_refresh_token p" "\<not> active t"
  proof -
    obtain y w2 where rc: "rt_revoke_chain R (t_chain_id t) w1 = (y, w2)" by fastforce
    with quiet_chain q have "y = None" by blast
    with rc Some [OF t(1,2)] get assms(1) t(3) show ?thesis
      by (auto simp: auth_refresh_def active_def)
  qed
  show "fst (auth_refresh J s p w) = Inl Err_Refresh_Token_Expired"
    if t: "t \<in> set (toks w)" "t_token_hash t = hash_refresh_token p" "active t"
      "\<forall>k\<ge>tick w. t_expires_at t < clock_at w k"
    using Some [OF t(1,2)] get assms(1) t(3,4) g
    by (auto simp: auth_refresh_def active_def time_now_def env_step_def)
  show "\<exists>access plain. fst (auth_refresh J s p w) = Inr (access, plain)"
    if t: "t \<in> set (toks w)" "t_token_hash t = hash_refresh_token p" "active t"
      "\<forall>k\<ge>tick w. clock_at w k \<le> t_expires_at t" and kn: "known w (t_user_id t)"
      and mint: "mint_ready w (toks w)" and sign: "can_sign J (as_signer s) (t_user_id t) (t_chain_id t)"
  proof -
    obtain y w3 where rv: "rt_revoke R (t_id t) (next_tick w1) = (y, w3)" by fastforce
    have w3: "y = None" "quiet w3" "known w3 = known w"
      using quiet_revoke [OF rv] q by (simp_all add: quiet_next_tick known_next_tick)
    obtain now where toks3: "toks w3 = revoke_tokens (\<lambda>u. t_id u = t_id t) now (toks w)"
      using revoke_None [OF rv [unfolded w3(1)]] g by (auto simp: toks_next_tick)
    have "env_step w w3"
      using revoke_step [OF rv] g env_step_trans env_step_next_tick by blast
    then have "mint_ready w3 (toks w3)"
      by (intro mint_ready_step [OF mint]) (simp_all add: toks3)
    with issue_lives [OF assms(1) w3(2) _ _ sign] kn w3(3) obtain a pl w4 where
      "issue_refresh_and_access J s (t_user_id t) (t_chain_id t) w3 = (Inr (a, pl), w4)" by auto
    moreover have "\<not> t_expires_at t < clock_at w1 (tick w1)"
      using g t(4) by (auto simp: env_step_def not_less)
    ultimately show ?thesis
      using Some [OF t(1,2)] get assms(1) t(3) rv w3(1)
      by (auto simp: auth_refresh_def active_def time_now_def)
  qed
qed

text \<open>Presenting a revoked token ends its chain.\<close>

lemma reuse_ends_chain:
  assumes "as_refresh_tokens s = R" "ok w" "quiet w" "row \<in> set (toks w)" "t_token_hash row = hash_refresh_token p"
    and "\<not> active row" "auth_refresh J s p w = (r, w')"
  shows "r = Inl Err_Refresh_Token_Reuse
    \<and> (\<exists>now. toks w' = revoke_tokens (\<lambda>t. t_chain_id t = t_chain_id row) now (toks w))"
proof -
  have r: "r = Inl Err_Refresh_Token_Reuse"
    using refresh_answers(2) [OF assms(1-6)] assms(7) by (metis fst_conv)
  have same: "row' = row" if "row' \<in> set (toks w)" "t_token_hash row' = hash_refresh_token p" for row'
    using ok_hashes [OF assms(2)] that assms(4,5) by (auto intro: distinct_map_inj)
  from assms(7,1) show ?thesis
    unfolding r by (cases rule: refresh_cases) (use same assms(6) in \<open>auto elim!: issue_cases [OF _ assms(1)]\<close>)
qed

lemma logout_answers:
  assumes "as_refresh_tokens s = R" "quiet w"
  shows "fst (auth_logout s p w) = None"
proof -
  obtain x w1 where get: "rt_get_by_hash R (hash_refresh_token p) w = (x, w1)" by fastforce
  note q = quiet_get [OF get assms(2)]
  show ?thesis
  proof (cases x)
    case (Inl e)
    with q get assms(1) show ?thesis by (simp add: auth_logout_def)
  next
    case (Inr row)
    obtain y w2 where rv: "rt_revoke R (t_id row) w1 = (y, w2)" by fastforce
    with quiet_revoke q have "y = None" by blast
    with Inr rv get assms(1) show ?thesis by (simp add: auth_logout_def)
  qed
qed

lemma logout_all_answers:
  assumes "as_refresh_tokens s = R" "quiet w"
  shows "fst (auth_logout_all s u w) = None"
proof -
  obtain y w1 where rv: "rt_revoke_all_for_user R u w = (y, w1)" by fastforce
  with quiet_user assms(2) have "y = None" by blast
  with rv assms(1) show ?thesis by (simp add: auth_logout_all_def)
qed

end

text \<open>\<open>Login\<close>: the one error for an unknown address and for a wrong password, and success
  for the right password.\<close>

context live_stores
begin

lemma login_answers:
  assumes "as_refresh_tokens s = R" "as_users s = U" "ok w" "quiet w"
  shows "\<forall>u\<in>set (usrs w). u_email u = email \<longrightarrow> bc_compare B (u_password_hash u) pw \<noteq> None \<Longrightarrow>
      fst (auth_login J B s email pw w) = Inl Err_Invalid_Credentials"
    and "u \<in> set (usrs w) \<Longrightarrow> u_email u = email \<Longrightarrow> bc_compare B (u_password_hash u) pw = None \<Longrightarrow>
      mint_ready w (toks w) \<Longrightarrow> \<forall>c. can_sign J (as_signer s) (u_id u) c \<Longrightarrow>
      \<exists>access plain. fst (auth_login J B s email pw w) = Inr (access, plain)"
proof -
  obtain x w1 where get: "au_get_by_email U email w = (x, w1)" by fastforce
  note g = lookup_step [OF get] lookup_tokens [OF get] and q = quiet_lookup [OF get assms(4)]
  show "fst (auth_login J B s email pw w) = Inl Err_Invalid_Credentials"
    if none: "\<forall>u\<in>set (usrs w). u_email u = email \<longrightarrow> bc_compare B (u_password_hash u) pw \<noteq> None"
  proof (cases x)
    case (Inl e)
    with q get assms(2) show ?thesis by (simp add: auth_login_def)
  next
    case (Inr u)
    with lookup_Inr get none obtain e where "bc_compare B (u_password_hash u) pw = Some e" by blast
    with Inr get assms(2) show ?thesis by (simp add: auth_login_def)
  qed
  show "\<exists>access plain. fst (auth_login J B s email pw w) = Inr (access, plain)"
    if u: "u \<in> set (usrs w)" "u_email u = email" "bc_compare B (u_password_hash u) pw = None"
      and mint: "mint_ready w (toks w)" and sign: "\<forall>c. can_sign J (as_signer s) (u_id u) c"
  proof -
    have x: "x = Inr u"
    proof (cases x)
      case (Inl e)
      with q get lookup_Inl u show ?thesis by blast
    next
      case (Inr v)
      with lookup_Inr get have "v \<in> set (usrs w)" "u_email v = email" by auto
      with u ok_unique_email [OF assms(3)] have "v = u" by (auto intro: distinct_map_inj)
      with Inr show ?thesis by simp
    qed
    have "env_step w (next_tick w1)" using g env_step_trans env_step_next_tick by blast
    then have "mint_ready (next_tick w1) (toks (next_tick w1))"
      using g by (intro mint_ready_step [OF mint]) (simp_all add: toks_next_tick)
    moreover have "quiet (next_tick w1)" "known (next_tick w1) (u_id u)"
      using q u(1) known_users [of w] by (simp_all add: quiet_next_tick known_next_tick)
    ultimately obtain a p w' where
      "issue_refresh_and_access J s (u_id u) (uuid_at w1 (tick w1)) (next_tick w1) = (Inr (a, p), w')"
      using issue_lives [OF assms(1) _ _ _ sign [rule_format]] by blast
    with x get u assms(2) show ?thesis by (simp add: auth_login_def uuid_new_def)
  qed
qed

end

interpretation live_auth: live_stores "as_refresh_token_repo pool_tokens" world_tokens world_ok
    ts_store "as_auth_user_repo pool_users" world_users world_quiet world_known
proof (unfold_locales, goal_cases)
  case (1 e w x w')
  then have "user_repo_get_by_email pool_users e w = (x, w')" by (simp add: as_auth_user_repo_def)
  with 1 show ?case
    by (auto simp: user_repo_defs run_stmt_quiet stmt_out_def sql_get_user_by_email_def
        intro!: world_quiet_next world_known_view split: option.splits sum.splits)
next
  case (2 w)
  then show ?case by (simp add: world_ok_def db_ok_def view_keys)
next
  case (3 w i)
  then show ?case by (simp add: world_known_def)
qed

subsection \<open>The service as server.NewServer builds it\<close>

definition pool_auth_service :: "signer \<Rightarrow> duration \<Rightarrow> world auth_service" where
  "pool_auth_service sg ttl =
     (let repos = new_repositories On_Pool
      in new_auth_service (as_auth_user_repo (reps_users repos))
           (as_refresh_token_repo (reps_refresh_tokens repos)) sg ttl)"

lemma pool_auth_service_sel [simp]:
  "as_users (pool_auth_service sg ttl) = as_auth_user_repo pool_users"
  "as_refresh_tokens (pool_auth_service sg ttl) = as_refresh_token_repo pool_tokens"
  "as_signer (pool_auth_service sg ttl) = sg" "as_refresh_ttl (pool_auth_service sg ttl) = ttl"
  by (simp_all add: pool_auth_service_def new_auth_service_def Let_def)

end
