(* ===== verification/Paging.thy ===== *)
theory Paging
  imports Models "HOL-Library.Multiset"
begin

section \<open>Keyset pagination\<close>

text \<open>
  The list of users in the order of the pages, newest first, and what cutting it at the key of
  its \<open>n\<close>-th element leaves: exactly the rest. So pages taken one after another, each after the
  key of the last user of the one before, neither repeat a user nor miss one.
\<close>

lemma set_ordered_users [simp]: "set (ordered_users us) = set us"
  by (simp add: ordered_users_def)

lemma length_ordered_users [simp]: "length (ordered_users us) = length us"
  by (simp add: ordered_users_def)

lemma mset_ordered_users: "distinct (map u_id (ordered_users us)) = distinct (map u_id us)"
proof -
  have "mset (map u_id (ordered_users us)) = mset (map u_id us)"
    by (simp add: ordered_users_def)
  then show ?thesis by (metis mset_eq_imp_distinct_iff)
qed

lemma ordered_users_filter: "ordered_users (filter P us) = filter P (ordered_users us)"
  by (simp add: ordered_users_def filter_sort flip: rev_filter)

definition newer :: "user \<Rightarrow> user \<Rightarrow> bool" where
  "newer a b \<longleftrightarrow> user_key b < user_key a"

lemma user_key_eq: "user_key a = user_key b \<longleftrightarrow> u_created_at a = u_created_at b \<and> u_id a = u_id b"
  by (simp add: user_key_def)

lemma ordered_users_desc:
  assumes "distinct (map u_id us)"
  shows "sorted_wrt newer (ordered_users us)"
proof -
  let ?xs = "sort_key user_key us"
  have ids: "distinct (map u_id ?xs)"
    using assms mset_eq_imp_distinct_iff [of "map u_id ?xs" "map u_id us"] by simp
  have "inj_on user_key (set ?xs)"
    using ids by (auto simp: inj_on_def user_key_eq distinct_map)
  then have "distinct (map user_key ?xs)" using ids by (simp add: distinct_map)
  then have "sorted_wrt (<) (map user_key ?xs)" by (simp add: strict_sorted_iff)
  then show ?thesis by (simp add: ordered_users_def sorted_wrt_rev sorted_wrt_map newer_def)
qed

lemma cut_sorted:
  assumes "sorted_wrt newer xs" and "0 < n" and "n \<le> length xs"
  shows "filter (\<lambda>u. user_key u < user_key (xs ! (n - 1))) xs = drop n xs"
proof -
  let ?k = "user_key (xs ! (n - 1))"
  have "\<not> user_key u < ?k" if "u \<in> set (take n xs)" for u
  proof -
    from that obtain i where i: "i < n" "u = xs ! i"
      using assms(3) by (auto simp: in_set_conv_nth)
    show ?thesis
    proof (cases "i = n - 1")
      case False
      with i have "newer u (xs ! (n - 1))"
        using assms by (auto intro: sorted_wrt_nth_less)
      then show ?thesis by (simp add: newer_def)
    qed (simp add: i)
  qed
  moreover have "user_key u < ?k" if "u \<in> set (drop n xs)" for u
  proof -
    from that obtain j where "j < length xs - n" "u = xs ! (n + j)"
      by (auto simp: in_set_conv_nth)
    then have "newer (xs ! (n - 1)) u"
      using assms by (auto intro: sorted_wrt_nth_less)
    then show ?thesis by (simp add: newer_def)
  qed
  ultimately have "filter (\<lambda>u. user_key u < ?k) (take n xs @ drop n xs) = drop n xs"
    unfolding filter_append by (simp add: filter_False filter_id_conv)
  then show ?thesis by simp
qed

lemma after_cursor_Some: "after_cursor (Some c) = (\<lambda>u. user_key u < cursor_key c)"
  by (auto simp: after_cursor_def)

definition cursor_of :: "user \<Rightarrow> page_cursor" where
  "cursor_of u = \<lparr>pc_created_at = u_created_at u, pc_id = u_id u\<rparr>"

lemma cursor_key_of [simp]: "cursor_key (cursor_of u) = user_key u"
  by (simp add: cursor_key_def cursor_of_def user_key_def)

text \<open>What is left after a full page, as the page after its last user sees it.\<close>

lemma rest_after_page:
  fixes us c n
  defines "R \<equiv> ordered_users (filter (after_cursor c) us)"
  assumes "distinct (map u_id us)" and "0 < n" and "n \<le> length R"
  shows "ordered_users (filter (after_cursor (Some (cursor_of (R ! (n - 1))))) us) = drop n R"
proof -
  let ?l = "R ! (n - 1)"
  have "?l \<in> set R" using assms(3,4) by (intro nth_mem) simp
  then have "after_cursor c ?l" by (simp add: R_def)
  then have "after_cursor c u" if "user_key u < user_key ?l" for u
    using that by (auto simp: after_cursor_def split: option.splits)
  then have "filter (\<lambda>u. user_key u < user_key ?l) (ordered_users us) = filter (\<lambda>u. user_key u < user_key ?l) R"
    unfolding R_def ordered_users_filter filter_filter by (intro filter_cong refl) blast
  moreover have "distinct (map u_id (filter (after_cursor c) us))"
    using assms(2) by (rule distinct_map_filter)
  then have "sorted_wrt newer R" unfolding R_def by (rule ordered_users_desc)
  ultimately show ?thesis
    using cut_sorted [of R n] assms(3,4) by (simp add: ordered_users_filter after_cursor_Some)
qed

end
