(* ===== verification/User_Service.thy ===== *)
theory User_Service
  imports Live_Store Paging
begin

section \<open>The user service (internal/services/user\_service.go)\<close>

text \<open>
  \<open>Create\<close>, \<open>Get\<close>, \<open>GetByEmail\<close>, \<open>List\<close>, \<open>Update\<close> and
  \<open>Delete\<close> over the repository interface \<open>userRepo\<close>: hashing of passwords, clamping of
  the page size, translation of repository errors into the package's sentinels.

  The lemmas are proved inside \<open>user_store\<close> (whatever fails) and \<open>live_users\<close> (while
  nothing does); the last part shows that following \<open>NextCursor\<close> enumerates all users.
\<close>

record 'w user_service =
  usv_repo :: "'w user_repo"

definition new_user_service :: "'w user_repo \<Rightarrow> 'w user_service" where
  "new_user_service repo = \<lparr>usv_repo = repo\<rparr>"

record create_user_input =
  cui_email :: string
  cui_password :: string
  cui_name :: string

record update_user_input =
  uui_email :: "string option"
  uui_password :: "string option"
  uui_name :: "string option"

record list_result =
  lr_users :: "user list"
  lr_next_cursor :: "page_cursor option"

definition is_unique_violation :: "go_error \<Rightarrow> bool" where
  "is_unique_violation err =
     (case errors_as_pg err of Some code \<Rightarrow> code = ''23505'' | None \<Rightarrow> False)"

definition bcrypt_default_cost :: nat where
  "bcrypt_default_cost = 10"

text \<open>\<open>GenerateFromPassword\<close> draws its salt from the random source.\<close>

definition hash_password ::
    "bcrypt_lib \<Rightarrow> string \<Rightarrow> 'd env_scheme \<Rightarrow> (go_error + string) \<times> 'd env_scheme" where
  "hash_password B password w = (bc_generate B (tick w) bcrypt_default_cost password, next_tick w)"

definition user_service_create ::
    "bcrypt_lib \<Rightarrow> ('d env_scheme) user_service \<Rightarrow> create_user_input \<Rightarrow> 'd env_scheme
      \<Rightarrow> (go_error + user) \<times> 'd env_scheme" where
  "user_service_create B s inp w =
     (case hash_password B (cui_password inp) w of
        (Inl err, w1) \<Rightarrow> (Inl (Wrapf ''hash password'' err), w1)
      | (Inr hash, w1) \<Rightarrow>
          (case us_create (usv_repo s)
                  \<lparr>uc_email = cui_email inp, uc_password_hash = hash, uc_name = cui_name inp\<rparr> w1 of
             (Inl err, w2) \<Rightarrow>
               (Inl (if is_unique_violation err then Err_Email_Already_Exists
                     else Wrapf ''create user'' err), w2)
           | (Inr usr, w2) \<Rightarrow> (Inr usr, w2)))"

definition user_service_get ::
    "('d env_scheme) user_service \<Rightarrow> uuid \<Rightarrow> 'd env_scheme \<Rightarrow> (go_error + user) \<times> 'd env_scheme" where
  "user_service_get s i w =
     (case us_get_by_id (usv_repo s) i w of
        (Inl err, w1) \<Rightarrow>
          (Inl (if errors_is err Err_No_Rows then Err_User_Not_Found
                else Wrapf ''get user'' err), w1)
      | (Inr usr, w1) \<Rightarrow> (Inr usr, w1))"

definition user_service_get_by_email ::
    "('d env_scheme) user_service \<Rightarrow> string \<Rightarrow> 'd env_scheme \<Rightarrow> (go_error + user) \<times> 'd env_scheme" where
  "user_service_get_by_email s email w =
     (case us_get_by_email (usv_repo s) email w of
        (Inl err, w1) \<Rightarrow>
          (Inl (if errors_is err Err_No_Rows then Err_User_Not_Found
                else Wrapf ''get user by email'' err), w1)
      | (Inr usr, w1) \<Rightarrow> (Inr usr, w1))"

definition clamp_limit :: "int32 \<Rightarrow> int32" where
  "clamp_limit limit =
     (let l = if sint limit \<le> 0 then 20 else limit
      in if sint l \<le> sint (100 :: int32) then l else 100)"

definition user_service_list ::
    "('d env_scheme) user_service \<Rightarrow> int32 \<Rightarrow> page_cursor option \<Rightarrow> 'd env_scheme
      \<Rightarrow> (go_error + list_result) \<times> 'd env_scheme" where
  "user_service_list s limit cursor w =
     (let limit = clamp_limit limit in
      case us_list (usv_repo s) \<lparr>lui_limit = limit, lui_cursor = cursor\<rparr> w of
        (Inl err, w1) \<Rightarrow> (Inl (Wrapf ''list users'' err), w1)
      | (Inr users, w1) \<Rightarrow>
          (Inr \<lparr>lr_users = users,
             lr_next_cursor =
               (if int (length users) = sint limit
                then let l = users ! (length users - 1)
                     in Some \<lparr>pc_created_at = u_created_at l, pc_id = u_id l\<rparr>
                else None)\<rparr>, w1))"

definition user_service_update ::
    "bcrypt_lib \<Rightarrow> ('d env_scheme) user_service \<Rightarrow> uuid \<Rightarrow> update_user_input \<Rightarrow> 'd env_scheme
      \<Rightarrow> (go_error + user) \<times> 'd env_scheme" where
  "user_service_update B s i inp w =
     (case (case uui_password inp of
              None \<Rightarrow> (Inr None, w)
            | Some pw \<Rightarrow>
                (case hash_password B pw w of
                   (Inl err, w1) \<Rightarrow> (Inl err, w1) | (Inr hash, w1) \<Rightarrow> (Inr (Some hash), w1))) of
        (Inl err, w1) \<Rightarrow> (Inl (Wrapf ''hash password'' err), w1)
      | (Inr hash, w1) \<Rightarrow>
          (case us_update (usv_repo s) i
                  \<lparr>uu_email = uui_email inp, uu_password_hash = hash, uu_name = uui_name inp\<rparr> w1 of
             (Inl err, w2) \<Rightarrow>
               (Inl (if errors_is err Err_No_Rows then Err_User_Not_Found
                     else if is_unique_violation err then Err_Email_Already_Exists
                     else Wrapf ''update user'' err), w2)
           | (Inr usr, w2) \<Rightarrow> (Inr usr, w2)))"

definition user_service_delete ::
    "('d env_scheme) user_service \<Rightarrow> uuid \<Rightarrow> 'd env_scheme \<Rightarrow> go_error option \<times> 'd env_scheme" where
  "user_service_delete s i w =
     (case us_delete (usv_repo s) i w of
        (Some err, w1) \<Rightarrow> (Some (Wrapf ''delete user'' err), w1)
      | (None, w1) \<Rightarrow> (None, w1))"

lemma is_unique_violation_iff [simp]: "is_unique_violation e \<longleftrightarrow> errors_as_pg e = Some ''23505''"
  by (auto simp: is_unique_violation_def split: option.split)

lemma clamp_limit_range: "1 \<le> sint (clamp_limit l) \<and> sint (clamp_limit l) \<le> 100"
  by (auto simp: clamp_limit_def Let_def)

lemma clamp_limit_id: "1 \<le> sint l \<Longrightarrow> sint l \<le> 100 \<Longrightarrow> clamp_limit l = l"
  by (simp add: clamp_limit_def)

subsection \<open>Each operation\<close>

context user_store
begin

lemma user_create_cases:
  assumes "user_service_create B s inp w = (r, w')" and "usv_repo s = U"
  obtains (created) u h where "r = Inr u" "usrs w' = usrs w @ [u]" "u_email u = cui_email inp"
      "u_name u = cui_name inp" "u_password_hash u = h"
      "bc_generate B (tick w) bcrypt_default_cost (cui_password inp) = Inr h"
      "\<forall>v\<in>set (usrs w). u_email v \<noteq> cui_email inp"
  | (taken) "r = Inl Err_Email_Already_Exists" "usrs w' = usrs w"
  | (failed) m e where "r = Inl (Wrapf m e)"
proof (cases "bc_generate B (tick w) bcrypt_default_cost (cui_password inp)")
  case (Inl e)
  with assms show ?thesis by (intro failed) (auto simp: user_service_create_def hash_password_def)
next
  case (Inr h)
  let ?c = "\<lparr>uc_email = cui_email inp, uc_password_hash = h, uc_name = cui_name inp\<rparr>"
  obtain x w2 where cr: "us_create U ?c (next_tick w) = (x, w2)" by fastforce
  show ?thesis
  proof (cases x)
    case (Inr u)
    have "r = Inr u" "w' = w2"
      using assms(1) by (auto simp: user_service_create_def hash_password_def assms(2) cr Inr \<open>bc_generate _ _ _ _ = Inr h\<close>)
    with us_create_Inr [OF cr [unfolded Inr]] us_create_taken [OF cr [unfolded Inr]]
      \<open>bc_generate _ _ _ _ = Inr h\<close> show ?thesis
      by (intro created [of u h]) (auto simp: users_next_tick)
  next
    case (Inl e)
    show ?thesis
    proof (cases "errors_as_pg e = Some ''23505''")
      case True
      with assms cr Inr Inl us_create_dup show ?thesis
        by (intro taken) (auto simp: user_service_create_def hash_password_def users_next_tick)
    next
      case False
      with assms cr Inr Inl show ?thesis
        by (intro failed) (auto simp: user_service_create_def hash_password_def)
    qed
  qed
qed

lemma user_get_cases:
  assumes "user_service_get s i w = (r, w')" and "usv_repo s = U"
  obtains (found) u where "r = Inr u" "u \<in> set (usrs w)" "u_id u = i" "usrs w' = usrs w"
  | (missing) "r = Inl Err_User_Not_Found" "\<forall>u\<in>set (usrs w). u_id u \<noteq> i" "usrs w' = usrs w"
  | (failed) e where "r = Inl (Wrapf ''get user'' e)" "usrs w' = usrs w"
proof -
  obtain x w1 where get: "us_get_by_id U i w = (x, w1)" by fastforce
  with us_get_step have "usrs w1 = usrs w" by blast
  moreover have "w' = w1" "r = (case x of Inr u \<Rightarrow> Inr u | Inl err \<Rightarrow>
      Inl (if errors_is err Err_No_Rows then Err_User_Not_Found else Wrapf ''get user'' err))"
    using assms(1) by (auto simp: user_service_get_def assms(2) get split: sum.splits)
  ultimately show ?thesis
  proof (cases x)
    case (Inr u)
    with \<open>usrs w1 = usrs w\<close> \<open>w' = w1\<close> \<open>r = _\<close> us_get_Inr [OF get [unfolded Inr]] show ?thesis
      by (intro found [of u]) auto
  next
    case (Inl e)
    show ?thesis
    proof (cases "errors_is e Err_No_Rows")
      case True
      with us_get_Inl [OF get [unfolded Inl]] Inl \<open>usrs w1 = usrs w\<close> \<open>w' = w1\<close> \<open>r = _\<close> show ?thesis
        by (intro missing) simp_all
    next
      case False
      with Inl \<open>usrs w1 = usrs w\<close> \<open>w' = w1\<close> \<open>r = _\<close> show ?thesis by (intro failed) simp_all
    qed
  qed
qed

lemma user_update_cases:
  assumes "user_service_update B s i inp w = (r, w')" and "usv_repo s = U"
  obtains (patched) u v now h where "r = Inr u" "v \<in> set (usrs w)" "u_id v = i"
      "u = patch_user \<lparr>uu_email = uui_email inp, uu_password_hash = h, uu_name = uui_name inp\<rparr> now v"
      "case uui_password inp of None \<Rightarrow> h = None
       | Some pw \<Rightarrow> \<exists>x. bc_generate B (tick w) bcrypt_default_cost pw = Inr x \<and> h = Some x"
      "usrs w' = map (\<lambda>v. if u_id v = i then u else v) (usrs w)"
  | (missing) "r = Inl Err_User_Not_Found" "\<forall>u\<in>set (usrs w). u_id u \<noteq> i" "usrs w' = usrs w"
  | (taken) "r = Inl Err_Email_Already_Exists"
  | (failed) m e where "r = Inl (Wrapf m e)"
proof -
  have core: thesis
    if h: "case uui_password inp of None \<Rightarrow> h = None
        | Some pw \<Rightarrow> \<exists>x. bc_generate B (tick w) bcrypt_default_cost pw = Inr x \<and> h = Some x"
      and w1: "usrs w1 = usrs w"
      and run: "us_update U i \<lparr>uu_email = uui_email inp, uu_password_hash = h, uu_name = uui_name inp\<rparr> w1 = (x, w2)"
      and out: "w' = w2" "r = (case x of Inr u \<Rightarrow> Inr u | Inl err \<Rightarrow>
          Inl (if errors_is err Err_No_Rows then Err_User_Not_Found
               else if is_unique_violation err then Err_Email_Already_Exists
               else Wrapf ''update user'' err))" for h w1 x w2
  proof (cases x)
    case (Inr u)
    with us_update_Inr run obtain now v where v: "v \<in> set (usrs w1)" "u_id v = i"
      "u = patch_user \<lparr>uu_email = uui_email inp, uu_password_hash = h, uu_name = uui_name inp\<rparr> now v"
      "usrs w2 = map (\<lambda>v. if u_id v = i then u else v) (usrs w1)" by blast
    with w1 out h Inr show ?thesis by (intro patched [of u v h now]) simp_all
  next
    case (Inl e)
    show ?thesis
    proof (cases "errors_is e Err_No_Rows")
      case True
      with us_update_missing run Inl w1 out show ?thesis by (intro missing) auto
    next
      case False
      with Inl out show ?thesis
        by (cases "is_unique_violation e") (auto intro: taken failed)
    qed
  qed
  show ?thesis
  proof (cases "uui_password inp")
    case None
    obtain x w2 where run: "us_update U i
        \<lparr>uu_email = uui_email inp, uu_password_hash = None, uu_name = uui_name inp\<rparr> w = (x, w2)" by fastforce
    have "user_service_update B s i inp w = (case x of Inr u \<Rightarrow> Inr u | Inl err \<Rightarrow>
        Inl (if errors_is err Err_No_Rows then Err_User_Not_Found
             else if is_unique_violation err then Err_Email_Already_Exists
             else Wrapf ''update user'' err), w2)"
      by (simp add: user_service_update_def None assms(2) run split: sum.split)
    with assms(1) None show ?thesis by (intro core [OF _ refl run]) simp_all
  next
    case (Some pw)
    show ?thesis
    proof (cases "bc_generate B (tick w) bcrypt_default_cost pw")
      case (Inl e)
      with Some assms show ?thesis by (intro failed) (auto simp: user_service_update_def hash_password_def)
    next
      case (Inr h)
      obtain x w2 where run: "us_update U i
          \<lparr>uu_email = uui_email inp, uu_password_hash = Some h, uu_name = uui_name inp\<rparr> (next_tick w) = (x, w2)"
        by fastforce
      have "user_service_update B s i inp w = (case x of Inr u \<Rightarrow> Inr u | Inl err \<Rightarrow>
          Inl (if errors_is err Err_No_Rows then Err_User_Not_Found
               else if is_unique_violation err then Err_Email_Already_Exists
               else Wrapf ''update user'' err), w2)"
        by (simp add: user_service_update_def hash_password_def Some Inr assms(2) run split: sum.split)
      with assms(1) Some Inr show ?thesis by (intro core [OF _ users_next_tick run]) simp_all
    qed
  qed
qed

text \<open>No operation breaks the integrity of the store.\<close>

lemma user_service_ok:
  assumes "ok w" "usv_repo s = U"
  shows "user_service_create B s inp w = (x, w') \<Longrightarrow> ok w'"
    and "user_service_get s i w = (x, w') \<Longrightarrow> ok w'"
    and "user_service_list s l c w = (y, w') \<Longrightarrow> ok w'"
    and "user_service_update B s i inp' w = (x, w') \<Longrightarrow> ok w'"
    and "user_service_delete s i w = (z, w') \<Longrightarrow> ok w'"
  using assms(1)
  by (auto simp: user_service_create_def user_service_get_def user_service_list_def user_service_update_def
      user_service_delete_def hash_password_def assms(2) Let_def users_ok_next_tick
      split: prod.splits sum.splits option.splits
      dest: us_create_ok us_get_step us_list_step us_update_ok us_delete_ok)

lemma user_list_bound:
  assumes "user_service_list s l c w = (Inr res, w')" and "usv_repo s = U"
    and "\<And>k. c = Some k \<Longrightarrow> stamp w (pc_created_at k) = pc_created_at k"
  shows "lr_users res = user_page (nat (sint (clamp_limit l))) c (usrs w) \<and> usrs w' = usrs w
    \<and> lr_next_cursor res = (if length (lr_users res) = nat (sint (clamp_limit l))
         then Some (cursor_of (last (lr_users res))) else None)"
proof -
  let ?i = "\<lparr>lui_limit = clamp_limit l, lui_cursor = c\<rparr>"
  obtain us where run: "us_list U ?i w = (Inr us, w')" and us: "lr_users res = us"
    and nx: "lr_next_cursor res = (if int (length us) = sint (clamp_limit l)
       then let l = us ! (length us - 1) in Some \<lparr>pc_created_at = u_created_at l, pc_id = u_id l\<rparr> else None)"
    using assms(1,2) by (auto simp: user_service_list_def Let_def split: prod.splits sum.splits)
  have "us = user_page (nat (sint (clamp_limit l))) c (usrs w)"
    using us_list_Inr [OF run] assms(3) clamp_limit_range [of l] by simp
  moreover have "int (length us) = sint (clamp_limit l) \<longleftrightarrow> length us = nat (sint (clamp_limit l))"
    using clamp_limit_range [of l] by auto
  moreover have "us \<noteq> []" if "int (length us) = sint (clamp_limit l)"
    using that clamp_limit_range [of l] by auto
  ultimately show ?thesis
    using us nx us_list_step [OF run] by (auto simp: Let_def cursor_of_def last_conv_nth)
qed

end

subsection \<open>Following the cursor\<close>

text \<open>
  A client that asks for the next page with the \<open>NextCursor\<close> of the last one until there is
  none: the users it collects. The first argument bounds the number of requests; running out of
  it is \<open>None\<close>, as is an error.
\<close>

fun fetch_pages ::
    "nat \<Rightarrow> ('d env_scheme) user_service \<Rightarrow> int32 \<Rightarrow> page_cursor option \<Rightarrow> 'd env_scheme
      \<Rightarrow> user list option \<times> 'd env_scheme" where
  "fetch_pages 0 s l c w = (None, w)"
| "fetch_pages (Suc n) s l c w =
     (case user_service_list s l c w of
        (Inl e, w1) \<Rightarrow> (None, w1)
      | (Inr res, w1) \<Rightarrow>
          (case lr_next_cursor res of
             None \<Rightarrow> (Some (lr_users res), w1)
           | Some k \<Rightarrow>
               (case fetch_pages n s l (Some k) w1 of
                  (rest, w2) \<Rightarrow> (map_option (\<lambda>us. lr_users res @ us) rest, w2))))"

context live_users
begin

lemma user_create_live:
  assumes "user_service_create B s inp w = (r, w')" "usv_repo s = U" "quiet w"
  shows "(case bc_generate B (tick w) bcrypt_default_cost (cui_password inp) of
      Inl e \<Rightarrow> r = Inl (Wrapf ''hash password'' e) \<and> usrs w' = usrs w
    | Inr h \<Rightarrow>
        if \<exists>v\<in>set (usrs w). u_email v = cui_email inp
        then r = Inl Err_Email_Already_Exists \<and> usrs w' = usrs w
        else \<exists>u. r = Inr u \<and> usrs w' = usrs w @ [u] \<and> u_email u = cui_email inp
               \<and> u_name u = cui_name inp \<and> u_password_hash u = h)"
proof (cases "bc_generate B (tick w) bcrypt_default_cost (cui_password inp)")
  case (Inl e)
  with assms(1) show ?thesis by (auto simp: user_service_create_def hash_password_def users_next_tick)
next
  case (Inr h)
  let ?c = "\<lparr>uc_email = cui_email inp, uc_password_hash = h, uc_name = cui_name inp\<rparr>"
  obtain x w2 where cr: "us_create U ?c (next_tick w) = (x, w2)" by fastforce
  show ?thesis
  proof (cases x)
    case x: (Inl e)
    have "errors_as_pg e = Some ''23505''" "\<exists>v\<in>set (usrs w). u_email v = cui_email inp"
      using quiet_us_create [OF cr [unfolded x] users_quiet_next [OF assms(3)]]
      by (simp_all add: users_next_tick)
    moreover have "usrs w2 = usrs w"
      using us_create_dup [OF cr [unfolded x]] calculation(1) by (simp add: users_next_tick)
    ultimately show ?thesis
      using assms(1) by (auto simp: user_service_create_def hash_password_def assms(2) cr x Inr)
  next
    case x: (Inr u)
    have "r = Inr u" "w' = w2"
      using assms(1) by (simp_all add: user_service_create_def hash_password_def assms(2) cr x Inr)
    with us_create_Inr [OF cr [unfolded x]] us_create_taken [OF cr [unfolded x]] Inr show ?thesis
      by (auto simp: users_next_tick)
  qed
qed

lemma user_list_live:
  assumes "usv_repo s = U" "quiet w"
  shows "\<exists>res w'. user_service_list s l c w = (Inr res, w') \<and> quiet w' \<and> stamp w' = stamp w \<and> (ok w \<longrightarrow> ok w')"
proof -
  let ?i = "\<lparr>lui_limit = clamp_limit l, lui_cursor = c\<rparr>"
  obtain x w' where run: "us_list U ?i w = (x, w')" by fastforce
  from quiet_us_list [OF run assms(2)] clamp_limit_range [of l] show ?thesis
    by (auto simp: user_service_list_def assms(1) run)
qed

lemma fetch_pages_complete:
  assumes "usv_repo s = U" "ok w" "quiet w"
    and "\<forall>u\<in>set (usrs w). stamp w (u_created_at u) = u_created_at u"
    and "\<And>k. c = Some k \<Longrightarrow> stamp w (pc_created_at k) = pc_created_at k"
    and "length (filter (after_cursor c) (usrs w)) < n"
  shows "fst (fetch_pages n s l c w) = Some (ordered_users (filter (after_cursor c) (usrs w)))"
  using assms(2-)
proof (induction n arbitrary: c w)
  case (Suc n)
  define m where "m = nat (sint (clamp_limit l))"
  define R where "R = ordered_users (filter (after_cursor c) (usrs w))"
  have m: "0 < m" using clamp_limit_range [of l] by (simp add: m_def)
  obtain res w1 where res: "user_service_list s l c w = (Inr res, w1)" and w1: "quiet w1" "stamp w1 = stamp w" "ok w1"
    using user_list_live [OF assms(1), of w l c] Suc.prems(1,2) by auto
  from user_list_bound [OF res assms(1) Suc.prems(4)]
  have page: "lr_users res = take m R" "usrs w1 = usrs w"
    "lr_next_cursor res = (if length (take m R) = m then Some (cursor_of (last (take m R))) else None)"
    by (simp_all add: user_page_def R_def m_def)
  show ?case
  proof (cases "m \<le> length R")
    case False
    with page show ?thesis by (simp add: res R_def [symmetric])
  next
    case True
    let ?l = "R ! (m - 1)"
    let ?k = "cursor_of ?l"
    have last: "last (take m R) = ?l"
      using True m by (subst last_conv_nth) auto
    have "?l \<in> set R" using True m by (intro nth_mem) simp
    then have l: "?l \<in> set (usrs w)" by (simp add: R_def)
    have rest: "ordered_users (filter (after_cursor (Some ?k)) (usrs w)) = drop m R"
      unfolding R_def using rest_after_page [OF ok_user_ids [OF Suc.prems(1)] m] True
      by (simp add: R_def)
    have "length (filter (after_cursor (Some ?k)) (usrs w)) = length R - m"
      using arg_cong [OF rest, of length] by simp
    then have "length (filter (after_cursor (Some ?k)) (usrs w1)) < n"
      using Suc.prems(5) m True page(2) by (simp add: R_def)
    then have "fst (fetch_pages n s l (Some ?k) w1) = Some (drop m R)"
      using Suc.IH [of w1 "Some ?k"] w1 page(2) Suc.prems(3) l rest by (simp add: cursor_of_def)
    with True page last show ?thesis
      by (cases "fetch_pages n s l (Some ?k) w1") (simp add: res R_def [symmetric])
  qed
qed simp

end

subsection \<open>The service as server.NewServer builds it\<close>

definition pool_user_service :: "world user_service" where
  "pool_user_service = new_user_service (as_user_repo (reps_users (new_repositories On_Pool)))"

lemma pool_user_service_sel [simp]: "usv_repo pool_user_service = as_user_repo pool_users"
  by (simp add: pool_user_service_def new_user_service_def)

lemma user_service_delete_effect:
  assumes "world_ok w" and "user_service_delete pool_user_service i w = (None, w')"
  shows "world_users w' = filter (\<lambda>u. u_id u \<noteq> i) (world_users w)
    \<and> world_tokens w' = filter (\<lambda>t. t_user_id t \<noteq> i) (world_tokens w)"
proof -
  from assms(2) have del: "user_repo_delete pool_users i w = (None, w')"
    by (auto simp: user_service_delete_def as_user_repo_def split: prod.splits option.splits)
  note eff = user_repo_delete_effect [OF del]
  have "filter (\<lambda>t. t_user_id t \<noteq> i) (world_tokens w) = world_tokens w" if "db w' = db w"
  proof -
    from that eff(1) have "\<forall>u\<in>set (world_users w). u_id u \<noteq> i"
      using view_same(1) [of w' w] by (metis (mono_tags, lifting) filter_id_conv)
    with assms(1) show ?thesis
      by (fastforce simp: filter_id_conv world_ok_def db_ok_def world_users_def world_tokens_def)
  qed
  with eff show ?thesis
    by (auto simp: world_tokens_def filter_map o_def)
qed

end
