(* ===== verification/Sha256_Vectors.thy ===== *)
theory Sha256_Vectors
  imports Refresh_Secret
begin

section \<open>Known answers\<close>

text \<open>
  The digest of \<open>abc\<close> from FIPS 180-4, and the tokens made of 32 zero bytes and of 32 bytes
  of ones with their digests, computed by the kernel. The concrete states of \<open>Samples\<close> use
  them.
\<close>

definition plain_zeros :: string where
  "plain_zeros = replicate 43 (CHR ''A'')"

definition plain_ones :: string where
  "plain_ones = replicate 42 (CHR ''_'') @ ''8''"

lemma plain_zeros_encode: "b64url_encode (replicate 32 0) = plain_zeros"
  by code_simp

lemma plain_ones_encode: "b64url_encode (replicate 32 255) = plain_ones"
  by code_simp

lemma hash_abc:
  "hash_refresh_token ''abc'' = ''ba7816bf8f01cfea414140de5dae2223b00361a396177a9cb410ff61f20015ad''"
  by code_simp

lemma hash_plain_zeros:
  "hash_refresh_token plain_zeros = ''0f007385b6f9d4b7eeb2748605afe1a984a0a3bfa3f014d09e2a784ce9e5cd1a''"
  by code_simp

lemma hash_plain_ones:
  "hash_refresh_token plain_ones = ''225f7e75329dd45aa354975d73987319309393af3a4c6733bc13601a4f1b8796''"
  by code_simp

lemma hashes_distinct [simp]:
  "hash_refresh_token ''abc'' \<noteq> hash_refresh_token plain_zeros"
  "hash_refresh_token ''abc'' \<noteq> hash_refresh_token plain_ones"
  "hash_refresh_token plain_zeros \<noteq> hash_refresh_token plain_ones"
  by (simp_all add: hash_abc hash_plain_zeros hash_plain_ones)

end
