(* ===== verification/Samples.thy ===== *)
theory Samples
  imports Auth_Live User_Service Sha256_Vectors
begin

section \<open>Concrete instances\<close>

text \<open>
  Concrete values for the parameters of the model, with the proofs that they behave as
  documented, and small concrete states: what the examples that show a property is not
  vacuous are evaluated on. None of this models code.
\<close>

subsection \<open>A token library that keeps its contract\<close>

text \<open>A token is the text of its fields, each preceded by its length in unary; the secret
  is one of them, in place of a signature.\<close>

definition put_str :: "string \<Rightarrow> string" where
  "put_str s = replicate (length s) (CHR ''1'') @ CHR ''0'' # s"

definition get_str :: "string \<Rightarrow> string \<times> string" where
  "get_str xs = (let n = length (takeWhile (\<lambda>c. c = CHR ''1'') xs)
     in (take n (drop (Suc n) xs), drop (Suc n + n) xs))"

lemma get_put_str [simp]: "get_str (put_str s @ r) = (s, r)"
proof -
  have "takeWhile (\<lambda>c. c = CHR ''1'') (replicate n (CHR ''1'') @ CHR ''0'' # s @ r)
      = replicate n (CHR ''1'')" for n
    by (induction n) auto
  then show ?thesis by (simp add: get_str_def put_str_def Let_def)
qed

definition put_int :: "int \<Rightarrow> string" where
  "put_int i = put_str ((if i < 0 then CHR ''-'' else CHR ''+'') # replicate (nat \<bar>i\<bar>) (CHR ''1''))"

definition get_int :: "string \<Rightarrow> int \<times> string" where
  "get_int xs = (case get_str xs of (s, r) \<Rightarrow>
     (if hd s = CHR ''-'' then - int (length (tl s)) else int (length (tl s)), r))"

lemma get_put_int [simp]: "get_int (put_int i @ r) = (i, r)"
  by (simp add: get_int_def put_int_def)

definition put_claims :: "claims \<Rightarrow> string" where
  "put_claims c = put_int (uint (c_user_id c)) @ put_int (uint (c_chain_id c)) @
     put_str (c_subject c) @ put_str (c_issuer c) @ put_int (c_issued_at c) @
     put_int (c_expires_at c) @ put_int (c_not_before c)"

definition get_claims :: "string \<Rightarrow> claims" where
  "get_claims xs =
     (case get_int xs of (u, xs) \<Rightarrow> case get_int xs of (ch, xs) \<Rightarrow>
      case get_str xs of (sub, xs) \<Rightarrow> case get_str xs of (iss, xs) \<Rightarrow>
      case get_int xs of (iat, xs) \<Rightarrow> case get_int xs of (ex, xs) \<Rightarrow>
      case get_int xs of (nbf, xs) \<Rightarrow>
        \<lparr>c_user_id = word_of_int u, c_chain_id = word_of_int ch, c_subject = sub,
         c_issuer = iss, c_issued_at = iat, c_expires_at = ex, c_not_before = nbf\<rparr>)"

lemma get_put_claims [simp]: "get_claims (put_claims c) = c"
proof -
  have "get_int (put_int i) = (i, [])" for i
    using get_put_int [of i "[]"] by simp
  then show ?thesis by (simp add: get_claims_def put_claims_def)
qed

definition sample_numeric_date :: "instant \<Rightarrow> instant" where
  "sample_numeric_date t = t div second * second"

definition sample_sign :: "signing_method \<Rightarrow> claims \<Rightarrow> string \<Rightarrow> go_error + string" where
  "sample_sign m c secret =
     (case m of Method_HMAC alg \<Rightarrow> Inr (put_str alg @ put_str secret @ put_claims c)
      | Method_Other alg \<Rightarrow> Inl (New_Error ''key is of invalid type''))"

definition sample_parse ::
    "parser_options \<Rightarrow> (signing_method \<Rightarrow> go_error + string) \<Rightarrow> instant \<Rightarrow> string \<Rightarrow> go_error + claims" where
  "sample_parse opts key now token =
     (case get_str token of (alg, r) \<Rightarrow> case get_str r of (secret, body) \<Rightarrow>
        let c = get_claims body in
        if alg \<notin> set (po_valid_methods opts) then Inl (New_Error ''signing method is invalid'')
        else case key (Method_HMAC alg) of
          Inl e \<Rightarrow> Inl e
        | Inr k \<Rightarrow>
            if k \<noteq> secret then Inl (New_Error ''signature is invalid'')
            else if c_expires_at c \<le> now then Inl Jwt_Token_Expired
            else if now < c_not_before c \<or> po_issuer opts \<notin> {[], c_issuer c}
            then Inl (New_Error ''token has invalid claims'') else Inr c)"

definition sample_jwt :: jwt_lib where
  "sample_jwt = \<lparr>jl_numeric_date = sample_numeric_date, jl_uuid_string = (\<lambda>u. ''uuid''),
     jl_signed_string = sample_sign, jl_parse = sample_parse\<rparr>"

lemma sample_numeric_date:
  "sample_numeric_date t \<le> t" "t < sample_numeric_date t + second"
  "sample_numeric_date (sample_numeric_date t) = sample_numeric_date t"
proof -
  have "sample_numeric_date t = t - t mod second"
    by (simp add: sample_numeric_date_def minus_mod_eq_div_mult)
  moreover have "0 \<le> t mod second" "t mod second < second" by (simp_all add: second_def)
  ultimately show "sample_numeric_date t \<le> t" "t < sample_numeric_date t + second" by auto
  show "sample_numeric_date (sample_numeric_date t) = sample_numeric_date t"
    by (simp add: sample_numeric_date_def second_def)
qed

lemma sample_jwt_documented: "jwt_documented sample_jwt"
proof -
  have date: "jl_numeric_date sample_jwt = sample_numeric_date" by (simp add: sample_jwt_def)
  have parse: "if po_issuer opts \<in> {[], c_issuer c} \<and> c_not_before c \<le> now \<and> now < c_expires_at c
      then jl_parse sample_jwt opts key now token = Inr c
      else \<exists>e. jl_parse sample_jwt opts key now token = Inl e
             \<and> (errors_is e Jwt_Token_Expired \<longleftrightarrow> c_expires_at c \<le> now)"
    if "jl_signed_string sample_jwt signing_method_hs256 c secret = Inr token"
      "key signing_method_hs256 = Inr secret" "''HS256'' \<in> set (po_valid_methods opts)"
    for c secret token opts key now
  proof -
    have "token = put_str ''HS256'' @ put_str secret @ put_claims c"
      using that(1) by (simp add: sample_jwt_def sample_sign_def signing_method_hs256_def)
    with that(2,3) show ?thesis
      by (auto simp: sample_jwt_def sample_parse_def signing_method_hs256_def Let_def)
  qed
  show ?thesis
    unfolding jwt_documented_def date using sample_numeric_date parse by blast
qed

lemma sample_can_sign: "can_sign sample_jwt sg u c"
  by (simp add: can_sign_def sample_jwt_def sample_sign_def signing_method_hs256_def)

subsection \<open>A password library\<close>

definition sample_bcrypt :: bcrypt_lib where
  "sample_bcrypt =
     \<lparr>bc_generate = (\<lambda>salt cost pw. if length pw \<le> 72 then Inr (''hash:'' @ pw)
          else Inl (Foreign_Error ''bcrypt: password length exceeds 72 bytes'')),
      bc_compare = (\<lambda>h pw. if h = ''hash:'' @ pw then None
          else Some (Foreign_Error ''bcrypt: hashedPassword is not the hash of the given password''))\<rparr>"

subsection \<open>Small states\<close>

text \<open>One user, some tokens of one chain, a clock that stands still.\<close>

definition sample_user :: user_row where
  "sample_user = \<lparr>ur_id = 1, ur_email = ''ada@example.com'', ur_password_hash = ''hash:open sesame'',
     ur_name = ''Ada'', ur_created_at = 0, ur_updated_at = 0\<rparr>"

definition sample_token :: "uuid \<Rightarrow> string \<Rightarrow> instant option \<Rightarrow> token_row" where
  "sample_token i plain revoked =
     \<lparr>tr_id = i, tr_user_id = 1, tr_token_hash = hash_refresh_token plain, tr_chain_id = 500,
      tr_revoked_at = revoked, tr_expires_at = 1000 * second, tr_created_at = 0, tr_updated_at = 0\<rparr>"

definition sample_world :: "token_row list \<Rightarrow> world" where
  "sample_world ts =
     \<lparr>tick = 1, clock_at = (\<lambda>k. 100 * second), uuid_at = (\<lambda>k. 500 + of_nat (k mod 64)),
      entropy_at = (\<lambda>k i. if k < 6 then 0 else 255), entropy_fault_at = (\<lambda>k. None),
      db = \<lparr>users_tbl = [sample_user], tokens_tbl = ts\<rparr>,
      tx_now = 0, tx_aborted = False, db_clock_at = (\<lambda>k. 100 * second),
      db_uuid_at = (\<lambda>k. of_nat (900 + k mod 64)), fault_at = (\<lambda>k. None),
      ts_store = (\<lambda>t. t div 1000 * 1000)\<rparr>"

definition sample_signer :: signer where
  "sample_signer = new_signer ''secret'' ''gostart'' (15 * minute)"

abbreviation sample_auth :: "world auth_service" where
  "sample_auth \<equiv> pool_auth_service sample_signer (168 * hour)"

lemma sample_world_sel [simp]:
  "tick (sample_world ts) = 1" "clock_at (sample_world ts) = (\<lambda>k. 100 * second)"
  "tokens_tbl (db (sample_world ts)) = ts" "users_tbl (db (sample_world ts)) = [sample_user]"
  "world_users (sample_world ts) = [user_to_model sample_user]"
  "world_tokens (sample_world ts) = map refresh_token_to_model ts"
  "ts_store (sample_world ts) = (\<lambda>t. t div 1000 * 1000)"
  by (simp_all add: sample_world_def world_users_def world_tokens_def)

lemma sample_token_sel [simp]:
  "tr_id (sample_token i p r) = i" "tr_token_hash (sample_token i p r) = hash_refresh_token p"
  "tr_revoked_at (sample_token i p r) = r" "tr_chain_id (sample_token i p r) = 500"
  "tr_user_id (sample_token i p r) = 1" "tr_expires_at (sample_token i p r) = 1000 * second"
  by (simp_all add: sample_token_def)

lemma sample_world_ok:
  "distinct (map tr_id ts) \<Longrightarrow> distinct (map tr_token_hash ts) \<Longrightarrow>
     \<forall>t\<in>set ts. tr_user_id t = 1 \<Longrightarrow> world_ok (sample_world ts)"
  by (auto simp: world_ok_def db_ok_def sample_user_def)

lemma sample_db_uuid:
  assumes "i < 900"
  shows "of_nat (900 + k mod 64) \<noteq> (i :: uuid)"
proof -
  have "(900 + k mod 64 :: nat) < 2 ^ LENGTH(128)" by (rule order_less_trans [of _ 1024]) simp_all
  then have "unat (of_nat (900 + k mod 64) :: uuid) = 900 + k mod 64" by (simp only: unat_of_nat take_bit_eq_mod mod_less)
  moreover have "unat i < 900" using assms by (simp add: word_less_nat_alt)
  ultimately show ?thesis by auto
qed

lemma sample_world_quiet:
  "\<forall>t\<in>set ts. tr_id t < 900 \<Longrightarrow> world_quiet (sample_world ts)"
  by (auto simp: world_quiet_def sample_world_def simp del: of_nat_add)
    (metis sample_db_uuid)

lemma sample_world_quiet_users: "world_quiet_users (sample_world ts)"
proof -
  have "of_nat (900 + k mod 64) \<noteq> (1 :: uuid)" for k by (rule sample_db_uuid) simp
  then have "(1 :: uuid) \<noteq> of_nat (900 + k mod 64)" for k by metis
  then show ?thesis
    by (simp add: world_quiet_users_def sample_world_def sample_user_def del: of_nat_add)
qed

lemma sample_world_minted:
  "minted_at (sample_world ts) k = (if k < 6 then plain_zeros else plain_ones)"
proof -
  have "map (\<lambda>i. c) [0..<refresh_token_bytes] = replicate 32 c" for c :: byte
    by (simp add: refresh_token_bytes_def map_replicate_const)
  then show ?thesis
    by (simp add: minted_at_def sample_world_def plain_zeros_encode plain_ones_encode)
qed

lemma sample_mint_ready:
  "\<forall>t\<in>set ts. tr_token_hash t = hash_refresh_token ''abc'' \<Longrightarrow>
     mint_ready (sample_world ts) (world_tokens (sample_world ts))"
  by (auto simp: mint_ready_def sample_world_minted) (simp_all add: sample_world_def)

text \<open>The definitions to unfold to run the operations on these states.\<close>

lemma sample_mint: "map (\<lambda>i. c) [0..<refresh_token_bytes] = replicate 32 (c :: byte)"
  by (simp add: refresh_token_bytes_def map_replicate_const)

lemmas sample_eval = sample_world_def token_repo_defs run_stmt_def run_on_pool_def stmt_out_def
  sql_get_refresh_token_by_hash_def sql_revoke_refresh_token_def sql_revoke_chain_def
  sql_create_refresh_token_def revoke_rows_def next_tick_def time_now_def
  generate_refresh_token_def rand_read_def second_def sample_mint plain_zeros_encode
  plain_ones_encode sample_user_def signer_sign_def sample_jwt_def sample_sign_def
  signing_method_hs256_def Let_def

end
