(* ===== verification/Auth_Claims.thy ===== *)
theory Auth_Claims
  imports Samples
begin

section \<open>Properties of the authentication service\<close>

text \<open>
  The properties of \<open>Login\<close>, \<open>Refresh\<close>, \<open>Logout\<close> and \<open>LogoutAll\<close>
  for the service as the server builds it, over the tables. Each rests on the case analyses
  proved inside the contracts (\<open>tokens.refresh_cases\<close>, ...) through their interpretations.
\<close>

lemma sample_refresh_succeeds:
  assumes "W = sample_world [sample_token 7 ''abc'' None]"
  obtains access plain w' where
    "auth_refresh sample_jwt sample_auth ''abc'' W = (Inr (access, plain), w')"
proof -
  let ?t = "refresh_token_to_model (sample_token 7 ''abc'' None)"
  have ok: "world_ok W" unfolding assms by (rule sample_world_ok) simp_all
  have quiet: "world_quiet W" unfolding assms by (rule sample_world_quiet) simp
  have "\<exists>a p. fst (auth_refresh sample_jwt sample_auth ''abc'' W) = Inr (a, p)"
    by (rule live.refresh_answers(4) [OF _ ok quiet, of _ ?t])
      (simp_all add: assms active_def world_known_def sample_user_def second_def sample_can_sign
        sample_mint_ready [of "[sample_token 7 ''abc'' None]", simplified])
  then show thesis using that by (metis prod.collapse)
qed

subsection \<open>Refresh\<close>

text \<open>C1. A successful \<open>Refresh\<close> is a rotation: the presented token was stored, active and
  not expired at a moment of the call; it is now revoked, and exactly one token was added, active,
  of the same user and chain, holding the digest of the returned plaintext (never the plaintext)
  and expiring one \<open>refreshTTL\<close> after a moment of the call. No other token changed, and the
  access token was signed for the same user and chain.\<close>

theorem refresh_rotates:
  assumes "auth_refresh J (pool_auth_service sg ttl) p w = (Inr (access, plain), w')"
  shows "\<exists>row t now k j w4. row \<in> set (world_tokens w) \<and> t_token_hash row = hash_refresh_token p
    \<and> active row \<and> tick w \<le> k \<and> k < tick w' \<and> clock_at w k \<le> t_expires_at row
    \<and> world_tokens w' = revoke_tokens (\<lambda>u. t_id u = t_id row) now (world_tokens w) @ [t]
    \<and> active t \<and> t_user_id t = t_user_id row \<and> t_chain_id t = t_chain_id row
    \<and> t_token_hash t = hash_refresh_token plain
    \<and> k < j \<and> j < tick w' \<and> t_expires_at t = ts_store w (clock_at w j + ttl)
    \<and> signer_sign J sg (t_user_id row) (t_chain_id row) w4 = (Inr access, w')"
  using assms pool_auth_service_sel(2)
proof (cases rule: tokens.refresh_cases)
  case (revoked row k now w3)
  from revoked(8) pool_auth_service_sel(2) show ?thesis
  proof (cases rule: tokens.issue_cases)
    case (issued t a pl w4)
    have "tick w' = Suc (tick w4)" using issued signer_sign_state by fastforce
    moreover have "clock_at w3 = clock_at w" using revoked by (simp add: env_step_def)
    ultimately show ?thesis
      using revoked issued
      by (intro exI [of _ row] exI [of _ t] exI [of _ now] exI [of _ k] exI [of _ "Suc (tick w3)"]
          exI [of _ w4]) auto
  qed simp_all
qed simp_all

theorem refresh_rotates_witness:
  "\<exists>access plain w' t now. auth_refresh sample_jwt sample_auth ''abc''
       (sample_world [sample_token 7 ''abc'' None]) = (Inr (access, plain), w')
     \<and> world_tokens w' = [refresh_token_to_model (sample_token 7 ''abc'' (Some now)\<lparr>tr_updated_at := now\<rparr>), t]
     \<and> t_chain_id t = 500 \<and> t_token_hash t = hash_refresh_token plain"
proof -
  obtain a pl w' where r: "auth_refresh sample_jwt sample_auth ''abc''
      (sample_world [sample_token 7 ''abc'' None]) = (Inr (a, pl), w')"
    by (rule sample_refresh_succeeds [OF refl])
  from refresh_rotates [OF r] r show ?thesis
    by (auto simp: revoke_tokens_def active_def refresh_token_to_model_def sample_token_def)
qed

text \<open>C17. A failing \<open>Refresh\<close> answers with the reason: unknown token (nothing changed),
  revoked token (its whole chain is revoked, nothing else), expired token (nothing changed), or
  a wrapped error of a lower layer; in every case tokens are only revoked, and at most one added,
  never reactivated.\<close>

theorem refresh_fails_closed:
  assumes "auth_refresh J (pool_auth_service sg ttl) p w = (Inl e, w')"
  shows "(e = Err_Refresh_Token_Revoked
          \<and> (\<forall>t\<in>set (world_tokens w). t_token_hash t \<noteq> hash_refresh_token p)
          \<and> world_tokens w' = world_tokens w)
    \<or> (e = Err_Refresh_Token_Reuse
          \<and> (\<exists>row\<in>set (world_tokens w). \<exists>now. t_token_hash row = hash_refresh_token p \<and> \<not> active row
               \<and> world_tokens w' = revoke_tokens (\<lambda>t. t_chain_id t = t_chain_id row) now (world_tokens w)))
    \<or> (e = Err_Refresh_Token_Expired
          \<and> (\<exists>row\<in>set (world_tokens w). \<exists>k\<ge>tick w. t_token_hash row = hash_refresh_token p \<and> active row
               \<and> t_expires_at row < clock_at w k) \<and> world_tokens w' = world_tokens w)
    \<or> ((\<exists>m e'. e = Wrapf m e') \<and> token_step (world_tokens w) (world_tokens w'))"
  using assms pool_auth_service_sel(2)
proof (cases rule: tokens.refresh_cases)
  case (revoked row k now w3)
  from revoked(8) pool_auth_service_sel(2) have "\<exists>m e'. e = Wrapf m e'"
    by (cases rule: tokens.issue_cases) simp_all
  then show ?thesis
    using tokens.token_step_issue [OF revoked(8) pool_auth_service_sel(2), of "world_tokens w"] revoked(7)
    by simp
next
  case (reuse row now)
  then show ?thesis by blast
next
  case (expired row k)
  then show ?thesis by blast
qed (auto simp: token_step_revoked)

theorem refresh_fails_closed_witness:
  "\<exists>w' now. auth_refresh sample_jwt sample_auth ''abc''
      (sample_world [sample_token 7 ''abc'' (Some 5), sample_token 8 plain_zeros None])
        = (Inl Err_Refresh_Token_Reuse, w')
    \<and> (\<exists>row\<in>set (world_tokens w'). t_token_hash row = hash_refresh_token plain_zeros
         \<and> t_revoked_at row = Some now)"
proof -
  let ?W = "sample_world [sample_token 7 ''abc'' (Some 5), sample_token 8 plain_zeros None]"
  have "fst (auth_refresh sample_jwt sample_auth ''abc'' ?W) = Inl Err_Refresh_Token_Reuse"
    by (rule live.refresh_answers(2) [where t = "refresh_token_to_model (sample_token 7 ''abc'' (Some 5))"])
      (simp_all add: sample_world_ok sample_world_quiet active_def)
  then obtain w' where r: "auth_refresh sample_jwt sample_auth ''abc'' ?W = (Inl Err_Refresh_Token_Reuse, w')"
    by (metis prod.collapse)
  from refresh_fails_closed [OF r] r show ?thesis
    by (auto simp: revoke_tokens_def active_def)
qed

text \<open>C20. While no lower layer fails, a token that is stored, active and not expired is exchanged:
  \<open>Refresh\<close> returns a pair.\<close>

theorem refresh_exchanges_live_token:
  assumes "world_ok w" and "world_quiet w" and "mint_ready w (world_tokens w)"
    and "row \<in> set (world_tokens w)" and "t_token_hash row = hash_refresh_token p" and "active row"
    and "\<forall>k\<ge>tick w. clock_at w k \<le> t_expires_at row"
    and "world_known w (t_user_id row)" and "can_sign J sg (t_user_id row) (t_chain_id row)"
  shows "\<exists>access plain. fst (auth_refresh J (pool_auth_service sg ttl) p w) = Inr (access, plain)"
  using live.refresh_answers(4) [OF pool_auth_service_sel(2) assms(1,2,4-8,3)] assms(9) by simp

theorem refresh_exchanges_live_token_witness:
  "\<exists>access plain. fst (auth_refresh sample_jwt sample_auth ''abc''
     (sample_world [sample_token 7 ''abc'' None])) = Inr (access, plain)"
  by (rule refresh_exchanges_live_token [of _ "refresh_token_to_model (sample_token 7 ''abc'' None)"])
    (simp_all add: sample_world_ok sample_world_quiet active_def world_known_def sample_user_def
      second_def sample_can_sign sample_mint_ready [of "[sample_token 7 ''abc'' None]", simplified])

text \<open>C7. Reuse detection: presenting a revoked token, while the database answers, is refused
  with \<open>ErrRefreshTokenReuse\<close>, and afterwards no token of its chain is active, while every
  token of another chain is as before.\<close>

theorem refresh_reuse_revokes_chain:
  assumes "world_ok w" and "world_quiet w"
    and "row \<in> set (world_tokens w)" and "t_token_hash row = hash_refresh_token p" and "\<not> active row"
    and "auth_refresh J (pool_auth_service sg ttl) p w = (r, w')"
  shows "r = Inl Err_Refresh_Token_Reuse
    \<and> (\<forall>t\<in>set (world_tokens w'). t_chain_id t = t_chain_id row \<longrightarrow> \<not> active t)
    \<and> filter (\<lambda>t. t_chain_id t \<noteq> t_chain_id row) (world_tokens w')
       = filter (\<lambda>t. t_chain_id t \<noteq> t_chain_id row) (world_tokens w)"
proof -
  obtain now where "r = Inl Err_Refresh_Token_Reuse"
    "world_tokens w' = revoke_tokens (\<lambda>t. t_chain_id t = t_chain_id row) now (world_tokens w)"
    using live.reuse_ends_chain [OF pool_auth_service_sel(2) assms] by blast
  then show ?thesis
    using revoke_tokens_inactive [where P = "\<lambda>t. t_chain_id t = t_chain_id row"]
    by (auto intro!: revoke_tokens_others)
qed

theorem refresh_reuse_revokes_chain_witness:
  "let W = sample_world [sample_token 7 ''abc'' (Some 5), sample_token 8 plain_zeros None]
   in \<forall>t\<in>set (world_tokens (snd (auth_refresh sample_jwt sample_auth ''abc'' W))).
        t_chain_id t = 500 \<longrightarrow> \<not> active t"
proof -
  let ?row = "refresh_token_to_model (sample_token 7 ''abc'' (Some 5))"
  let ?W = "sample_world [sample_token 7 ''abc'' (Some 5), sample_token 8 plain_zeros None]"
  obtain r w' where r: "auth_refresh sample_jwt sample_auth ''abc'' ?W = (r, w')" by fastforce
  have "t_chain_id ?row = 500" by simp
  with refresh_reuse_revokes_chain [OF _ _ _ _ _ r, of ?row] r show ?thesis
    by (simp add: sample_world_ok sample_world_quiet active_def Let_def)
qed

text \<open>C36. When the insert of a rotation fails, the presented token stays revoked: presenting it
  again never succeeds and, while the database answers, is taken for reuse, so that the client
  that retries loses the session. (Revocation and insert are two statements outside a
  transaction.)\<close>

theorem refresh_failed_insert_locks_out:
  assumes "world_ok w"
    and "auth_refresh J (pool_auth_service sg ttl) p w = (Inl (Wrapf ''create refresh token'' e), w')"
    and "world_quiet w'"
  shows "fst (auth_refresh J (pool_auth_service sg ttl) p w') = Inl Err_Refresh_Token_Reuse"
  using assms(2) pool_auth_service_sel(2)
proof (cases rule: tokens.refresh_cases)
  case (revoked row k now w3)
  obtain row' where row': "row' \<in> set (world_tokens w3)" "\<not> active row'" "t_token_hash row' = t_token_hash row"
  proof
    let ?r = "row\<lparr>t_revoked_at := Some now, t_updated_at := now\<rparr>"
    show "?r \<in> set (world_tokens w3)" using revoked by (force simp: in_revoke_tokens)
  qed simp_all
  from tokens.issue_step [OF revoked(8) pool_auth_service_sel(2)] row'(1) revoked(11) assms(1)
  have "row' \<in> set (world_tokens w')" "world_ok w'" by auto
  with live.refresh_answers(2) [OF pool_auth_service_sel(2) _ assms(3)] row' revoked(2)
  show ?thesis by simp
qed simp_all

text \<open>The state of the example: the fourth statement, the insert, finds the connection gone.\<close>

definition faulty_world :: world where
  "faulty_world = (sample_world [sample_token 7 ''abc'' None])
     \<lparr>fault_at := (\<lambda>k. if k = 6 then Some (Lost_Before ''connection reset'') else None)\<rparr>"

theorem refresh_failed_insert_locks_out_witness:
  "\<exists>e w'. auth_refresh sample_jwt sample_auth ''abc'' faulty_world
      = (Inl (Wrapf ''create refresh token'' e), w')
    \<and> fst (auth_refresh sample_jwt sample_auth ''abc'' w') = Inl Err_Refresh_Token_Reuse"
proof -
  obtain r w' where run: "auth_refresh sample_jwt sample_auth ''abc'' faulty_world = (r, w')" by fastforce
  then have r: "r = Inl (Wrapf ''create refresh token'' (Foreign_Error ''connection reset''))
      \<and> fault_at w' = fault_at faulty_world \<and> db_uuid_at w' = db_uuid_at faulty_world
      \<and> tick w' = 7 \<and> map tr_id (tokens_tbl (db w')) = [7]"
    by (auto simp: faulty_world_def auth_refresh_def issue_refresh_and_access_def sample_eval)
  have "world_quiet w'"
    using r sample_db_uuid [of 7] by (auto simp: world_quiet_def faulty_world_def sample_world_def)
  moreover have "world_ok faulty_world"
    using sample_world_ok [of "[sample_token 7 ''abc'' None]"]
    by (simp add: faulty_world_def world_ok_def)
  ultimately show ?thesis using refresh_failed_insert_locks_out run r by blast
qed

subsection \<open>Login\<close>

text \<open>C16. A successful \<open>Login\<close> is for a stored user whose address is the given one and
  whose hash the password matches, and it starts a new session: exactly one token was added, for
  that user, in a chain whose id was made during the call, holding the digest of the returned
  plaintext; the access token was signed for that user and chain.\<close>

theorem login_starts_session:
  assumes "auth_login J B (pool_auth_service sg ttl) email pw w = (Inr (access, plain), w')"
  shows "\<exists>u t k w4. u \<in> set (world_users w) \<and> u_email u = email
    \<and> bc_compare B (u_password_hash u) pw = None
    \<and> world_tokens w' = world_tokens w @ [t] \<and> active t \<and> t_user_id t = u_id u
    \<and> tick w \<le> k \<and> k < tick w' \<and> t_chain_id t = uuid_at w k
    \<and> t_token_hash t = hash_refresh_token plain
    \<and> signer_sign J sg (u_id u) (uuid_at w k) w4 = (Inr access, w')"
  using assms pool_auth_service_sel(2,1)
proof (cases rule: auth.login_cases)
  case (matched u k w2)
  from matched(6) pool_auth_service_sel(2) show ?thesis
  proof (cases rule: tokens.issue_cases)
    case (issued t a pl w4)
    then show ?thesis
      using matched env_step_tick [of w2 w']
      by (intro exI [of _ u] exI [of _ t] exI [of _ k] exI [of _ w4]) auto
  qed simp_all
qed simp_all

lemma sample_login_succeeds:
  "\<exists>a p. fst (auth_login sample_jwt sample_bcrypt sample_auth ''ada@example.com'' ''open sesame''
     (sample_world [])) = Inr (a, p)"
  by (rule live_auth.login_answers(2) [where u = "user_to_model sample_user"])
    (simp_all add: sample_world_ok sample_world_quiet sample_user_def sample_bcrypt_def
      sample_can_sign sample_mint_ready [of "[]", simplified])

theorem login_starts_session_witness:
  "\<exists>access plain w' t. auth_login sample_jwt sample_bcrypt sample_auth ''ada@example.com'' ''open sesame''
       (sample_world []) = (Inr (access, plain), w')
     \<and> world_tokens w' = [t] \<and> t_user_id t = 1 \<and> t_token_hash t = hash_refresh_token plain"
proof -
  obtain a p w' where r: "auth_login sample_jwt sample_bcrypt sample_auth ''ada@example.com'' ''open sesame''
      (sample_world []) = (Inr (a, p), w')"
    using sample_login_succeeds by (metis prod.collapse)
  from login_starts_session [OF r] r show ?thesis by (auto simp: sample_user_def)
qed

text \<open>C34. \<open>Login\<close> does not tell an unknown address from a wrong password: while the
  database answers and tokens can be issued, it returns \<open>ErrInvalidCredentials\<close> exactly when
  no stored user has the address and a hash that the password matches, and a pair otherwise.\<close>

theorem login_uniform_refusal:
  assumes "world_ok w" and "world_quiet w" and "mint_ready w (world_tokens w)"
    and "\<forall>u c. can_sign J sg u c"
  shows "(case fst (auth_login J B (pool_auth_service sg ttl) email pw w) of
      Inl e \<Rightarrow> e = Err_Invalid_Credentials
        \<and> \<not> (\<exists>u\<in>set (world_users w). u_email u = email \<and> bc_compare B (u_password_hash u) pw = None)
    | Inr _ \<Rightarrow> \<exists>u\<in>set (world_users w). u_email u = email \<and> bc_compare B (u_password_hash u) pw = None)"
proof (cases "\<exists>u\<in>set (world_users w). u_email u = email \<and> bc_compare B (u_password_hash u) pw = None")
  case True
  then obtain u where u: "u \<in> set (world_users w)" "u_email u = email"
    "bc_compare B (u_password_hash u) pw = None" by blast
  have "\<exists>a p. fst (auth_login J B (pool_auth_service sg ttl) email pw w) = Inr (a, p)"
    by (rule live_auth.login_answers(2) [OF pool_auth_service_sel(2,1) assms(1,2) u assms(3)])
      (simp add: assms(4))
  with u show ?thesis by auto
next
  case False
  then have "fst (auth_login J B (pool_auth_service sg ttl) email pw w) = Inl Err_Invalid_Credentials"
    by (intro live_auth.login_answers(1) [OF pool_auth_service_sel(2,1) assms(1,2)]) auto
  with False show ?thesis by simp
qed

theorem login_uniform_refusal_witness:
  "fst (auth_login sample_jwt sample_bcrypt sample_auth ''ada@example.com'' ''guess'' (sample_world []))
     = Inl Err_Invalid_Credentials
   \<and> fst (auth_login sample_jwt sample_bcrypt sample_auth ''nobody@example.com'' ''open sesame'' (sample_world []))
     = Inl Err_Invalid_Credentials"
proof -
  have pre: "world_ok (sample_world [])" "world_quiet (sample_world [])"
    "mint_ready (sample_world []) (world_tokens (sample_world []))"
    "\<forall>u c. can_sign sample_jwt sample_signer u c"
    using sample_mint_ready [of "[]"] by (simp_all add: sample_world_ok sample_world_quiet sample_can_sign)
  note rule = login_uniform_refusal [OF pre, where B = sample_bcrypt and ttl = "168 * hour"]
  show ?thesis
    using rule [where email = "''ada@example.com''" and pw = "''guess''"]
      rule [where email = "''nobody@example.com''" and pw = "''open sesame''"]
    by (auto simp: sample_user_def sample_bcrypt_def split: sum.splits)
qed

subsection \<open>Logout\<close>

text \<open>C21. What \<open>Logout\<close> that returns nil did. When the token is the current one of its session
  (its row is active), the session is over: no token of its chain is active any more. When the
  token is unknown, or no longer active because it was rotated or revoked before, no token has
  changed at all, so that the session a rotated token came from goes on with its current token.
  In both cases no token with another digest has changed and a following \<open>Refresh\<close> refuses the
  token. (That a chain has at most one active token is an invariant of every run, below.)\<close>

theorem logout_ends_session:
  assumes "world_ok w" and "one_active (world_tokens w)"
    and "auth_logout (pool_auth_service sg ttl) p w = (None, w')"
  shows "(\<forall>t\<in>set (world_tokens w). t_token_hash t = hash_refresh_token p \<and> active t \<longrightarrow>
        (\<forall>u\<in>set (world_tokens w'). t_chain_id u = t_chain_id t \<longrightarrow> \<not> active u))
    \<and> ((\<forall>t\<in>set (world_tokens w). t_token_hash t = hash_refresh_token p \<longrightarrow> \<not> active t) \<longrightarrow>
        world_tokens w' = world_tokens w)
    \<and> (\<forall>t\<in>set (world_tokens w'). t_token_hash t = hash_refresh_token p \<longrightarrow> \<not> active t)
    \<and> filter (\<lambda>t. t_token_hash t \<noteq> hash_refresh_token p) (world_tokens w')
       = filter (\<lambda>t. t_token_hash t \<noteq> hash_refresh_token p) (world_tokens w)
    \<and> (\<exists>e. fst (auth_refresh J (pool_auth_service sg ttl) p w') = Inl e)"
proof -
  let ?P = "\<lambda>t. t_token_hash t = hash_refresh_token p"
  from assms(3) pool_auth_service_sel(2) obtain now where now: "world_ok w'"
    "world_tokens w' = revoke_tokens (\<lambda>t. t_token_hash t = hash_refresh_token p) now (world_tokens w)"
  proof (cases rule: tokens.logout_cases)
    case unknown
    then have "world_tokens w' = revoke_tokens (\<lambda>t. t_token_hash t = hash_refresh_token p) 0 (world_tokens w)"
      by (subst revoke_tokens_none) auto
    with unknown assms(1) that show ?thesis by blast
  next
    case (revoked row now)
    have "t_id t = t_id row \<longleftrightarrow> t_token_hash t = hash_refresh_token p" if "t \<in> set (world_tokens w)" for t
      using that revoked(2,3) distinct_map_inj [OF tokens.ok_ids [OF assms(1)] that revoked(2)]
        distinct_map_inj [OF tokens.ok_hashes [OF assms(1)] that revoked(2)] by auto
    then have "world_tokens w' = revoke_tokens (\<lambda>t. t_token_hash t = hash_refresh_token p) now (world_tokens w)"
      unfolding revoked(4) revoke_tokens_def by (intro map_cong) auto
    then show ?thesis using that revoked assms(1) by blast
  qed simp
  have off: "\<forall>t\<in>set (world_tokens w'). t_token_hash t = hash_refresh_token p \<longrightarrow> \<not> active t"
    unfolding now(2) by (auto dest: revoke_tokens_inactive)
  obtain r w'' where run: "auth_refresh J (pool_auth_service sg ttl) p w' = (r, w'')" by fastforce
  then have "\<exists>e. r = Inl e"
    using pool_auth_service_sel(2) by (cases rule: tokens.refresh_cases) (use off in auto)
  with run have "\<exists>e. fst (auth_refresh J (pool_auth_service sg ttl) p w') = Inl e" by simp
  moreover have "\<not> active u" if "t \<in> set (world_tokens w)" "?P t" "active t"
    "u \<in> set (world_tokens w')" "t_chain_id u = t_chain_id t" for t u
  proof
    assume "active u"
    with that(4) have "u \<in> set (filter active (world_tokens w'))" by simp
    then have "u \<in> set (world_tokens w)" "active u" "\<not> ?P u"
      unfolding now(2) active_revoke_tokens by auto
    with one_active_unique [OF assms(2) that(1) _ that(3) _ that(5) [symmetric]] that(2) show False by auto
  qed
  moreover have "world_tokens w' = world_tokens w" if "\<forall>t\<in>set (world_tokens w). ?P t \<longrightarrow> \<not> active t"
    unfolding now(2) using that by (intro revoke_tokens_none) blast
  moreover have "filter (\<lambda>t. \<not> ?P t) (world_tokens w') = filter (\<lambda>t. \<not> ?P t) (world_tokens w)"
    unfolding now(2) by (rule revoke_tokens_others) auto
  ultimately show ?thesis using off by blast
qed

theorem logout_ends_session_witness:
  "let T = [sample_token 7 ''abc'' (Some 5), sample_token 8 plain_zeros None];
       W = sample_world T;
       out = (\<lambda>p. world_tokens (snd (auth_logout sample_auth p W)))
   in (\<forall>t\<in>set (out plain_zeros). t_chain_id t = 500 \<longrightarrow> \<not> active t)
     \<and> out ''abc'' = world_tokens W \<and> (\<exists>t\<in>set (out ''abc''). t_chain_id t = 500 \<and> active t)"
proof -
  let ?T = "[sample_token 7 ''abc'' (Some 5), sample_token 8 plain_zeros None]"
  let ?W = "sample_world ?T"
  have run: "auth_logout sample_auth p ?W = (None, snd (auth_logout sample_auth p ?W))" for p
    using live.logout_answers [of sample_auth ?W p] sample_world_quiet
    by (simp add: prod_eq_iff)
  have one: "one_active (world_tokens ?W)" by (simp add: one_active_def active_def)
  have ok: "world_ok ?W" by (rule sample_world_ok) simp_all
  note rule = logout_ends_session [OF ok one run, where J = sample_jwt]
  show ?thesis using rule [of plain_zeros] rule [of "''abc''"]
    by (simp add: Let_def active_def hashes_distinct [symmetric])
qed

text \<open>C22. \<open>LogoutAll\<close> that returns nil leaves the user no active token and touches nobody
  else's; an error means that it did all of that or nothing.\<close>

theorem logout_all_ends_all_sessions:
  assumes "auth_logout_all (pool_auth_service sg ttl) u w = (x, w')"
  shows "filter (\<lambda>t. t_user_id t \<noteq> u) (world_tokens w') = filter (\<lambda>t. t_user_id t \<noteq> u) (world_tokens w)
    \<and> map t_id (world_tokens w') = map t_id (world_tokens w)
    \<and> (world_tokens w' = world_tokens w \<and> x \<noteq> None
       \<or> (\<forall>t\<in>set (world_tokens w'). t_user_id t = u \<longrightarrow> \<not> active t))"
  using assms pool_auth_service_sel(2)
  by (cases rule: tokens.logout_all_cases)
    (auto intro!: revoke_tokens_others dest: revoke_tokens_inactive)

theorem logout_all_ends_all_sessions_witness:
  "let W = sample_world [sample_token 7 ''abc'' None, sample_token 8 plain_zeros None]
   in \<forall>t\<in>set (world_tokens (snd (auth_logout_all sample_auth 1 W))). t_user_id t = 1 \<longrightarrow> \<not> active t"
proof -
  let ?W = "sample_world [sample_token 7 ''abc'' None, sample_token 8 plain_zeros None]"
  obtain x w' where run: "auth_logout_all sample_auth 1 ?W = (x, w')" by fastforce
  moreover have "fst (auth_logout_all sample_auth 1 ?W) = None"
    by (rule live.logout_all_answers) (simp_all add: sample_world_quiet)
  ultimately show ?thesis using logout_all_ends_all_sessions [OF run] by (simp add: Let_def)
qed

subsection \<open>Runs\<close>

text \<open>C8. One active token per session: from any state with at most one active token per chain
  and chain ids made by \<open>uuid.New\<close>, every run of logins, refreshes and logouts, one after
  another and whatever fails in them, ends in such a state, provided \<open>uuid.New\<close> did not
  repeat itself.\<close>

theorem one_active_token_per_chain:
  assumes "world_ok w" and "sessions_good w (world_tokens w)"
    and "w' = run_ops J B (pool_auth_service sg ttl) ops w" and "inj_on (uuid_at w) {..<tick w'}"
    and "a \<in> set (world_tokens w')" and "b \<in> set (world_tokens w')"
    and "active a" and "active b" and "t_chain_id a = t_chain_id b"
  shows "a = b"
proof -
  have "sessions_good w' (world_tokens w')"
    using auth.run_good [OF pool_auth_service_sel(2,1) assms(1,2)] assms(3,4) by simp
  with assms(5-9) show ?thesis unfolding sessions_good_def by (blast intro: one_active_unique)
qed

lemma sample_refresh_run:
  assumes "auth_refresh sample_jwt sample_auth ''abc'' (sample_world [sample_token 7 ''abc'' None]) = (r, w')"
  shows "tick w' = 8 \<and> length (world_tokens w') = 2"
  using assms hashes_distinct(1)
  by (auto simp: auth_refresh_def issue_refresh_and_access_def world_tokens_def sample_eval)

lemma sample_refresh_granted:
  "\<exists>access plain. fst (auth_refresh sample_jwt sample_auth ''abc'' (sample_world [sample_token 7 ''abc'' None])) = Inr (access, plain)"
  by (rule live.refresh_answers(4) [OF pool_auth_service_sel(2) sample_world_ok sample_world_quiet,
      where t = "refresh_token_to_model (sample_token 7 ''abc'' None)"])
    (simp_all add: active_def world_known_def sample_user_def second_def sample_can_sign
      sample_mint_ready [of "[sample_token 7 ''abc'' None]", simplified])

theorem one_active_token_per_chain_witness:
  "let w' = run_ops sample_jwt sample_bcrypt sample_auth [Refresh ''abc'']
      (sample_world [sample_token 7 ''abc'' None])
   in length (world_tokens w') = 2 \<and> (\<forall>a\<in>set (world_tokens w'). \<forall>b\<in>set (world_tokens w').
        active a \<longrightarrow> active b \<longrightarrow> t_chain_id a = t_chain_id b \<longrightarrow> a = b)"
proof -
  let ?W = "sample_world [sample_token 7 ''abc'' None]"
  let ?ops = "[Refresh ''abc'']"
  let ?w' = "run_ops sample_jwt sample_bcrypt sample_auth ?ops ?W"
  have w': "tick ?w' = 8" "length (world_tokens ?w') = 2"
    using sample_refresh_run [OF prod.collapse [symmetric]] by simp_all
  have "inj_on (uuid_at ?W) {..<8}"
    by (simp add: inj_on_def sample_world_def lessThan_nat_numeral lessThan_Suc)
  moreover have "sessions_good ?W (world_tokens ?W)"
    by (simp add: sessions_good_def one_active_def chains_issued_def active_def)
      (simp add: sample_world_def)
  ultimately show ?thesis
    using one_active_token_per_chain [of ?W ?w' sample_jwt sample_bcrypt sample_signer "168 * hour" ?ops]
      w' by (simp add: sample_world_ok Let_def del: run_ops.simps)
qed

text \<open>C9. Revocation is final: once a token is revoked, no run of operations, whatever fails in
  it, makes a later \<open>Refresh\<close> with it succeed, and the row stays as it is.\<close>

theorem revoked_token_never_accepted:
  assumes "world_ok w" and "row \<in> set (world_tokens w)" and "\<not> active row"
    and "t_token_hash row = hash_refresh_token p"
    and "w' = run_ops J B (pool_auth_service sg ttl) ops w"
  shows "row \<in> set (world_tokens w')
    \<and> (\<exists>e. fst (auth_refresh J (pool_auth_service sg ttl) p w') = Inl e)"
  using auth.run_revoked_rejected [OF pool_auth_service_sel(2,1) assms(1-4)]
    auth.run_rows_stay [OF pool_auth_service_sel(2,1) assms(2)] assms(3,5)
  by (fastforce simp: same_token_def)

theorem revoked_token_never_accepted_witness:
  "\<exists>e. fst (auth_refresh sample_jwt sample_auth ''abc''
      (run_ops sample_jwt sample_bcrypt sample_auth
        [Login ''ada@example.com'' ''open sesame'', Logout ''xyz'', Refresh ''abc'', Logout_All 1]
        (sample_world [sample_token 7 ''abc'' (Some 5)]))) = Inl e"
  using revoked_token_never_accepted [OF _ _ _ _ refl, of "sample_world [sample_token 7 ''abc'' (Some 5)]"
      "refresh_token_to_model (sample_token 7 ''abc'' (Some 5))" "''abc''"]
  by (simp add: sample_world_ok active_def del: run_ops.simps)

end
