(* ===== verification/Session_Claims.thy ===== *)
theory Session_Claims
  imports Session_Spec Auth_Claims
begin

section \<open>The authentication service refines its contract\<close>

text \<open>
  The simulation of \<open>Session_Spec\<close> for the service as \<open>NewServer\<close> builds it, over the tables.
\<close>

text \<open>C5. The authentication service implements the contract of sessions: seen through the map from
  chains to sessions, every run of logins, refreshes and logouts is a run of \<open>session_spec\<close> with
  the same answers. So a granted refresh was presented the current token of a session and renewed
  exactly that session, a login with the user's credentials started a new one, a logout ended
  exactly the session of the token, whatever connection faults occur in between, provided
  \<open>uuid.New\<close> did not repeat itself.\<close>

theorem auth_service_refines_sessions:
  assumes "world_ok w" and "sessions_good w (world_tokens w)"
    and "w' = run_ops J B (pool_auth_service sg ttl) ops w" and "inj_on (uuid_at w) {..<tick w'}"
  shows "session_run (credentials B (world_users w)) ops (sessions_of (world_tokens w))
    (run_outcomes J B (pool_auth_service sg ttl) ops w) (sessions_of (world_tokens w'))"
  using sessions.run_refines [OF pool_auth_service_sel(2,1) assms(1,2)] assms(3,4) by simp

theorem auth_service_refines_sessions_witness:
  "\<exists>plain s. session_run (credentials sample_bcrypt [user_to_model sample_user]) [Refresh ''abc'']
     (sessions_of [refresh_token_to_model (sample_token 7 ''abc'' None)]) [Granted plain] s"
proof -
  let ?w = "sample_world [sample_token 7 ''abc'' None]"
  let ?w' = "run_ops sample_jwt sample_bcrypt sample_auth [Refresh ''abc''] ?w"
  have "tick ?w' = 8" using sample_refresh_run [OF prod.collapse [symmetric]] by simp
  moreover have "inj_on (uuid_at ?w) {..<8}"
    by (simp add: inj_on_def sample_world_def lessThan_nat_numeral lessThan_Suc)
  moreover have "sessions_good ?w (world_tokens ?w)"
    by (simp add: sessions_good_def one_active_def chains_issued_def active_def)
      (simp add: sample_world_def)
  moreover obtain access plain where "fst (auth_refresh sample_jwt sample_auth ''abc'' ?w) = Inr (access, plain)"
    using sample_refresh_granted by blast
  ultimately show ?thesis
    using auth_service_refines_sessions [OF sample_world_ok _ refl, of "[sample_token 7 ''abc'' None]" sample_jwt
        sample_bcrypt sample_signer "168 * hour" "[Refresh ''abc'']"]
    by (fastforce simp del: run_ops.simps session_run.simps)
qed

end
