(* ===== verification/Refresh_Race.thy ===== *)
theory Refresh_Race
  imports Samples
begin

section \<open>Concurrent refreshes\<close>

text \<open>
  HTTP requests are served by goroutines that share nothing but the database, so two calls of
  \<open>Refresh\<close> interleave between their interactions: reads of the clock and of the random
  source, and the statements, each of which the server runs on its own. \<open>refresh_pc\<close> is
  where in \<open>AuthService.Refresh\<close> a call is, with the local variables it still needs (the last
  four places are those of \<open>issueRefreshAndAccess\<close>, whose steps are \<open>issue_next\<close>);
  \<open>refresh_next\<close> runs it to the end of its next interaction; \<open>sched_step\<close> is the
  system of several calls over one state. The lemma \<open>refresh_alone\<close> ties the small steps to
  the model of the whole call: undisturbed, they are \<open>auth_refresh\<close>.
\<close>

datatype refresh_pc =
    At_Get string
  | At_Clock refresh_token
  | At_Revoke refresh_token
  | At_Revoke_Chain refresh_token
  | At_Mint uuid uuid
  | At_Stamp uuid uuid string
  | At_Create uuid uuid string instant
  | At_Sign uuid uuid string
  | Returned "go_error + string \<times> string"

fun issue_next ::
    "jwt_lib \<Rightarrow> ('d env_scheme) auth_service \<Rightarrow> refresh_pc \<Rightarrow> 'd env_scheme \<Rightarrow> refresh_pc \<times> 'd env_scheme" where
  "issue_next J s (At_Mint u c) w =
     (case generate_refresh_token w of
        (Inl err, w1) \<Rightarrow> (Returned (Inl (Wrapf ''generate refresh token'' err)), w1)
      | (Inr plaintext, w1) \<Rightarrow> (At_Stamp u c plaintext, w1))"
| "issue_next J s (At_Stamp u c plaintext) w =
     (case time_now w of (now, w1) \<Rightarrow> (At_Create u c plaintext (now + as_refresh_ttl s), w1))"
| "issue_next J s (At_Create u c plaintext expires) w =
     (case rt_create (as_refresh_tokens s)
             \<lparr>tc_user_id = u, tc_token_hash = hash_refresh_token plaintext, tc_chain_id = c,
              tc_expires_at = expires\<rparr> w of
        (Inl err, w1) \<Rightarrow> (Returned (Inl (Wrapf ''create refresh token'' err)), w1)
      | (Inr _, w1) \<Rightarrow> (At_Sign u c plaintext, w1))"
| "issue_next J s (At_Sign u c plaintext) w =
     (case signer_sign J (as_signer s) u c w of
        (Inl err, w1) \<Rightarrow> (Returned (Inl (Wrapf ''sign access token'' err)), w1)
      | (Inr access, w1) \<Rightarrow> (Returned (Inr (access, plaintext)), w1))"
| "issue_next J s pc w = (pc, w)"

fun refresh_next ::
    "jwt_lib \<Rightarrow> ('d env_scheme) auth_service \<Rightarrow> refresh_pc \<Rightarrow> 'd env_scheme \<Rightarrow> refresh_pc \<times> 'd env_scheme" where
  "refresh_next J s (At_Get p) w =
     (case rt_get_by_hash (as_refresh_tokens s) (hash_refresh_token p) w of
        (Inl err, w1) \<Rightarrow>
          (Returned (Inl (if errors_is err Err_No_Rows then Err_Refresh_Token_Revoked
                          else Wrapf ''get refresh token'' err)), w1)
      | (Inr row, w1) \<Rightarrow> (if t_revoked_at row \<noteq> None then At_Revoke_Chain row else At_Clock row, w1))"
| "refresh_next J s (At_Revoke_Chain row) w =
     (case rt_revoke_chain (as_refresh_tokens s) (t_chain_id row) w of
        (Some rerr, w1) \<Rightarrow> (Returned (Inl (Wrapf ''revoke chain on reuse'' rerr)), w1)
      | (None, w1) \<Rightarrow> (Returned (Inl Err_Refresh_Token_Reuse), w1))"
| "refresh_next J s (At_Clock row) w =
     (case time_now w of
        (now, w1) \<Rightarrow> (if t_expires_at row < now then Returned (Inl Err_Refresh_Token_Expired)
                     else At_Revoke row, w1))"
| "refresh_next J s (At_Revoke row) w =
     (case rt_revoke (as_refresh_tokens s) (t_id row) w of
        (Some err, w1) \<Rightarrow> (Returned (Inl (Wrapf ''revoke old refresh token'' err)), w1)
      | (None, w1) \<Rightarrow> (At_Mint (t_user_id row) (t_chain_id row), w1))"
| "refresh_next J s pc w = issue_next J s pc w"

fun refresh_steps ::
    "nat \<Rightarrow> jwt_lib \<Rightarrow> ('d env_scheme) auth_service \<Rightarrow> refresh_pc \<Rightarrow> 'd env_scheme \<Rightarrow> refresh_pc \<times> 'd env_scheme" where
  "refresh_steps 0 J s pc w = (pc, w)"
| "refresh_steps (Suc n) J s pc w =
     (case refresh_next J s pc w of (pc', w') \<Rightarrow> refresh_steps n J s pc' w')"

lemma refresh_steps_returned [simp]: "refresh_steps n J s (Returned r) w = (Returned r, w)"
  by (induction n) auto

lemma issue_alone:
  "refresh_steps (Suc (Suc (Suc (Suc n)))) J s (At_Mint u c) w =
     (case issue_refresh_and_access J s u c w of (r, w') \<Rightarrow> (Returned r, w'))"
  by (auto simp: issue_refresh_and_access_def time_now_def split: prod.split sum.split)

text \<open>The interleaving: any call that has not returned may take its next step.\<close>

type_synonym 'w sched_state = "refresh_pc list \<times> 'w"

inductive sched_step ::
    "jwt_lib \<Rightarrow> ('d env_scheme) auth_service \<Rightarrow> ('d env_scheme) sched_state \<Rightarrow> ('d env_scheme) sched_state \<Rightarrow> bool"
  for J s where
  move: "i < length pcs \<Longrightarrow> refresh_next J s (pcs ! i) w = (pc', w') \<Longrightarrow>
    sched_step J s (pcs, w) (pcs[i := pc'], w')"

inductive_cases sched_stepE: "sched_step J s (pcs, w) (pcs', w')"

abbreviation sched_reaches ::
    "jwt_lib \<Rightarrow> ('d env_scheme) auth_service \<Rightarrow> ('d env_scheme) sched_state \<Rightarrow> ('d env_scheme) sched_state \<Rightarrow> bool" where
  "sched_reaches J s \<equiv> (sched_step J s)\<^sup>*\<^sup>*"

text \<open>Running a given schedule: the calls' indices in the order in which they move.\<close>

fun run_sched ::
    "jwt_lib \<Rightarrow> ('d env_scheme) auth_service \<Rightarrow> nat list \<Rightarrow> ('d env_scheme) sched_state \<Rightarrow> ('d env_scheme) sched_state" where
  "run_sched J s [] st = st"
| "run_sched J s (i # is) st =
     (case st of (pcs, w) \<Rightarrow>
        (case refresh_next J s (pcs ! i) w of (pc', w') \<Rightarrow> run_sched J s is (pcs[i := pc'], w')))"

lemma run_sched_reaches:
  "\<forall>i\<in>set is. i < length (fst st) \<Longrightarrow> sched_reaches J s st (run_sched J s is st)"
proof (induction "is" arbitrary: st)
  case (Cons i "is")
  obtain pcs w pc' w' where st: "st = (pcs, w)" "refresh_next J s (pcs ! i) w = (pc', w')"
    by (metis surj_pair)
  with Cons.prems have "sched_step J s st (pcs[i := pc'], w')" by (simp add: sched_step.move)
  moreover have "sched_reaches J s (pcs[i := pc'], w') (run_sched J s is (pcs[i := pc'], w'))"
    using Cons.prems st by (intro Cons.IH) simp
  ultimately show ?case using st by simp
qed simp

lemma run_sched_reachesI:
  "run_sched J s is st = st' \<Longrightarrow> \<forall>i\<in>set is. i < length (fst st) \<Longrightarrow> sched_reaches J s st st'"
  using run_sched_reaches by metis

subsection \<open>What survives interleaving\<close>

text \<open>The (user, chain) pairs a call may still mint for, and those of the stored tokens.\<close>

definition owner :: "refresh_token \<Rightarrow> uuid \<times> uuid" where
  "owner t = (t_user_id t, t_chain_id t)"

fun pc_owners :: "refresh_pc \<Rightarrow> (uuid \<times> uuid) set" where
  "pc_owners (At_Clock row) = {owner row}"
| "pc_owners (At_Revoke row) = {owner row}"
| "pc_owners (At_Revoke_Chain row) = {owner row}"
| "pc_owners (At_Mint u c) = {(u, c)}"
| "pc_owners (At_Stamp u c p) = {(u, c)}"
| "pc_owners (At_Create u c p x) = {(u, c)}"
| "pc_owners (At_Sign u c p) = {(u, c)}"
| "pc_owners (At_Get p) = {}"
| "pc_owners (Returned r) = {}"

definition owners :: "refresh_token list \<Rightarrow> (uuid \<times> uuid) set" where
  "owners ts = owner ` set ts"

lemma owners_revoke [simp]: "owners (revoke_tokens P now ts) = owners ts"
proof -
  have "map owner (revoke_tokens P now ts) = map owner ts"
    by (simp add: revoke_tokens_def owner_def)
  then show ?thesis unfolding owners_def by (metis list.set_map)
qed

lemma owners_snoc [simp]: "owners (ts @ [t]) = insert (owner t) (owners ts)"
  by (simp add: owners_def)

text \<open>Where a call presenting a token that is already revoked can be.\<close>

definition doomed :: "string \<Rightarrow> refresh_pc \<Rightarrow> bool" where
  "doomed p pc \<longleftrightarrow> pc = At_Get p \<or> (\<exists>r. pc = At_Revoke_Chain r) \<or> (\<exists>e. pc = Returned (Inl e))"

context refresh_store
begin

lemma next_step:
  assumes "refresh_next J s pc w = (pc', w')" "as_refresh_tokens s = R"
  shows "env_step w w' \<and> (ok w \<longrightarrow> ok w') \<and> token_step (toks w) (toks w')
    \<and> (pc_owners pc \<subseteq> owners (toks w) \<longrightarrow>
       pc_owners pc' \<subseteq> owners (toks w) \<and> owners (toks w') = owners (toks w))"
proof (cases pc)
  case (At_Get p)
  obtain x where x: "rt_get_by_hash R (hash_refresh_token p) w = (x, w')"
    using assms At_Get by (cases "rt_get_by_hash R (hash_refresh_token p) w") (auto split: sum.splits)
  moreover have "pc_owners pc' \<subseteq> owners (toks w)"
    using assms(1) At_Get x get_Inr [of _ w] by (cases x) (auto simp: assms(2) owners_def split: if_splits)
  ultimately show ?thesis using get_step [OF x] by simp
next
  case (At_Clock row)
  with assms show ?thesis
    by (auto simp: time_now_def toks_next_tick ok_next_tick split: if_splits)
next
  case (At_Revoke row)
  then obtain x where x: "rt_revoke R (t_id row) w = (x, w')"
    "pc_owners pc' \<subseteq> {owner row}"
    using assms by (cases "rt_revoke R (t_id row) w") (auto simp: owner_def split: option.splits)
  moreover have "\<exists>now. toks w' = toks w \<or> toks w' = revoke_tokens (\<lambda>t. t_id t = t_id row) now (toks w)"
    using x revoke_None revoke_Some by (cases x) blast+
  ultimately show ?thesis using revoke_step [OF x(1)] At_Revoke by (auto intro: token_step_revoked)
next
  case (At_Revoke_Chain row)
  then obtain x where x: "rt_revoke_chain R (t_chain_id row) w = (x, w')" "pc_owners pc' = {}"
    using assms by (cases "rt_revoke_chain R (t_chain_id row) w") (auto split: option.splits)
  moreover have "\<exists>now. toks w' = toks w \<or> toks w' = revoke_tokens (\<lambda>t. t_chain_id t = t_chain_id row) now (toks w)"
    using x revoke_chain_None revoke_chain_Some by (cases x) blast+
  ultimately show ?thesis using revoke_chain_step [OF x(1)] by (auto intro: token_step_revoked)
next
  case (At_Mint u c)
  with assms show ?thesis
    by (auto simp: toks_next_tick ok_next_tick split: prod.splits sum.splits
        dest!: generate_refresh_token_state)
next
  case (At_Stamp u c p)
  with assms show ?thesis by (auto simp: time_now_def toks_next_tick ok_next_tick)
next
  case (At_Create u c p x)
  let ?c = "\<lparr>tc_user_id = u, tc_token_hash = hash_refresh_token p, tc_chain_id = c, tc_expires_at = x\<rparr>"
  obtain r where r: "rt_create R ?c w = (r, w')" "pc_owners pc' \<subseteq> {(u, c)}"
    using assms At_Create by (cases "rt_create R ?c w") (auto split: sum.splits)
  have "toks w' = toks w \<or> (\<exists>t. toks w' = toks w @ [t] \<and> stored_as ?c (stamp w x) t)"
    using r create_Inl [of ?c w _ w'] create_Inr [of ?c w _ w'] by (cases r) auto
  then show ?thesis
    using create_step [OF r(1)] r(2) At_Create
    by (auto simp: token_step_def stored_as_def owner_def) (metis only_revoked_refl)+
next
  case (At_Sign u c p)
  with assms show ?thesis
    by (auto simp: toks_next_tick ok_next_tick split: prod.splits sum.splits dest!: signer_sign_state)
qed (use assms in auto)

lemma next_doomed:
  assumes "refresh_next J s pc w = (pc', w')" "as_refresh_tokens s = R" "ok w" "doomed p pc"
    and "row \<in> set (toks w)" "t_token_hash row = hash_refresh_token p" "\<not> active row"
  shows "doomed p pc'"
proof -
  have same: "r = row" if "r \<in> set (toks w)" "t_token_hash r = hash_refresh_token p" for r
    using ok_hashes [OF assms(3)] that assms(5,6) by (auto intro: distinct_map_inj)
  from assms(4) show ?thesis unfolding doomed_def
    using assms(1,7) same
    by (auto simp: assms(2) active_def split: prod.splits sum.splits option.splits if_splits dest!: get_Inr)
qed

text \<open>Along any interleaving.\<close>

lemma sched_rows_stay:
  assumes "sched_reaches J s (pcs, w) (pcs', w')" "as_refresh_tokens s = R" "t \<in> set (toks w)"
  shows "\<exists>t'\<in>set (toks w'). same_token t t'"
  using assms(1)
proof (induction rule: rtranclp_induct2)
  case refl
  with assms(3) show ?case by (auto simp: same_token_def)
next
  case (step pcs1 w1 pcs2 w2)
  from step(2) have "token_step (toks w1) (toks w2)"
    by (auto elim!: sched_stepE dest: next_step [OF _ assms(2)])
  with step.IH token_step_in show ?case by (metis same_token_trans)
qed

lemma sched_doomed:
  assumes "sched_reaches J s (pcs, w) (pcs', w')" "as_refresh_tokens s = R" "ok w"
    and "row \<in> set (toks w)" "t_token_hash row = hash_refresh_token p" "\<not> active row"
    and "i < length pcs" "doomed p (pcs ! i)"
  shows "ok w' \<and> row \<in> set (toks w') \<and> length pcs' = length pcs \<and> doomed p (pcs' ! i)"
  using assms(1)
proof (induction rule: rtranclp_induct2)
  case refl
  with assms show ?case by simp
next
  case (step pcs1 w1 pcs2 w2)
  from step(2) obtain j pc' where j: "j < length pcs1" "refresh_next J s (pcs1 ! j) w1 = (pc', w2)"
    "pcs2 = pcs1[j := pc']" by (auto elim: sched_stepE)
  have "sched_reaches J s (pcs, w) (pcs2, w2)" using step by simp
  then have "row \<in> set (toks w2)"
    using sched_rows_stay [OF _ assms(2,4)] assms(6) by (fastforce simp: same_token_def)
  moreover have "doomed p pc'" if "j = i"
    using next_doomed [OF j(2) assms(2)] step.IH assms(5,6) that by blast
  ultimately show ?case
    using next_step [OF j(2) assms(2)] step.IH j by (auto simp: nth_list_update)
qed

lemma sched_owners:
  assumes "sched_reaches J s (pcs, w) (pcs', w')" "as_refresh_tokens s = R"
    and "\<forall>pc\<in>set pcs. pc_owners pc \<subseteq> owners (toks w)"
  shows "owners (toks w') = owners (toks w) \<and> (\<forall>pc\<in>set pcs'. pc_owners pc \<subseteq> owners (toks w))"
  using assms(1)
proof (induction rule: rtranclp_induct2)
  case refl
  with assms show ?case by simp
next
  case (step pcs1 w1 pcs2 w2)
  from step(2) obtain j pc' where j: "j < length pcs1" "refresh_next J s (pcs1 ! j) w1 = (pc', w2)"
    "pcs2 = pcs1[j := pc']" by (auto elim: sched_stepE)
  with next_step [OF j(2) assms(2)] step.IH show ?case
    by (auto dest!: set_update_subset_insert [THEN subsetD])
qed

end

subsection \<open>Properties\<close>

text \<open>The two models of \<open>Refresh\<close> agree: for every repository, signer and state, seven small
  steps of a call that runs alone return what \<open>auth_refresh\<close> returns, in the state it
  leaves.\<close>

lemma refresh_alone:
  "refresh_steps 7 J s (At_Get p) w =
     (case auth_refresh J s p w of (r, w') \<Rightarrow> (Returned r, w'))"
proof -
  have 7: "(7 :: nat) = Suc (Suc (Suc (Suc (Suc (Suc (Suc 0))))))" by simp
  have issue: "refresh_steps (Suc (Suc (Suc (Suc 0)))) J s (At_Mint u c) v =
      (case issue_refresh_and_access J s u c v of (r, v') \<Rightarrow> (Returned r, v'))" for u c v
    by (rule issue_alone)
  show ?thesis
    unfolding 7 refresh_steps.simps(2) [of "Suc (Suc (Suc (Suc (Suc (Suc 0)))))"]
      refresh_steps.simps(2) [of "Suc (Suc (Suc (Suc (Suc 0))))"]
      refresh_steps.simps(2) [of "Suc (Suc (Suc (Suc 0)))"]
    by (auto simp: auth_refresh_def time_now_def issue simp del: refresh_steps.simps(2)
        split: prod.split sum.split option.split)
qed

text \<open>C24. Under any interleaving of any number of concurrent \<open>Refresh\<close> calls, whatever fails
  in them, a token that is revoked at the start stays in the table exactly as it is, at every
  point of the interleaving, and a call that presents it never returns a pair.\<close>

theorem concurrent_refresh_rejects_revoked:
  assumes "world_ok w" and "row \<in> set (world_tokens w)" and "\<not> active row"
    and "t_token_hash row = hash_refresh_token p"
    and "sched_reaches J (pool_auth_service sg ttl) (pcs, w) (pcs', w')"
    and "i < length pcs" and "pcs ! i = At_Get p"
  shows "row \<in> set (world_tokens w') \<and> (\<forall>r. pcs' ! i = Returned r \<longrightarrow> (\<exists>e. r = Inl e))"
  using tokens.sched_doomed [OF assms(5) pool_auth_service_sel(2) assms(1,2,4,3,6), unfolded doomed_def]
    assms(7) by auto

text \<open>C25. Under any interleaving of concurrent \<open>Refresh\<close> calls, no token is ever stored for
  a (user, chain) pair that had none, no stored token is lost, and a revoked one stays as it is.\<close>

theorem concurrent_refresh_stays_in_chains:
  assumes "sched_reaches J (pool_auth_service sg ttl) (map At_Get ps, w) (pcs', w')"
  shows "owners (world_tokens w') = owners (world_tokens w)
    \<and> (\<forall>t\<in>set (world_tokens w). \<exists>t'\<in>set (world_tokens w'). same_token t t')"
  using tokens.sched_owners [OF assms pool_auth_service_sel(2)]
    tokens.sched_rows_stay [OF assms pool_auth_service_sel(2)] by auto

theorem concurrent_refresh_rejects_revoked_witness:
  "let row = sample_token 7 ''abc'' (Some 5);
       out = run_sched sample_jwt sample_auth [1, 0, 1, 0]
         ([At_Get ''abc'', At_Get ''abc''], sample_world [row])
   in refresh_token_to_model row \<in> set (world_tokens (snd out)) \<and> (\<exists>e. fst out ! 0 = Returned (Inl e))"
proof -
  let ?row = "refresh_token_to_model (sample_token 7 ''abc'' (Some 5))"
  let ?W = "sample_world [sample_token 7 ''abc'' (Some 5)]" and ?P = "[At_Get ''abc'', At_Get ''abc'']"
  obtain pcs' w' where run: "run_sched sample_jwt sample_auth [1, 0, 1, 0] (?P, ?W) = (pcs', w')"
    by fastforce
  have "sched_reaches sample_jwt sample_auth (?P, ?W) (pcs', w')"
    by (rule run_sched_reachesI [OF run]) simp
  moreover have "\<exists>r. pcs' ! 0 = Returned r" using run by (auto simp: sample_eval)
  ultimately show ?thesis
    using concurrent_refresh_rejects_revoked [of ?W ?row "''abc''" sample_jwt _ _ ?P pcs' w' 0] run
    by (auto simp: sample_world_ok active_def Let_def)
qed

theorem concurrent_refresh_stays_in_chains_witness:
  "owners (world_tokens (snd (run_sched sample_jwt sample_auth [1, 0, 0, 0, 1]
       (map At_Get [''abc'', ''xyz''], sample_world [sample_token 7 ''abc'' None])))) = {(1, 500)}"
proof -
  let ?S = "(map At_Get [''abc'', ''xyz''], sample_world [sample_token 7 ''abc'' None])"
  obtain pcs' w' where run: "run_sched sample_jwt sample_auth [1, 0, 0, 0, 1] ?S = (pcs', w')"
    by fastforce
  have "sched_reaches sample_jwt sample_auth ?S (pcs', w')"
    by (rule run_sched_reachesI [OF run]) simp
  from concurrent_refresh_stays_in_chains [OF this] run show ?thesis
    by (simp add: owners_def owner_def)
qed

text \<open>C37. Rotation is not atomic: two concurrent calls that present the same live token can both
  succeed. From a state with one session and one active token, a schedule of two calls ends with
  two pairs handed out and two active tokens in the one chain. (The second call read the row
  before the first revoked it; its own \<open>Revoke\<close> finds nothing left to revoke, which the
  repository reports as success.)\<close>

theorem concurrent_refresh_double_spend:
  "let w = sample_world [sample_token 7 ''abc'' None]
   in world_ok w \<and> sessions_good w (world_tokens w) \<and>
     (\<exists>w' a b. sched_reaches sample_jwt sample_auth ([At_Get ''abc'', At_Get ''abc''], w)
         ([Returned (Inr a), Returned (Inr b)], w') \<and> \<not> one_active (world_tokens w'))"
proof -
  let ?w = "sample_world [sample_token 7 ''abc'' None]"
  let ?S = "([At_Get ''abc'', At_Get ''abc''], ?w)"
  let ?is = "[1, 0, 0, 0, 0, 0, 0, 0, 1, 1, 1, 1, 1, 1]"
  obtain pcs' w' where run: "run_sched sample_jwt sample_auth ?is ?S = (pcs', w')" by fastforce
  then have "\<exists>a b. pcs' = [Returned (Inr a), Returned (Inr b)]"
    and "map (\<lambda>t. (t_chain_id t, active t)) (world_tokens w') = [(500, False), (500, True), (500, True)]"
    by (simp_all add: sample_eval hashes_distinct [symmetric]) (auto simp: world_tokens_def active_def)
  then obtain a b where "pcs' = [Returned (Inr a), Returned (Inr b)]" "\<not> one_active (world_tokens w')"
    by (auto simp: one_active_def)
  moreover have "sched_reaches sample_jwt sample_auth ?S (pcs', w')"
    by (rule run_sched_reachesI [OF run]) simp
  moreover have "sessions_good ?w (world_tokens ?w)"
    by (simp add: sessions_good_def one_active_def chains_issued_def active_def)
      (simp add: sample_world_def)
  moreover have "world_ok ?w" by (rule sample_world_ok) simp_all
  ultimately show ?thesis unfolding Let_def by blast
qed

text \<open>C38. Reuse detection can miss a rotation in flight: while one call rotates the live token of
  a chain, another presents a revoked token of it and reports the chain revoked, yet the first
  then inserts its successor, and the chain is left with an active token.\<close>

theorem concurrent_reuse_leaves_chain_active:
  "let w = sample_world [sample_token 7 ''abc'' (Some 5), sample_token 8 plain_zeros None]
   in world_ok w \<and>
     (\<exists>w' a. sched_reaches sample_jwt sample_auth ([At_Get plain_zeros, At_Get ''abc''], w)
         ([Returned (Inr a), Returned (Inl Err_Refresh_Token_Reuse)], w')
       \<and> (\<exists>t\<in>set (world_tokens w'). t_chain_id t = 500 \<and> active t))"
proof -
  let ?w = "sample_world [sample_token 7 ''abc'' (Some 5), sample_token 8 plain_zeros None]"
  let ?S = "([At_Get plain_zeros, At_Get ''abc''], ?w)"
  let ?is = "[1, 0, 0, 0, 1, 0, 0, 0, 0]"
  obtain pcs' w' where run: "run_sched sample_jwt sample_auth ?is ?S = (pcs', w')" by fastforce
  then have "\<exists>a. pcs' = [Returned (Inr a), Returned (Inl Err_Refresh_Token_Reuse)]"
    and chain: "map (\<lambda>t. (t_chain_id t, active t)) (world_tokens w') = [(500, False), (500, False), (500, True)]"
    by (simp_all add: sample_eval hashes_distinct [symmetric]) (auto simp: world_tokens_def active_def)
  moreover have "(500, True) \<in> set (map (\<lambda>t. (t_chain_id t, active t)) (world_tokens w'))"
    unfolding chain by simp
  then have "\<exists>t\<in>set (world_tokens w'). t_chain_id t = 500 \<and> active t" by auto
  moreover have "sched_reaches sample_jwt sample_auth ?S (pcs', w')"
    by (rule run_sched_reachesI [OF run]) simp
  moreover have "world_ok ?w" by (rule sample_world_ok) simp_all
  ultimately show ?thesis unfolding Let_def by blast
qed

end
