(* ===== verification/User_Claims.thy ===== *)
theory User_Claims
  imports Samples
begin

section \<open>Properties of the user service\<close>

text \<open>
  \<open>Create\<close>, \<open>Get\<close>, \<open>List\<close>, \<open>Update\<close> and \<open>Delete\<close> for the service as the
  server builds it, over the tables.
\<close>

subsection \<open>Lists\<close>

text \<open>C14. Pagination is complete and terminates: a client that follows \<open>NextCursor\<close> from the
  first page, with any limit (negative, zero or too large ones included), collects every user
  exactly once, newest first, in at most one request more than there are users, while the
  database answers and nobody writes in between.\<close>

theorem pages_enumerate_users:
  assumes "world_ok w" and "world_quiet_users w"
    and "\<forall>u\<in>set (world_users w). ts_store w (u_created_at u) = u_created_at u"
    and "length (world_users w) < n"
  shows "fst (fetch_pages n pool_user_service l None w) = Some (ordered_users (world_users w))"
  using live_user.fetch_pages_complete [OF pool_user_service_sel assms(1-3), of None n l] assms(4)
  by (simp add: after_cursor_def)

theorem pages_enumerate_users_witness:
  "fst (fetch_pages 2 pool_user_service (-5) None (sample_world [])) = Some [user_to_model sample_user]"
  using pages_enumerate_users [of "sample_world []" 2 "-5"]
  by (simp add: sample_world_ok sample_world_quiet_users sample_user_def ordered_users_def)

text \<open>C31. Every page is within bounds, whatever 32-bit limit the caller passes: at most 100 users,
  the newest first, all after the cursor; the next cursor is the last user's key exactly when the
  page is full, be it the last page or not. (The comment on \<open>ListResult\<close> says that it is nil
  when there are no more rows; the one on \<open>List\<close>, that it is set when there may be more.)\<close>

theorem list_page_bounds:
  assumes "world_ok w"
    and "user_service_list pool_user_service l c w = (Inr res, w')"
    and "\<And>k. c = Some k \<Longrightarrow> ts_store w (pc_created_at k) = pc_created_at k"
  shows "length (lr_users res) \<le> 100
    \<and> sorted_wrt newer (lr_users res)
    \<and> (\<forall>u\<in>set (lr_users res). u \<in> set (world_users w) \<and> after_cursor c u)
    \<and> lr_next_cursor res = (if length (lr_users res) = nat (sint (clamp_limit l))
         then Some (cursor_of (last (lr_users res))) else None)
    \<and> world_users w' = world_users w"
proof -
  let ?us = "filter (after_cursor c) (world_users w)" and ?n = "nat (sint (clamp_limit l))"
  note page = users.user_list_bound [OF assms(2) pool_user_service_sel assms(3)]
  have us: "lr_users res = take ?n (ordered_users ?us)" using page by (simp add: user_page_def)
  have "?n \<le> 100" using clamp_limit_range [of l] by (simp add: nat_le_iff)
  then have "length (lr_users res) \<le> 100" using us by simp
  moreover have "sorted_wrt newer (ordered_users ?us)"
    using users.ok_user_ids [OF assms(1)] by (intro ordered_users_desc distinct_map_filter)
  then have "sorted_wrt newer (lr_users res)" unfolding us by (rule sorted_wrt_take)
  moreover have "\<forall>u\<in>set (lr_users res). u \<in> set (world_users w) \<and> after_cursor c u"
    unfolding us using set_take_subset [of ?n "ordered_users ?us"] by auto
  ultimately show ?thesis using page by simp
qed

lemma sample_list:
  obtains res w' where "user_service_list pool_user_service l None (sample_world []) = (Inr res, w')"
  using live_user.user_list_live [OF pool_user_service_sel sample_world_quiet_users] by blast

theorem list_page_bounds_witness:
  "\<exists>res w'. user_service_list pool_user_service 2000000000 None (sample_world []) = (Inr res, w')
     \<and> length (lr_users res) \<le> 100 \<and> sorted_wrt newer (lr_users res)"
proof -
  obtain res w' where r: "user_service_list pool_user_service 2000000000 None (sample_world []) = (Inr res, w')"
    by (rule sample_list)
  from list_page_bounds [OF _ r] r show ?thesis by (simp add: sample_world_ok)
qed

text \<open>The next cursor does not tell whether there is a next page: when the last page is full,
  it is set although no user is left. (The comment on \<open>ListResult\<close> promises nil when there
  are no more rows; \<open>List\<close> itself only that more may exist.)\<close>

theorem next_cursor_after_last_user:
  assumes "user_service_list pool_user_service l None w = (Inr res, w')"
    and "length (world_users w) = nat (sint (clamp_limit l))"
  shows "mset (lr_users res) = mset (world_users w) \<and> lr_next_cursor res \<noteq> None"
  using users.user_list_bound [OF assms(1) pool_user_service_sel] assms(2)
  by (simp add: user_page_def after_cursor_def ordered_users_def)

theorem next_cursor_after_last_user_witness:
  "\<exists>res w'. user_service_list pool_user_service 1 None (sample_world []) = (Inr res, w')
     \<and> lr_users res = [user_to_model sample_user] \<and> lr_next_cursor res \<noteq> None"
proof -
  obtain res w' where r: "user_service_list pool_user_service 1 None (sample_world []) = (Inr res, w')"
    by (rule sample_list)
  from next_cursor_after_last_user [OF r] r show ?thesis by (simp add: clamp_limit_id)
qed

subsection \<open>Lookups\<close>

text \<open>C23. \<open>Get\<close> is exact while the database answers: it returns the one user with the id, and
  \<open>ErrUserNotFound\<close> exactly when there is none; it leaves the database as it is.\<close>

theorem user_get_exact:
  assumes "world_ok w" and "world_quiet_users w" and "user_service_get pool_user_service i w = (r, w')"
  shows "db w' = db w \<and>
    (case r of
       Inr u \<Rightarrow> u \<in> set (world_users w) \<and> u_id u = i \<and> (\<forall>v\<in>set (world_users w). u_id v = i \<longrightarrow> v = u)
     | Inl e \<Rightarrow> e = Err_User_Not_Found \<and> (\<forall>v\<in>set (world_users w). u_id v \<noteq> i))"
proof -
  have same: "db w' = db w"
    using assms(3)
    by (auto simp: user_service_get_def as_user_repo_def split: prod.splits sum.splits if_splits
        dest: user_repo_read_effect(1))
  from assms(3) pool_user_service_sel show ?thesis
  proof (cases rule: users.user_get_cases)
    case (found u)
    with same show ?thesis
      using users.ok_user_ids [OF assms(1)] by (auto intro: distinct_map_inj)
  next
    case (failed e)
    obtain x w1 where x: "us_get_by_id (as_user_repo pool_users) i w = (x, w1)" by fastforce
    with failed assms(3) obtain e' where "x = Inl e'" "\<not> errors_is e' Err_No_Rows"
      by (auto simp: user_service_get_def split: sum.splits if_splits)
    with live_user.quiet_us_get x assms(2) have False by blast
    then show ?thesis ..
  qed (use same in simp)
qed

theorem user_get_exact_witness:
  "fst (user_service_get pool_user_service 1 (sample_world [])) = Inr (user_to_model sample_user)
   \<and> fst (user_service_get pool_user_service 2 (sample_world [])) = Inl Err_User_Not_Found"
proof -
  have ok: "world_ok (sample_world [])" by (simp add: sample_world_ok)
  note rule = user_get_exact [OF ok sample_world_quiet_users prod.collapse [symmetric]]
  have id: "u_id (user_to_model sample_user) = 1" by (simp add: sample_user_def)
  have found: "x = Inr (user_to_model sample_user) \<and> i = 1 \<or> x = Inl Err_User_Not_Found \<and> i \<noteq> 1"
    if "x = fst (user_service_get pool_user_service i (sample_world []))" for x i
  proof (cases x)
    case (Inr u)
    then have "fst (user_service_get pool_user_service i (sample_world [])) = Inr u" using that by simp
    with rule [of i] have "u \<in> set (world_users (sample_world []))" "u_id u = i"
      by (simp_all only: sum.case)
    with Inr id show ?thesis by auto
  next
    case (Inl e)
    then have "fst (user_service_get pool_user_service i (sample_world [])) = Inl e" using that by simp
    with rule [of i] have "e = Err_User_Not_Found" "\<forall>v\<in>set (world_users (sample_world [])). u_id v \<noteq> i"
      by (auto simp only: sum.case)
    with Inl id show ?thesis by auto
  qed
  show ?thesis using found [OF refl, of 1] found [OF refl, of 2] by simp
qed

subsection \<open>Writes\<close>

text \<open>C29. \<open>Create\<close>, while the database answers: the password library's error if it refuses
  the password; \<open>ErrEmailAlreadyExists\<close>, and no change, exactly when a stored user has the
  address; otherwise exactly one new user with the given address and name, whose stored password
  is the hash and not the plaintext.\<close>

theorem user_create_exact:
  assumes "world_quiet_users w" and "user_service_create B pool_user_service inp w = (r, w')"
  shows "(case bc_generate B (tick w) 10 (cui_password inp) of
      Inl e \<Rightarrow> r = Inl (Wrapf ''hash password'' e) \<and> world_users w' = world_users w
    | Inr h \<Rightarrow>
        if \<exists>v\<in>set (world_users w). u_email v = cui_email inp
        then r = Inl Err_Email_Already_Exists \<and> world_users w' = world_users w
        else \<exists>u. r = Inr u \<and> world_users w' = world_users w @ [u] \<and> u_email u = cui_email inp
               \<and> u_name u = cui_name inp \<and> u_password_hash u = h)"
  using live_user.user_create_live [OF assms(2) pool_user_service_sel assms(1)]
  by (simp add: bcrypt_default_cost_def)

theorem user_create_exact_witness:
  "let new = (\<lambda>e. fst (user_service_create sample_bcrypt pool_user_service
        \<lparr>cui_email = e, cui_password = ''open sesame'', cui_name = ''Bo''\<rparr> (sample_world [])))
   in new ''ada@example.com'' = Inl Err_Email_Already_Exists
     \<and> (\<exists>u. new ''bo@example.com'' = Inr u \<and> u_password_hash u = ''hash:open sesame'')"
proof -
  let ?in = "\<lambda>e. \<lparr>cui_email = e, cui_password = ''open sesame'', cui_name = ''Bo''\<rparr>"
  note rule = user_create_exact [OF sample_world_quiet_users [of "[]"] prod.collapse [symmetric],
      where B = sample_bcrypt]
  show ?thesis
    using rule [of "?in ''ada@example.com''"] rule [of "?in ''bo@example.com''"]
    by (auto simp: sample_bcrypt_def sample_user_def)
qed

text \<open>C30. \<open>Update\<close> returns the user it patched: exactly the fields that were given are
  replaced, a given password by its hash, and all other users are as before.\<close>

theorem user_update_patches:
  assumes "user_service_update B pool_user_service i inp w = (Inr u, w')"
  shows "\<exists>v\<in>set (world_users w). u_id v = i \<and> u_id u = i \<and> u_created_at u = u_created_at v
    \<and> u_email u = (case uui_email inp of None \<Rightarrow> u_email v | Some e \<Rightarrow> e)
    \<and> u_name u = (case uui_name inp of None \<Rightarrow> u_name v | Some n \<Rightarrow> n)
    \<and> (case uui_password inp of None \<Rightarrow> u_password_hash u = u_password_hash v
       | Some pw \<Rightarrow> bc_generate B (tick w) 10 pw = Inr (u_password_hash u))
    \<and> world_users w' = map (\<lambda>v. if u_id v = i then u else v) (world_users w)"
  using assms pool_user_service_sel
proof (cases rule: users.user_update_cases)
  case (patched u' v now h)
  then show ?thesis
    by (intro bexI [of _ v])
      (auto simp: patch_user_def bcrypt_default_cost_def split: option.splits)
qed simp_all

theorem user_update_patches_witness:
  "\<exists>u w'. user_service_update sample_bcrypt pool_user_service 1
      \<lparr>uui_email = None, uui_password = Some ''sesame'', uui_name = Some ''Ada L.''\<rparr> (sample_world []) = (Inr u, w')
    \<and> u_email u = ''ada@example.com'' \<and> u_name u = ''Ada L.'' \<and> u_password_hash u = ''hash:sesame''"
proof -
  let ?inp = "\<lparr>uui_email = None, uui_password = Some ''sesame'', uui_name = Some ''Ada L.''\<rparr>"
  obtain u w' where r: "user_service_update sample_bcrypt pool_user_service 1 ?inp (sample_world []) = (Inr u, w')"
    by (simp add: user_service_update_def hash_password_def sample_bcrypt_def user_repo_defs run_stmt_def
        run_on_pool_def stmt_out_def sql_update_user_def sample_world_def sample_user_def next_tick_def
        Let_def to_null_string_def coalesce_def)
  from user_update_patches [OF r] r show ?thesis
    by (auto simp: sample_user_def sample_bcrypt_def)
qed

text \<open>C3. \<open>Delete\<close> that returns nil removes the user with the id, leaves every other user as
  it is, and ends all of the user's sessions: every refresh token of the user is gone, and no other
  token has changed.\<close>

theorem user_delete_cascades:
  assumes "world_ok w" and "user_service_delete pool_user_service i w = (None, w')"
  shows "world_users w' = filter (\<lambda>u. u_id u \<noteq> i) (world_users w)
    \<and> world_tokens w' = filter (\<lambda>t. t_user_id t \<noteq> i) (world_tokens w)"
  using assms by (rule user_service_delete_effect)

theorem user_delete_cascades_witness:
  "\<exists>w'. user_service_delete pool_user_service 1 (sample_world [sample_token 7 ''abc'' None]) = (None, w')
     \<and> world_users w' = [] \<and> world_tokens w' = []"
proof -
  let ?W = "sample_world [sample_token 7 ''abc'' None]"
  obtain w' where r: "user_service_delete pool_user_service 1 ?W = (None, w')"
    by (simp add: user_service_delete_def user_repo_defs run_stmt_def run_on_pool_def stmt_out_def
        sql_delete_user_def sample_world_def sample_user_def)
  from user_delete_cascades [OF _ r] r show ?thesis
    by (simp add: sample_world_ok sample_user_def)
qed

end
