(* ===== verification/Strconv.thy ===== *)
theory Strconv
  imports Prelude
begin

section \<open>Strings and numbers (strings, strconv, time.Duration)\<close>

text \<open>
  The functions of Go's \<open>strings\<close>, \<open>strconv\<close> and of \<open>time.Duration\<close> that the
  configuration and the handlers call, as functions on strings and integers. Lemmas: \<open>itoa\<close>
  is read back by \<open>atoi\<close>, and the whole seconds of a duration.
\<close>

subsection \<open>Cutting and joining\<close>

text \<open>\<open>strings.Cut(s, sep)\<close> for a separator of one byte.\<close>

definition cut :: "char \<Rightarrow> string \<Rightarrow> string \<times> string" where
  "cut c s = (takeWhile (\<lambda>x. x \<noteq> c) s, tl (dropWhile (\<lambda>x. x \<noteq> c) s))"

lemma cut_length: "s \<noteq> [] \<Longrightarrow> length (snd (cut c s)) < length s"
proof -
  assume "s \<noteq> []"
  then have "0 < length s" by simp
  with length_dropWhile_le [of "\<lambda>x. x \<noteq> c" s] show ?thesis
    unfolding cut_def snd_conv length_tl by linarith
qed

lemma cut_hit: "c \<notin> set a \<Longrightarrow> cut c (a @ c # b) = (a, b)"
  by (induction a) (auto simp: cut_def)

lemma cut_miss: "c \<notin> set a \<Longrightarrow> cut c a = (a, [])"
  by (induction a) (auto simp: cut_def)

text \<open>\<open>strings.Split(s, sep)\<close>: always at least one part.\<close>

fun split_on :: "char \<Rightarrow> string \<Rightarrow> string list" where
  "split_on c [] = [[]]"
| "split_on c (x # s) =
     (if x = c then [] # split_on c s
      else (case split_on c s of [] \<Rightarrow> [[x]] | p # ps \<Rightarrow> (x # p) # ps))"

text \<open>\<open>strings.Join(parts, sep)\<close>.\<close>

fun join_with :: "string \<Rightarrow> string list \<Rightarrow> string" where
  "join_with sep [] = []"
| "join_with sep [p] = p"
| "join_with sep (p # ps) = p @ sep @ join_with sep ps"

lemma split_on_not_Nil [simp]: "split_on c s \<noteq> []"
  by (cases s) (auto split: list.split)

lemma split_on_length: "length (split_on c s) = Suc (length (filter (\<lambda>x. x = c) s))"
  by (induction s) (auto split: list.split)

text \<open>
  \<open>strings.TrimSpace\<close> removes the code points that \<open>unicode.IsSpace\<close> accepts, here as
  their UTF-8 encodings; \<open>textproto.TrimString\<close> removes four ASCII characters.
\<close>

definition space_texts :: "string list" where
  "space_texts =
     [[CHR 0x20], [CHR 0x09], [CHR 0x0A], [CHR 0x0B], [CHR 0x0C], [CHR 0x0D],
      [CHR 0xC2, CHR 0x85], [CHR 0xC2, CHR 0xA0], [CHR 0xE1, CHR 0x9A, CHR 0x80],
      [CHR 0xE2, CHR 0x80, CHR 0xA8], [CHR 0xE2, CHR 0x80, CHR 0xA9], [CHR 0xE2, CHR 0x80, CHR 0xAF],
      [CHR 0xE2, CHR 0x81, CHR 0x9F], [CHR 0xE3, CHR 0x80, CHR 0x80]]
     @ map (\<lambda>b. [CHR 0xE2, CHR 0x80, char_of (b :: nat)]) [128..<139]"

text \<open>Removing, as often as possible, one of the non-empty texts from the front.\<close>

function strip_texts :: "string list \<Rightarrow> string \<Rightarrow> string" where
  "strip_texts ps s =
     (case find (\<lambda>p. p \<noteq> [] \<and> take (length p) s = p) ps of
        None \<Rightarrow> s
      | Some p \<Rightarrow> strip_texts ps (drop (length p) s))"
  by pat_completeness auto
termination
proof (relation "measure (\<lambda>(ps, s). length s)")
  fix ps :: "string list" and s p :: string
  assume "find (\<lambda>p. p \<noteq> [] \<and> take (length p) s = p) ps = Some p"
  then have "p \<noteq> []" "take (length p) s = p" by (auto dest: find_SomeD)
  then have "s \<noteq> []" by auto
  with \<open>p \<noteq> []\<close> show "((ps, drop (length p) s), ps, s) \<in> measure (\<lambda>(ps, s). length s)" by simp
qed simp

declare strip_texts.simps [simp del]

definition trim_space :: "string \<Rightarrow> string" where
  "trim_space s =
     rev (strip_texts (map rev space_texts) (rev (strip_texts space_texts s)))"

definition header_space :: "char \<Rightarrow> bool" where
  "header_space c \<longleftrightarrow> c \<in> {CHR 0x20, CHR 0x09, CHR 0x0A, CHR 0x0D}"

definition trim :: "(char \<Rightarrow> bool) \<Rightarrow> string \<Rightarrow> string" where
  "trim P s = rev (dropWhile P (rev (dropWhile P s)))"

lemma dropWhile_id: "\<forall>c\<in>set s. \<not> P c \<Longrightarrow> dropWhile P s = s"
  by (cases s) auto

lemma trim_id: "\<forall>c\<in>set s. \<not> P c \<Longrightarrow> trim P s = s"
  by (simp add: trim_def dropWhile_id)

subsection \<open>Decimal numbers\<close>

definition digit_char :: "nat \<Rightarrow> char" where
  "digit_char d = char_of (48 + d)"

definition digit_of :: "char \<Rightarrow> nat option" where
  "digit_of c = (let b = of_char c in if 48 \<le> b \<and> b \<le> (57 :: nat) then Some (b - 48) else None)"

fun nat_text :: "nat \<Rightarrow> string" where
  "nat_text n = (if n < 10 then [digit_char n] else nat_text (n div 10) @ [digit_char (n mod 10)])"

declare nat_text.simps [simp del]

text \<open>\<open>strconv.Itoa\<close>.\<close>

definition itoa :: "int \<Rightarrow> string" where
  "itoa i = (if i < 0 then CHR ''-'' # nat_text (nat (- i)) else nat_text (nat i))"

text \<open>Leading digits as a number.\<close>

fun read_digits :: "nat \<Rightarrow> string \<Rightarrow> nat" where
  "read_digits n [] = n"
| "read_digits n (c # s) = (case digit_of c of None \<Rightarrow> n | Some d \<Rightarrow> read_digits (10 * n + d) s)"

definition is_digit_char :: "char \<Rightarrow> bool" where
  "is_digit_char c \<longleftrightarrow> digit_of c \<noteq> None"

definition int64_min :: int where
  "int64_min = - (2 ^ 63)"

definition int64_max :: int where
  "int64_max = 2 ^ 63 - 1"

text \<open>\<open>strconv.Atoi\<close>, whose errors the callers only test for: a sign, digits and nothing
  else, in the range of a 64-bit \<open>int\<close>.\<close>

definition atoi :: "string \<Rightarrow> int option" where
  "atoi s =
     (let neg = (s \<noteq> [] \<and> hd s = CHR ''-'');
          t = (if s \<noteq> [] \<and> hd s \<in> {CHR ''-'', CHR ''+''} then tl s else s);
          v = (if neg then - int (read_digits 0 t) else int (read_digits 0 t))
      in if t = [] \<or> \<not> list_all is_digit_char t \<or> v < int64_min \<or> int64_max < v then None else Some v)"

text \<open>\<open>strconv.ParseBool\<close>.\<close>

definition parse_bool :: "string \<Rightarrow> bool option" where
  "parse_bool s =
     (if s \<in> {''1'', ''t'', ''T'', ''true'', ''TRUE'', ''True''} then Some True
      else if s \<in> {''0'', ''f'', ''F'', ''false'', ''FALSE'', ''False''} then Some False
      else None)"

lemma digit_of_char [simp]: "d < 10 \<Longrightarrow> digit_of (digit_char d) = Some d"
  by (simp add: digit_of_def digit_char_def)

lemma is_digit_digit_char [simp]: "d < 10 \<Longrightarrow> is_digit_char (digit_char d)"
  by (simp add: is_digit_char_def)

lemma read_digits_snoc:
  "list_all is_digit_char s \<Longrightarrow> d < 10 \<Longrightarrow> read_digits n (s @ [digit_char d]) = 10 * read_digits n s + d"
  by (induction s arbitrary: n) (auto simp: is_digit_char_def)

lemma nat_text_digits: "list_all is_digit_char (nat_text n)"
proof (induction n rule: nat_text.induct)
  case (1 n)
  then show ?case by (subst nat_text.simps) auto
qed

lemma nat_text_not_Nil [simp]: "nat_text n \<noteq> []"
  by (subst nat_text.simps) simp

lemma read_nat_text [simp]: "read_digits 0 (nat_text n) = n"
proof (induction n rule: nat_text.induct)
  case (1 n)
  show ?case
  proof (cases "n < 10")
    case True
    then show ?thesis by (subst nat_text.simps) simp
  next
    case False
    with 1 have IH: "read_digits 0 (nat_text (n div 10)) = n div 10" .
    show ?thesis
      using False by (subst nat_text.simps) (simp add: read_digits_snoc nat_text_digits IH)
  qed
qed

lemma sign_not_digit: "\<not> is_digit_char (CHR ''-'')" "\<not> is_digit_char (CHR ''+'')"
  by (simp_all add: is_digit_char_def digit_of_def)

lemma nat_text_hd: "hd (nat_text n) \<noteq> CHR ''-''" "hd (nat_text n) \<noteq> CHR ''+''"
proof -
  have "is_digit_char (hd (nat_text n))" using nat_text_digits [of n] by (simp add: list_all_iff)
  then show "hd (nat_text n) \<noteq> CHR ''-''" "hd (nat_text n) \<noteq> CHR ''+''"
    using sign_not_digit by metis+
qed

lemma atoi_itoa:
  assumes "int64_min \<le> i" "i \<le> int64_max"
  shows "atoi (itoa i) = Some i"
proof (cases "i < 0")
  case True
  with assms show ?thesis by (simp add: atoi_def itoa_def nat_text_digits)
next
  case False
  with assms nat_text_hd [of "nat i"] show ?thesis by (auto simp: atoi_def itoa_def nat_text_digits)
qed

subsection \<open>Floating point (float64) on non-negative rationals\<close>

text \<open>
  A fraction \<open>p / q\<close> rounded to the nearest number of 53 significant bits, ties to even: the
  conversions and operations of \<open>float64\<close> on the magnitudes that occur below, which are far
  from its exponent limits.
\<close>

fun bit_length :: "nat \<Rightarrow> nat" where
  "bit_length n = (if n = 0 then 0 else Suc (bit_length (n div 2)))"

declare bit_length.simps [simp del]

definition round_even :: "nat \<Rightarrow> nat \<Rightarrow> nat" where
  "round_even p q =
     (let d = p div q; r = p mod q in if 2 * r < q \<or> 2 * r = q \<and> even d then d else Suc d)"

definition scale2 :: "int \<Rightarrow> nat \<times> nat \<Rightarrow> nat \<times> nat" where
  "scale2 k = (\<lambda>(p, q). if 0 \<le> k then (p * 2 ^ nat k, q) else (p, q * 2 ^ nat (- k)))"

definition float64 :: "nat \<times> nat \<Rightarrow> nat \<times> nat" where
  "float64 x =
     (let k = 53 - (int (bit_length (fst x)) - int (bit_length (snd x)));
          (p, q) = scale2 k x;
          s = (if p < 2 ^ 53 * q then k else k - 1);
          (p', q') = scale2 s x
      in scale2 (- s) (round_even p' q', 1))"

definition float_add :: "nat \<times> nat \<Rightarrow> nat \<times> nat \<Rightarrow> nat \<times> nat" where
  "float_add = (\<lambda>(a, b) (c, d). float64 (a * d + c * b, b * d))"

definition float_mul :: "nat \<times> nat \<Rightarrow> nat \<times> nat \<Rightarrow> nat \<times> nat" where
  "float_mul = (\<lambda>(a, b) (c, d). float64 (a * c, b * d))"

definition float_div :: "nat \<times> nat \<Rightarrow> nat \<times> nat \<Rightarrow> nat \<times> nat" where
  "float_div = (\<lambda>(a, b) (c, d). float64 (a * d, b * c))"

definition float_trunc :: "nat \<times> nat \<Rightarrow> nat" where
  "float_trunc = (\<lambda>(a, b). a div b)"

lemma bit_length_bounds: "n < 2 ^ bit_length n \<and> (0 < n \<longrightarrow> 2 ^ bit_length n \<le> 2 * n)"
proof (induction n rule: bit_length.induct)
  case (1 n)
  show ?case
  proof (cases "n = 0")
    case False
    define m where "m = n div 2"
    have IH: "m < 2 ^ bit_length m" "0 < m \<longrightarrow> 2 ^ bit_length m \<le> 2 * m"
      using 1 False by (simp_all add: m_def)
    have bl: "bit_length n = Suc (bit_length m)"
      using False by (subst bit_length.simps) (simp add: m_def)
    have n: "2 * m \<le> n" "n \<le> 2 * m + 1" by (auto simp: m_def)
    show ?thesis
    proof (cases "m = 0")
      case True
      with n False have "n = 1" by simp
      with True bl show ?thesis by (simp add: bit_length.simps [of 0])
    next
      case m: False
      with IH n bl show ?thesis by simp
    qed
  qed (simp add: bit_length.simps)
qed

lemma round_even_exact: "0 < q \<Longrightarrow> round_even (n * q) q = n"
  by (simp add: round_even_def Let_def)

text \<open>Integers below \<open>2 ^ 53\<close> are exact.\<close>

lemma float64_exact:
  assumes "0 < q" "n < 2 ^ 53"
  obtains t where "float64 (n * q, q) = (n * 2 ^ t, 2 ^ t)"
proof -
  define k where "k = 53 - (int (bit_length (n * q)) - int (bit_length q))"
  have k: "0 \<le> k"
  proof (rule ccontr)
    assume "\<not> 0 \<le> k"
    then have b: "53 + bit_length q < bit_length (n * q)" by (simp add: k_def)
    then have "(2 :: nat) ^ Suc (53 + bit_length q) \<le> 2 ^ bit_length (n * q)"
      by (intro power_increasing) simp_all
    moreover have "0 < n * q" using b bit_length.simps [of 0] by (cases "n * q = 0") auto
    ultimately have "2 ^ 53 * 2 ^ bit_length q \<le> n * q"
      using bit_length_bounds [of "n * q"] by (simp add: power_add)
    moreover have "n * q < 2 ^ 53 * 2 ^ bit_length q"
      using assms bit_length_bounds [of q] by (intro mult_strict_mono) simp_all
    ultimately show False by simp
  qed
  define s where "s = (if n * q * 2 ^ nat k < 2 ^ 53 * q then k else k - 1)"
  have s: "0 \<le> s"
  proof (cases "k = 0")
    case True
    with assms show ?thesis by (simp add: s_def)
  qed (use k in \<open>simp add: s_def\<close>)
  have up: "scale2 i (x, y) = (x * 2 ^ nat i, y)" if "0 \<le> i" for i x y
    using that by (simp add: scale2_def)
  have "float64 (n * q, q) = scale2 (- s) (round_even (n * q * 2 ^ nat s) q, 1)"
    unfolding float64_def fst_conv snd_conv k_def [symmetric] Let_def up [OF k] prod.case
      s_def [symmetric] up [OF s] by (rule refl)
  moreover have "n * q * 2 ^ nat s = n * 2 ^ nat s * q" by (simp only: ac_simps)
  ultimately have f: "float64 (n * q, q) = scale2 (- s) (n * 2 ^ nat s, 1)"
    by (simp only: round_even_exact [OF assms(1)])
  have "scale2 (- s) (n * 2 ^ nat s, 1) = (n * 2 ^ nat s, 2 ^ nat s)"
    using s by (cases "s = 0") (simp_all add: scale2_def)
  with f show thesis by (intro that) (rule trans)
qed

subsection \<open>Durations\<close>

text \<open>\<open>int(d.Seconds())\<close>: whole and fractional seconds are added as \<open>float64\<close>, the sum
  is cut off towards zero.\<close>

definition int_seconds :: "duration \<Rightarrow> int" where
  "int_seconds d =
     (let n = nat \<bar>d\<bar>;
          f = float_div (float64 (n mod 1000000000, 1)) (1000000000, 1);
          t = int (float_trunc (float_add (float64 (n div 1000000000, 1)) f))
      in if d < 0 then - t else t)"

lemma int_seconds_whole:
  assumes "0 \<le> n" "n < 2 ^ 53"
  shows "int_seconds (n * second) = n"
proof -
  define m where "m = nat n"
  have m: "m < 2 ^ 53" "n = int m" using assms by (simp_all add: m_def nat_less_iff)
  obtain t where t: "float64 (m, 1) = (m * 2 ^ t, 2 ^ t)" using float64_exact [of 1 m] m by auto
  obtain u where u: "float64 (0, 1) = (0, 2 ^ u)" using float64_exact [of 1 0] by auto
  obtain v where v: "float_div (0, 2 ^ u) (1000000000, 1) = (0, 2 ^ v)"
    using float64_exact [of "2 ^ u * 1000000000" 0] by (auto simp: float_div_def)
  obtain x where x: "float_add (m * 2 ^ t, 2 ^ t) (0, 2 ^ v) = (m * 2 ^ x, 2 ^ x)"
    using float64_exact [of "2 ^ t * 2 ^ v" m] m(1) by (auto simp: float_add_def ac_simps)
  have "nat \<bar>n * second\<bar> = m * 1000000000" by (simp add: m(2) second_def nat_mult_distrib)
  then show ?thesis
    by (simp add: int_seconds_def Let_def t u v x float_trunc_def m(2) second_def del: One_nat_def)
qed

text \<open>
  \<open>time.ParseDuration\<close>: a sign, then terms of a decimal number and a unit, summed up in
  nanoseconds within 64 bits; the fraction of a term is computed in \<open>float64\<close>. \<open>None\<close> is
  an error.
\<close>

definition duration_unit :: "string \<Rightarrow> nat option" where
  "duration_unit u =
     map_of [(''ns'', 1), (''us'', 1000), (CHR 0xC2 # CHR 0xB5 # ''s'', 1000),
             (CHR 0xCE # CHR 0xBC # ''s'', 1000), (''ms'', 1000000), (''s'', 1000000000),
             (''m'', 60000000000), (''h'', 3600000000000)] u"

fun leading_int :: "nat \<Rightarrow> string \<Rightarrow> nat option" where
  "leading_int x [] = Some x"
| "leading_int x (c # s) =
     (case digit_of c of
        None \<Rightarrow> Some x
      | Some d \<Rightarrow>
          if 2 ^ 63 div 10 < x then None
          else if 2 ^ 63 < 10 * x + d then None
          else leading_int (10 * x + d) s)"

text \<open>The digits after the point and the power of ten they are divided by; digits beyond 64
  bits are dropped.\<close>

fun leading_fraction :: "nat \<Rightarrow> nat \<Rightarrow> string \<Rightarrow> nat \<times> nat" where
  "leading_fraction x scale [] = (x, scale)"
| "leading_fraction x scale (c # s) =
     (case digit_of c of
        None \<Rightarrow> (x, scale)
      | Some d \<Rightarrow>
          if (2 ^ 63 - 1) div 10 < x \<or> 2 ^ 63 < 10 * x + d then (x, scale)
          else leading_fraction (10 * x + d) (10 * scale) s)"

definition skip_digits :: "string \<Rightarrow> string" where
  "skip_digits = dropWhile is_digit_char"

definition unit_char :: "char \<Rightarrow> bool" where
  "unit_char c \<longleftrightarrow> c \<noteq> CHR ''.'' \<and> \<not> is_digit_char c"

definition fraction_value :: "nat \<Rightarrow> nat \<Rightarrow> nat \<Rightarrow> nat" where
  "fraction_value f scale unit =
     float_trunc (float_mul (float64 (f, 1)) (float_div (float64 (unit, 1)) (float64 (scale, 1))))"

definition duration_term :: "string \<Rightarrow> (nat \<times> string) option" where
  "duration_term s =
     (let s1 = skip_digits s;
          pre = (s1 \<noteq> s);
          point = (s1 \<noteq> [] \<and> hd s1 = CHR ''.'');
          s2 = (if point then tl s1 else s1);
          s3 = (if point then skip_digits s2 else s2);
          post = (point \<and> s3 \<noteq> s2);
          (f, scale) = (if point then leading_fraction 0 1 s2 else (0, 1));
          u = takeWhile unit_char s3
      in case leading_int 0 s of
           None \<Rightarrow> None
         | Some v \<Rightarrow>
             if \<not> pre \<and> \<not> post \<or> u = [] then None
             else (case duration_unit u of
                None \<Rightarrow> None
              | Some n \<Rightarrow>
                  if 2 ^ 63 div n < v then None
                  else (let t = v * n + (if 0 < f then fraction_value f scale n else 0)
                        in if 2 ^ 63 < t then None else Some (t, dropWhile unit_char s3))))"

lemma duration_term_shorter: "duration_term s = Some (v, r) \<Longrightarrow> length r < length s"
proof -
  assume t: "duration_term s = Some (v, r)"
  define s1 where "s1 = skip_digits s"
  define s2 where "s2 = (if s1 \<noteq> [] \<and> hd s1 = CHR ''.'' then tl s1 else s1)"
  define s3 where "s3 = (if s1 \<noteq> [] \<and> hd s1 = CHR ''.'' then skip_digits s2 else s2)"
  have "length s1 \<le> length s" unfolding s1_def skip_digits_def by (rule length_dropWhile_le)
  moreover have "length s2 \<le> length s1" unfolding s2_def by simp
  moreover have "length s3 \<le> length s2"
    unfolding s3_def skip_digits_def using length_dropWhile_le [of is_digit_char s2] by simp
  moreover have r: "r = dropWhile unit_char s3" "takeWhile unit_char s3 \<noteq> []"
    using t by (auto simp: duration_term_def Let_def s1_def s2_def s3_def
        split: option.splits if_splits prod.splits)
  then have "length r < length s3"
    using takeWhile_dropWhile_id [of unit_char s3] by (metis length_append less_add_same_cancel2 length_greater_0_conv)
  ultimately show ?thesis by linarith
qed

function duration_terms :: "nat \<Rightarrow> string \<Rightarrow> nat option" where
  "duration_terms d s =
     (if s = [] then Some d
      else (case duration_term s of
              None \<Rightarrow> None
            | Some (v, r) \<Rightarrow> if 2 ^ 63 < d + v then None else duration_terms (d + v) r))"
  by pat_completeness auto
termination
  by (relation "measure (\<lambda>(d, s). length s)") (auto dest: duration_term_shorter)

declare duration_terms.simps [simp del]

definition parse_duration :: "string \<Rightarrow> duration option" where
  "parse_duration s =
     (let neg = (s \<noteq> [] \<and> hd s = CHR ''-'');
          t = (if s \<noteq> [] \<and> hd s \<in> {CHR ''-'', CHR ''+''} then tl s else s)
      in if t = ''0'' then Some 0
         else if t = [] then None
         else (case duration_terms 0 t of
                 None \<Rightarrow> None
               | Some d \<Rightarrow>
                   if neg then Some (- int d)
                   else if 2 ^ 63 - 1 < d then None else Some (int d)))"

lemma parse_duration_range:
  assumes "parse_duration s = Some d"
  shows "int64_min \<le> d \<and> d \<le> int64_max"
proof -
  have terms: "duration_terms a t = Some b \<Longrightarrow> a \<le> 2 ^ 63 \<Longrightarrow> b \<le> 2 ^ 63" for a t b
  proof (induction a t rule: duration_terms.induct)
    case (1 a t)
    from 1(2) show ?case
      by (subst (asm) duration_terms.simps)
        (use 1(1,3) in \<open>auto split: if_splits option.splits\<close>)
  qed
  show ?thesis
    using assms terms [of 0]
    by (auto simp: parse_duration_def Let_def int64_min_def int64_max_def split: if_splits option.splits)
qed

end
