(* ===== verification/Utf8.thy ===== *)
theory Utf8
  imports Prelude
begin

section \<open>UTF-8 (unicode/utf8)\<close>

text \<open>
  Go strings are bytes; \<open>encoding/json\<close> and the validator read them as UTF-8. A step of
  \<open>utf8.DecodeRune\<close> gives the code point at the front of a string and its width, with
  \<open>U+FFFD\<close> of width 1 for a byte that starts no well-formed sequence;
  \<open>utf8.AppendRune\<close> is the inverse on code points that are not surrogates.
\<close>

abbreviation byte_val :: "char \<Rightarrow> nat" where
  "byte_val c \<equiv> of_char c"

definition rune_error :: nat where
  "rune_error = 65533"

definition cont_byte :: "nat \<Rightarrow> bool" where
  "cont_byte b \<longleftrightarrow> 128 \<le> b \<and> b \<le> 191"

text \<open>The range the second byte must be in, by the first byte (the table \<open>acceptRanges\<close>).\<close>

definition second_byte_ok :: "nat \<Rightarrow> nat \<Rightarrow> bool" where
  "second_byte_ok a b \<longleftrightarrow>
     (if a = 224 then 160 else if a = 240 then 144 else 128) \<le> b \<and>
     b \<le> (if a = 237 then 159 else if a = 244 then 143 else 191)"

fun decode_rune :: "nat list \<Rightarrow> nat \<times> nat" where
  "decode_rune [] = (rune_error, 0)"
| "decode_rune (a # bs) =
     (if a < 128 then (a, 1)
      else if 194 \<le> a \<and> a \<le> 223 then
        (case bs of b # _ \<Rightarrow> if cont_byte b then ((a - 192) * 64 + (b - 128), 2) else (rune_error, 1)
         | [] \<Rightarrow> (rune_error, 1))
      else if 224 \<le> a \<and> a \<le> 239 then
        (case bs of b # c # _ \<Rightarrow>
             if second_byte_ok a b \<and> cont_byte c
             then ((a - 224) * 4096 + (b - 128) * 64 + (c - 128), 3) else (rune_error, 1)
         | _ \<Rightarrow> (rune_error, 1))
      else if 240 \<le> a \<and> a \<le> 244 then
        (case bs of b # c # d # _ \<Rightarrow>
             if second_byte_ok a b \<and> cont_byte c \<and> cont_byte d
             then ((a - 240) * 262144 + (b - 128) * 4096 + (c - 128) * 64 + (d - 128), 4)
             else (rune_error, 1)
         | _ \<Rightarrow> (rune_error, 1))
      else (rune_error, 1))"

definition encode_rune :: "nat \<Rightarrow> nat list" where
  "encode_rune r =
     (if r < 128 then [r]
      else if r < 2048 then [192 + r div 64, 128 + r mod 64]
      else if 55296 \<le> r \<and> r \<le> 57343 \<or> 1114111 < r then [239, 191, 189]
      else if r < 65536 then [224 + r div 4096, 128 + r div 64 mod 64, 128 + r mod 64]
      else [240 + r div 262144, 128 + r div 4096 mod 64, 128 + r div 64 mod 64, 128 + r mod 64])"

definition valid_rune :: "nat \<Rightarrow> bool" where
  "valid_rune r \<longleftrightarrow> r < 55296 \<or> 57343 < r \<and> r \<le> 1114111"

lemma decode_rune_width: "bs \<noteq> [] \<Longrightarrow> 1 \<le> snd (decode_rune bs) \<and> snd (decode_rune bs) \<le> length bs"
  by (cases bs) (auto split: list.split)

lemma decode_encode_rune:
  assumes "valid_rune r"
  shows "decode_rune (encode_rune r @ bs) = (r, length (encode_rune r))"
proof -
  consider "r < 128" | "128 \<le> r" "r < 2048" | "2048 \<le> r" "r < 65536" "\<not> (55296 \<le> r \<and> r \<le> 57343)"
    | "65536 \<le> r" "r \<le> 1114111"
    using assms by (fastforce simp: valid_rune_def)
  then show ?thesis
  proof cases
    case 1
    then show ?thesis by (simp add: encode_rune_def)
  next
    case 2
    define a b where "a = r div 64" and "b = r mod 64"
    have "2 \<le> a" "a < 32" "b < 64" "r = a * 64 + b"
      using 2 by (simp_all add: a_def b_def less_eq_div_iff_mult_less_eq div_less_iff_less_mult)
    then show ?thesis
      using 2 by (simp add: encode_rune_def a_def [symmetric] b_def [symmetric] cont_byte_def)
  next
    case 3
    define a b c where "a = r div 4096" and "b = r div 64 mod 64" and "c = r mod 64"
    have r: "r = a * 4096 + b * 64 + c"
    proof -
      have "r = r div 64 * 64 + c" by (simp add: c_def)
      also have "r div 64 = a * 64 + b"
        using div_mult_mod_eq [of "r div 64" 64] by (simp add: a_def b_def div_mult2_eq [symmetric])
      finally show ?thesis by simp
    qed
    have "b < 64" "c < 64" "a < 16" using 3 by (simp_all add: a_def b_def c_def div_less_iff_less_mult)
    moreover have "a = 0 \<Longrightarrow> 32 \<le> b" using 3 r \<open>c < 64\<close> by linarith
    moreover have "a = 13 \<Longrightarrow> b < 32"
    proof -
      assume "a = 13"
      then have "r \<le> 57343" using r \<open>b < 64\<close> \<open>c < 64\<close> by linarith
      with 3 have "r < 55296" by linarith
      with \<open>a = 13\<close> r show ?thesis by linarith
    qed
    moreover have "encode_rune r = [224 + a, 128 + b, 128 + c]"
      using 3 by (auto simp: encode_rune_def a_def b_def c_def)
    ultimately show ?thesis by (auto simp: cont_byte_def second_byte_ok_def r [symmetric])
  next
    case 4
    define a b c d where "a = r div 262144" and "b = r div 4096 mod 64" and "c = r div 64 mod 64"
      and "d = r mod 64"
    have r: "r = a * 262144 + b * 4096 + c * 64 + d"
    proof -
      have "r = r div 64 * 64 + d" by (simp add: d_def)
      also have "r div 64 = r div 4096 * 64 + c"
        using div_mult_mod_eq [of "r div 64" 64] by (simp add: c_def div_mult2_eq [symmetric])
      also have "r div 4096 = a * 64 + b"
        using div_mult_mod_eq [of "r div 4096" 64] by (simp add: a_def b_def div_mult2_eq [symmetric])
      finally show ?thesis by simp
    qed
    have "b < 64" "c < 64" "d < 64" "a < 5" using 4
      by (simp_all add: a_def b_def c_def d_def div_less_iff_less_mult)
    moreover have "a = 0 \<Longrightarrow> 16 \<le> b" "a = 4 \<Longrightarrow> b < 16"
      using 4 r \<open>c < 64\<close> \<open>d < 64\<close> by linarith+
    moreover have "encode_rune r = [240 + a, 128 + b, 128 + c, 128 + d]"
      using 4 by (auto simp: encode_rune_def a_def b_def c_def d_def)
    ultimately show ?thesis by (auto simp: cont_byte_def second_byte_ok_def r [symmetric])
  qed
qed

text \<open>\<open>utf8.RuneCountInString\<close>.\<close>

function rune_count :: "nat list \<Rightarrow> nat" where
  "rune_count bs = (if bs = [] then 0 else Suc (rune_count (drop (snd (decode_rune bs)) bs)))"
  by pat_completeness auto
termination
proof (relation "measure length")
  fix bs :: "nat list"
  assume "bs \<noteq> []"
  then show "(drop (snd (decode_rune bs)) bs, bs) \<in> measure length"
    using decode_rune_width [of bs] by (simp add: diff_less_mono2)
qed simp

declare rune_count.simps [simp del]

lemma rune_count_Nil [simp]: "rune_count [] = 0"
  by (subst rune_count.simps) simp

lemma rune_count_Cons:
  "rune_count (b # bs) = Suc (rune_count (drop (snd (decode_rune (b # bs))) (b # bs)))"
  by (subst rune_count.simps) simp

definition string_runes :: "string \<Rightarrow> nat" where
  "string_runes s = rune_count (map of_char s)"

lemma rune_count_le: "rune_count bs \<le> length bs"
proof (induction bs rule: rune_count.induct)
  case (1 bs)
  show ?case
  proof (cases "bs = []")
    case False
    with 1 decode_rune_width [of bs] show ?thesis
      by (subst rune_count.simps) fastforce
  qed simp
qed

lemma rune_count_ascii: "\<forall>b\<in>set bs. b < 128 \<Longrightarrow> rune_count bs = length bs"
  by (induction bs) (simp_all add: rune_count_Cons)

end
