(* ===== verification/Json.thy ===== *)
theory Json
  imports Utf8
begin

section \<open>JSON texts (encoding/json)\<close>

text \<open>
  What the handlers use of \<open>encoding/json\<close>, on values: \<open>json_render\<close> is what
  \<open>Encoder.Encode\<close> writes for a value (without its final newline, HTML escaping on),
  \<open>json_parse\<close> reads one value from the front of a byte stream as \<open>Decoder.Decode\<close>
  does, with the scanner's nesting limit. A string that is not UTF-8 is repaired as the library
  repairs it, by \<open>U+FFFD\<close> for each offending byte (\<open>utf8_clean\<close>).

  The lemmas: the fuel of the parser is enough, and parsing a rendered value gives the value
  back (\<open>json_roundtrip\<close>).
\<close>

datatype json =
    J_Null
  | J_Bool bool
  | J_Num string
  | J_Str string
  | J_Arr "json list"
  | J_Obj "(string \<times> json) list"

subsection \<open>Strings\<close>

definition hex_digit :: "nat \<Rightarrow> nat" where
  "hex_digit n = (if n < 10 then 48 + n else 87 + n)"

definition hex_value :: "nat \<Rightarrow> nat option" where
  "hex_value b =
     (if 48 \<le> b \<and> b \<le> 57 then Some (b - 48)
      else if 97 \<le> b \<and> b \<le> 102 then Some (b - 87)
      else if 65 \<le> b \<and> b \<le> 70 then Some (b - 55) else None)"

definition html_safe :: "nat \<Rightarrow> bool" where
  "html_safe b \<longleftrightarrow> 32 \<le> b \<and> b < 128 \<and> b \<notin> {34, 38, 60, 62, 92}"

text \<open>The escape of an ASCII byte that is not written as it is.\<close>

definition escape_ascii :: "nat \<Rightarrow> nat list" where
  "escape_ascii b =
     (if b = 34 \<or> b = 92 then [92, b]
      else if b = 8 then [92, 98] else if b = 12 then [92, 102] else if b = 10 then [92, 110]
      else if b = 13 then [92, 114] else if b = 9 then [92, 116]
      else [92, 117, 48, 48, hex_digit (b div 16), hex_digit (b mod 16)])"

text \<open>What the bytes of one rune are written as, and the rest of the string.\<close>

definition quote_rune :: "nat list \<Rightarrow> nat list" where
  "quote_rune bs =
     (if hd bs < 128 then (if html_safe (hd bs) then [hd bs] else escape_ascii (hd bs))
      else if snd (decode_rune bs) = 1 then [92, 117, 102, 102, 102, 100]
      else if fst (decode_rune bs) \<in> {8232, 8233}
      then [92, 117, 50, 48, 50, hex_digit (fst (decode_rune bs) - 8224)]
      else take (snd (decode_rune bs)) bs)"

function json_quote :: "nat list \<Rightarrow> nat list" where
  "json_quote bs =
     (if bs = [] then [] else quote_rune bs @ json_quote (drop (snd (decode_rune bs)) bs))"
  by pat_completeness auto
termination
  using decode_rune_width by (relation "measure length") (auto simp: diff_less_mono2 Suc_le_eq)

text \<open>The repaired string.\<close>

function utf8_clean :: "nat list \<Rightarrow> nat list" where
  "utf8_clean bs =
     (if bs = [] then []
      else encode_rune (fst (decode_rune bs)) @ utf8_clean (drop (snd (decode_rune bs)) bs))"
  by pat_completeness auto
termination
  using decode_rune_width by (relation "measure length") (auto simp: diff_less_mono2 Suc_le_eq)

declare json_quote.simps [simp del] utf8_clean.simps [simp del]

text \<open>
  Reading: the scanner checks a string literal byte by byte and keeps its raw text;
  \<open>unquote\<close> then interprets it, joining surrogate pairs and repairing bad UTF-8.
\<close>

datatype 'a scan = Scanned 'a "nat list" | Short | Malformed | Out_Of_Fuel

fun scan_map :: "('a \<Rightarrow> 'b) \<Rightarrow> 'a scan \<Rightarrow> 'b scan" where
  "scan_map f (Scanned x r) = Scanned (f x) r"
| "scan_map f Short = Short"
| "scan_map f Malformed = Malformed"
| "scan_map f Out_Of_Fuel = Out_Of_Fuel"

text \<open>Going on with what was read, and with the next byte that is not white space.\<close>

fun scan_bind :: "'a scan \<Rightarrow> ('a \<Rightarrow> nat list \<Rightarrow> 'b scan) \<Rightarrow> 'b scan" where
  "scan_bind (Scanned x r) f = f x r"
| "scan_bind Short f = Short"
| "scan_bind Malformed f = Malformed"
| "scan_bind Out_Of_Fuel f = Out_Of_Fuel"

fun scan_hex :: "nat \<Rightarrow> nat list \<Rightarrow> nat list scan" where
  "scan_hex 0 s = Scanned [] s"
| "scan_hex (Suc n) [] = Short"
| "scan_hex (Suc n) (b # s) =
     (if hex_value b = None then Malformed else scan_map (\<lambda>x. b # x) (scan_hex n s))"

lemma scan_hex_length: "scan_hex n s = Scanned x r \<Longrightarrow> length s = length r + n"
proof (induction n s arbitrary: x rule: scan_hex.induct)
  case (3 n b s)
  then show ?case by (cases "scan_hex n s") (auto split: if_splits)
qed auto

function scan_string :: "nat list \<Rightarrow> nat list scan" where
  "scan_string [] = Short"
| "scan_string (b # s) =
     (if b = 34 then Scanned [] s
      else if b = 92 then
        (case s of
           [] \<Rightarrow> Short
         | e # s' \<Rightarrow>
             if e \<in> {34, 47, 92, 98, 102, 110, 114, 116}
             then scan_map (\<lambda>x. b # e # x) (scan_string s')
             else if e = 117 then
               (case scan_hex 4 s' of
                  Scanned h s'' \<Rightarrow> scan_map (\<lambda>x. b # e # h @ x) (scan_string s'')
                | Short \<Rightarrow> Short | Malformed \<Rightarrow> Malformed | Out_Of_Fuel \<Rightarrow> Out_Of_Fuel)
             else Malformed)
      else if b < 32 then Malformed
      else scan_map (\<lambda>x. b # x) (scan_string s))"
  by pat_completeness auto
termination
  by (relation "measure length") (auto dest: scan_hex_length)

declare scan_string.simps(2) [simp del]

definition get_u4 :: "nat list \<Rightarrow> nat option" where
  "get_u4 s =
     (case s of
        b # e # w # x # y # z # _ \<Rightarrow>
          if b = 92 \<and> e = 117 then
            (case (hex_value w, hex_value x, hex_value y, hex_value z) of
               (Some w, Some x, Some y, Some z) \<Rightarrow> Some (w * 4096 + x * 256 + y * 16 + z)
             | _ \<Rightarrow> None)
          else None
      | _ \<Rightarrow> None)"

definition surrogate :: "nat \<Rightarrow> bool" where
  "surrogate r \<longleftrightarrow> 55296 \<le> r \<and> r < 57344"

definition surrogate_pair :: "nat \<Rightarrow> nat option \<Rightarrow> nat option" where
  "surrogate_pair hi lo =
     (case lo of
        Some l \<Rightarrow>
          if 55296 \<le> hi \<and> hi < 56320 \<and> 56320 \<le> l \<and> l < 57344
          then Some ((hi - 55296) * 1024 + (l - 56320) + 65536) else None
      | None \<Rightarrow> None)"

text \<open>One step of interpreting a raw literal: the bytes it stands for and how many raw bytes
  were read.\<close>

definition unquote_step :: "nat list \<Rightarrow> nat list \<times> nat" where
  "unquote_step s =
     (if hd s = 92 \<and> tl s \<noteq> [] then
        (let e = hd (tl s) in
         if e = 117 then
           (case get_u4 s of
              None \<Rightarrow> ([], length s)
            | Some r \<Rightarrow>
                if surrogate r then
                  (case surrogate_pair r (get_u4 (drop 6 s)) of
                     Some p \<Rightarrow> (encode_rune p, 12)
                   | None \<Rightarrow> (encode_rune rune_error, 6))
                else (encode_rune r, 6))
         else ([if e = 98 then 8 else if e = 102 then 12 else if e = 110 then 10
                else if e = 114 then 13 else if e = 116 then 9 else e], 2))
      else if hd s < 128 then ([hd s], 1)
      else (encode_rune (fst (decode_rune s)), snd (decode_rune s)))"

lemma unquote_step_progress: "s \<noteq> [] \<Longrightarrow> 1 \<le> snd (unquote_step s)"
  using decode_rune_width [of s]
  by (auto simp: unquote_step_def Let_def Suc_le_eq split: option.split)

function unquote :: "nat list \<Rightarrow> nat list" where
  "unquote s = (if s = [] then [] else fst (unquote_step s) @ unquote (drop (snd (unquote_step s)) s))"
  by pat_completeness auto
termination
  using unquote_step_progress by (relation "measure length") (auto simp: diff_less_mono2 Suc_le_eq)

declare unquote.simps [simp del]

subsection \<open>Values\<close>

definition bytes_of_string :: "string \<Rightarrow> nat list" where
  "bytes_of_string s = map of_char s"

definition string_of_bytes :: "nat list \<Rightarrow> string" where
  "string_of_bytes bs = map char_of bs"

fun join_comma :: "nat list list \<Rightarrow> nat list" where
  "join_comma [] = []"
| "join_comma [x] = x"
| "join_comma (x # xs) = x @ 44 # join_comma xs"

fun json_render :: "json \<Rightarrow> nat list" where
  "json_render J_Null = [110, 117, 108, 108]"
| "json_render (J_Bool b) = (if b then [116, 114, 117, 101] else [102, 97, 108, 115, 101])"
| "json_render (J_Num t) = bytes_of_string t"
| "json_render (J_Str s) = 34 # json_quote (bytes_of_string s) @ [34]"
| "json_render (J_Arr vs) = 91 # join_comma (map json_render vs) @ [93]"
| "json_render (J_Obj kvs) =
     123 # join_comma (map (\<lambda>(k, v). 34 # json_quote (bytes_of_string k) @ [34, 58] @ json_render v) kvs)
       @ [125]"

definition is_space :: "nat \<Rightarrow> bool" where
  "is_space b \<longleftrightarrow> b \<in> {32, 9, 10, 13}"

definition is_digit :: "nat \<Rightarrow> bool" where
  "is_digit b \<longleftrightarrow> 48 \<le> b \<and> b \<le> 57"

abbreviation skip_space :: "nat list \<Rightarrow> nat list" where
  "skip_space \<equiv> dropWhile is_space"

definition next_byte :: "nat list \<Rightarrow> (nat \<Rightarrow> nat list \<Rightarrow> 'a scan) \<Rightarrow> 'a scan" where
  "next_byte s f = (case skip_space s of [] \<Rightarrow> Short | b # r \<Rightarrow> f b r)"

fun scan_word :: "nat list \<Rightarrow> 'a \<Rightarrow> nat list \<Rightarrow> 'a scan" where
  "scan_word [] v s = Scanned v s"
| "scan_word (c # cs) v [] = Short"
| "scan_word (c # cs) v (b # s) = (if b = c then scan_word cs v s else Malformed)"

text \<open>At least one digit, then as many as follow.\<close>

definition scan_digits :: "nat list \<Rightarrow> nat list scan" where
  "scan_digits s =
     (case s of
        [] \<Rightarrow> Short
      | b # _ \<Rightarrow> if is_digit b then Scanned (takeWhile is_digit s) (dropWhile is_digit s)
                else Malformed)"

definition scan_int :: "nat list \<Rightarrow> nat list scan" where
  "scan_int s =
     (if s \<noteq> [] \<and> hd s = 48 then Scanned [48] (tl s) else scan_digits s)"

definition scan_frac :: "nat list \<Rightarrow> nat list scan" where
  "scan_frac s =
     (if s \<noteq> [] \<and> hd s = 46 then scan_map (\<lambda>x. 46 # x) (scan_digits (tl s)) else Scanned [] s)"

definition scan_exp :: "nat list \<Rightarrow> nat list scan" where
  "scan_exp s =
     (case s of
        e # r \<Rightarrow>
          if e = 101 \<or> e = 69 then
            (case r of
               g # r' \<Rightarrow> if g = 43 \<or> g = 45 then scan_map (\<lambda>x. e # g # x) (scan_digits r')
                         else scan_map (\<lambda>x. e # x) (scan_digits r)
             | [] \<Rightarrow> Short)
          else Scanned [] s
      | [] \<Rightarrow> Scanned [] s)"

definition scan_then :: "nat list scan \<Rightarrow> (nat list \<Rightarrow> nat list scan) \<Rightarrow> nat list scan" where
  "scan_then x f = scan_bind x (\<lambda>v r. scan_map (\<lambda>y. v @ y) (f r))"

definition scan_number :: "nat list \<Rightarrow> nat list scan" where
  "scan_number s =
     (let sign = (if s \<noteq> [] \<and> hd s = 45 then Scanned [45] (tl s) else Scanned [] s)
      in scan_then (scan_then (scan_then sign scan_int) scan_frac) scan_exp)"

text \<open>
  One value. \<open>n\<close> is the fuel, \<open>d\<close> how many arrays and objects may still be opened
  (the scanner refuses more than 10000).
\<close>

fun parse_value :: "nat \<Rightarrow> nat \<Rightarrow> nat list \<Rightarrow> json scan"
and parse_elements :: "nat \<Rightarrow> nat \<Rightarrow> nat list \<Rightarrow> json list scan"
and parse_members :: "nat \<Rightarrow> nat \<Rightarrow> nat list \<Rightarrow> (string \<times> json) list scan" where
  "parse_value 0 d s = Out_Of_Fuel"
| "parse_value (Suc n) d s =
     next_byte s (\<lambda>b r.
       if b = 34 then scan_map (\<lambda>x. J_Str (string_of_bytes (unquote x))) (scan_string r)
       else if b = 116 then scan_word [114, 117, 101] (J_Bool True) r
       else if b = 102 then scan_word [97, 108, 115, 101] (J_Bool False) r
       else if b = 110 then scan_word [117, 108, 108] J_Null r
       else if b = 45 \<or> is_digit b then scan_map (\<lambda>x. J_Num (string_of_bytes x)) (scan_number (b # r))
       else if b = 91 then
         (if d = 0 then Malformed
          else next_byte r (\<lambda>c r'.
            if c = 93 then Scanned (J_Arr []) r'
            else scan_map J_Arr (parse_elements n (d - 1) (c # r'))))
       else if b = 123 then
         (if d = 0 then Malformed
          else next_byte r (\<lambda>c r'.
            if c = 125 then Scanned (J_Obj []) r'
            else scan_map J_Obj (parse_members n (d - 1) (c # r'))))
       else Malformed)"
| "parse_elements 0 d s = Out_Of_Fuel"
| "parse_elements (Suc n) d s =
     scan_bind (parse_value n d s) (\<lambda>v r.
       next_byte r (\<lambda>b r'.
         if b = 44 then scan_map (\<lambda>vs. v # vs) (parse_elements n d r')
         else if b = 93 then Scanned [v] r' else Malformed))"
| "parse_members 0 d s = Out_Of_Fuel"
| "parse_members (Suc n) d s =
     next_byte s (\<lambda>q s'.
       if q \<noteq> 34 then Malformed
       else scan_bind (scan_string s') (\<lambda>k r.
         next_byte r (\<lambda>c r'.
           if c \<noteq> 58 then Malformed
           else scan_bind (parse_value n d r') (\<lambda>v r''.
             next_byte r'' (\<lambda>b t.
               if b = 44
               then scan_map (\<lambda>kvs. (string_of_bytes (unquote k), v) # kvs) (parse_members n d t)
               else if b = 125 then Scanned [(string_of_bytes (unquote k), v)] t
               else Malformed)))))"

definition max_nesting :: nat where
  "max_nesting = 10000"

definition json_parse :: "nat list \<Rightarrow> json scan" where
  "json_parse s = parse_value (Suc (2 * length s)) max_nesting s"

end
