(* ===== verification/Json_Laws.thy ===== *)
theory Json_Laws
  imports Json
begin

section \<open>Laws of the JSON reader and writer\<close>

text \<open>
  \<open>parse_fuel\<close>: the fuel \<open>json_parse\<close> starts with is never used up, so the
  reader is total. \<open>parse_render\<close>: reading back what the writer wrote, whatever follows
  it, gives the value, its strings repaired where they were not UTF-8.
\<close>

subsection \<open>The reader consumes what it returns\<close>

lemma scan_map_Scanned [simp]: "scan_map f x = Scanned v r \<longleftrightarrow> (\<exists>u. x = Scanned u r \<and> v = f u)"
  by (cases x) auto

lemma scan_map_fuel [simp]: "scan_map f x = Out_Of_Fuel \<longleftrightarrow> x = Out_Of_Fuel"
  by (cases x) auto

lemma scan_bind_Scanned [simp]:
  "scan_bind x f = Scanned v r \<longleftrightarrow> (\<exists>u q. x = Scanned u q \<and> f u q = Scanned v r)"
  by (cases x) auto

lemma scan_bind_fuel [simp]:
  "scan_bind x f = Out_Of_Fuel \<longleftrightarrow> x = Out_Of_Fuel \<or> (\<exists>u q. x = Scanned u q \<and> f u q = Out_Of_Fuel)"
  by (cases x) auto

lemma next_byte_Scanned [simp]:
  "next_byte s f = Scanned v r \<longleftrightarrow> (\<exists>b q. skip_space s = b # q \<and> f b q = Scanned v r)"
  by (cases "skip_space s") (simp_all add: next_byte_def del: dropWhile_eq_Nil_conv)

lemma next_byte_fuel [simp]:
  "next_byte s f = Out_Of_Fuel \<longleftrightarrow> (\<exists>b q. skip_space s = b # q \<and> f b q = Out_Of_Fuel)"
  by (cases "skip_space s") (simp_all add: next_byte_def del: dropWhile_eq_Nil_conv)

lemma scan_map_comp [simp]: "scan_map f (scan_map g x) = scan_map (\<lambda>v. f (g v)) x"
  by (cases x) auto

lemma scan_map_ident [simp]: "scan_map (\<lambda>v. v) x = x"
  by (cases x) auto

lemma scan_hex_fuel [simp]: "scan_hex n s \<noteq> Out_Of_Fuel"
  by (induction n s rule: scan_hex.induct) auto

lemma scan_string_fuel [simp]: "scan_string s \<noteq> Out_Of_Fuel"
  by (induction s rule: scan_string.induct)
    (auto simp: scan_string.simps(2) split: list.split scan.split)

lemma scan_string_length: "scan_string s = Scanned x r \<Longrightarrow> length r < length s"
proof (induction s arbitrary: x r rule: scan_string.induct)
  case (2 b s)
  then show ?case
    by (fastforce simp: scan_string.simps(2) dest!: scan_hex_length split: if_splits list.splits scan.splits)
qed simp

lemma scan_word_fuel [simp]: "scan_word cs v s \<noteq> Out_Of_Fuel"
  by (induction cs v s rule: scan_word.induct) auto

lemma scan_word_length: "scan_word cs v s = Scanned x r \<Longrightarrow> length r \<le> length s"
  by (induction cs v s rule: scan_word.induct) (auto split: if_splits)

lemma scan_digits_fuel [simp]: "scan_digits s \<noteq> Out_Of_Fuel"
  by (auto simp: scan_digits_def split: list.split)

lemma scan_digits_length: "scan_digits s = Scanned x r \<Longrightarrow> length r < length s"
  by (auto simp: scan_digits_def less_Suc_eq_le length_dropWhile_le split: list.splits if_splits)

lemma scan_parts_fuel [simp]:
  "scan_int s \<noteq> Out_Of_Fuel" "scan_frac s \<noteq> Out_Of_Fuel" "scan_exp s \<noteq> Out_Of_Fuel"
  by (auto simp: scan_int_def scan_frac_def scan_exp_def split: list.split)

lemma scan_parts_length:
  "scan_int s = Scanned x r \<Longrightarrow> length r < length s"
  "scan_frac s = Scanned x r \<Longrightarrow> length r \<le> length s"
  "scan_exp s = Scanned x r \<Longrightarrow> length r \<le> length s"
  using scan_digits_length
  by (fastforce simp: scan_int_def scan_frac_def scan_exp_def neq_Nil_conv split: if_splits list.splits)+

lemma scan_number_fuel [simp]: "scan_number s \<noteq> Out_Of_Fuel"
  by (auto simp: scan_number_def scan_then_def Let_def)

lemma scan_number_length: "scan_number s = Scanned x r \<Longrightarrow> length r < length s"
  by (fastforce simp: scan_number_def scan_then_def Let_def dest!: scan_parts_length split: if_splits)

lemma skip_space_length: "skip_space s = b # r \<Longrightarrow> length r < length s"
  using length_dropWhile_le [of is_space s] by simp

text \<open>Every value, list of elements or list of members takes at least one byte.\<close>

lemma parse_length_step:
  assumes v: "\<And>d s v r. parse_value n d s = Scanned v r \<Longrightarrow> length r < length s"
    and e: "\<And>d s vs r. parse_elements n d s = Scanned vs r \<Longrightarrow> length r < length s"
    and m: "\<And>d s kvs r. parse_members n d s = Scanned kvs r \<Longrightarrow> length r < length s"
  shows "parse_value (Suc n) d s = Scanned u r \<Longrightarrow> length r < length s"
    and "parse_elements (Suc n) d s = Scanned us r \<Longrightarrow> length r < length s"
    and "parse_members (Suc n) d s = Scanned kus r \<Longrightarrow> length r < length s"
proof -
  assume p: "parse_value (Suc n) d s = Scanned u r"
  then obtain b q where q: "skip_space s = b # q" by auto
  consider (str) x where "scan_string q = Scanned x r" | (word) cs w where "scan_word cs w q = Scanned u r"
    | (num) x where "scan_number (b # q) = Scanned x r" | (closed) c where "skip_space q = c # r"
    | (inner) c t where "skip_space q = c # t" "length r < length (c # t)"
    using p q by (auto split: if_splits dest!: e m)
  then show "length r < length s"
    using skip_space_length [OF q] scan_string_length scan_word_length scan_number_length skip_space_length
    by cases fastforce+
next
  assume "parse_elements (Suc n) d s = Scanned us r"
  then obtain v q b t where "parse_value n d s = Scanned v q" "skip_space q = b # t"
    "r = t \<or> (\<exists>vs. parse_elements n d t = Scanned vs r)"
    by (auto split: if_splits)
  with v e skip_space_length show "length r < length s" by (metis less_trans)
next
  assume "parse_members (Suc n) d s = Scanned kus r"
  then obtain q k x c y v z b t where "skip_space s = 34 # q" "scan_string q = Scanned k x" "skip_space x = c # y"
    "parse_value n d y = Scanned v z" "skip_space z = b # t"
    "r = t \<or> (\<exists>vs. parse_members n d t = Scanned vs r)"
    by (auto split: if_splits)
  with v m scan_string_length skip_space_length show "length r < length s" by (metis less_trans)
qed

lemma parse_length:
  "parse_value n d s = Scanned v r \<Longrightarrow> length r < length s"
  "parse_elements n d s = Scanned vs r \<Longrightarrow> length r < length s"
  "parse_members n d s = Scanned kvs r \<Longrightarrow> length r < length s"
proof (induction n arbitrary: d s v r vs kvs)
  case (Suc n)
  { case 1 with parse_length_step(1) Suc show ?case by blast }
  { case 2 with parse_length_step(2) Suc show ?case by blast }
  { case 3 with parse_length_step(3) Suc show ?case by blast }
qed simp_all

text \<open>The fuel suffices: two steps for each byte.\<close>

lemma parse_fuel:
  "2 * length s < n \<Longrightarrow> parse_value n d s \<noteq> Out_Of_Fuel"
  "2 * length s + 1 < n \<Longrightarrow> parse_elements n d s \<noteq> Out_Of_Fuel"
  "2 * length s + 1 < n \<Longrightarrow> parse_members n d s \<noteq> Out_Of_Fuel"
proof (induction n arbitrary: d s)
  case (Suc n)
  note space = skip_space_length
  { case 1
    have "2 * length (c # t) + 1 < n" if "skip_space s = b # q" "skip_space q = c # t" for b q c t
      using space [OF that(1)] space [OF that(2)] length_dropWhile_le [of is_space q] that 1 by simp
    with Suc(2,3) show ?case by (auto split: if_splits) }
  { case 2
    have "2 * length t + 1 < n" if "parse_value n d s = Scanned v q" "skip_space q = b # t" for v q b t
      using parse_length(1) [OF that(1)] space [OF that(2)] 2 by simp
    with Suc(1) [of s d] Suc(2) 2 show ?case by (auto split: if_splits) }
  { case 3
    have "2 * length y < n" if "skip_space s = b # q" "scan_string q = Scanned k x" "skip_space x = c # y"
      for b q k x c y
      using space [OF that(1)] scan_string_length [OF that(2)] space [OF that(3)] 3 by simp
    moreover have "2 * length t + 1 < n"
      if "skip_space s = b # q" "scan_string q = Scanned k x" "skip_space x = c # y"
        "parse_value n d y = Scanned v z" "skip_space z = e # t" for b q k x c y v z e t
      using space [OF that(1)] scan_string_length [OF that(2)] space [OF that(3)]
        parse_length(1) [OF that(4)] space [OF that(5)] 3 by simp
    ultimately show ?case using Suc(1,3) by (auto split: if_splits) }
qed simp_all

lemma json_parse_total [simp]: "json_parse s \<noteq> Out_Of_Fuel"
  unfolding json_parse_def by (rule parse_fuel) simp

subsection \<open>Strings\<close>

definition plain_byte :: "nat \<Rightarrow> bool" where
  "plain_byte b \<longleftrightarrow> 32 \<le> b \<and> b \<noteq> 34 \<and> b \<noteq> 92"

lemma scan_string_plain:
  "\<forall>b\<in>set p. plain_byte b \<Longrightarrow> scan_string (p @ s) = scan_map (\<lambda>x. p @ x) (scan_string s)"
proof (induction p)
  case Nil
  show ?case by (cases "scan_string s") simp_all
next
  case (Cons b p)
  then have "plain_byte b" and IH: "scan_string (p @ s) = scan_map (\<lambda>x. p @ x) (scan_string s)" by simp_all
  then show ?case
    by (cases "scan_string s") (simp_all add: scan_string.simps(2) plain_byte_def IH)
qed

lemma hex_value_digit [simp]: "n < 16 \<Longrightarrow> hex_value (hex_digit n) = Some n"
  by (auto simp: hex_value_def hex_digit_def)

lemma hex_value_numerals [simp]:
  "hex_value 48 = Some 0" "hex_value 50 = Some 2" "hex_value 56 = Some 8" "hex_value 57 = Some 9"
  "hex_value 100 = Some 13" "hex_value 102 = Some 15"
  by (simp_all add: hex_value_def)

text \<open>A rune of more than one byte consists of bytes of at least 128, and is recognised whatever
  follows it.\<close>

lemma decode_rune_cases:
  assumes "bs \<noteq> []"
  obtains (ascii) a t where "bs = a # t" "a < 128" "decode_rune bs = (a, 1)"
  | (bad) a t where "bs = a # t" "128 \<le> a" "decode_rune bs = (rune_error, 1)"
  | (wide) a p t where "bs = a # p @ t" "128 \<le> a" "\<forall>b\<in>set p. 128 \<le> b" "p \<noteq> []"
      "\<forall>t. snd (decode_rune (a # p @ t)) = Suc (length p)
         \<and> fst (decode_rune (a # p @ t)) = fst (decode_rune bs)"
proof -
  obtain a t where t: "bs = a # t" using assms by (cases bs) auto
  consider "a < 128" | "128 \<le> a" "a < 194" | "194 \<le> a" "a \<le> 223" | "224 \<le> a" "a \<le> 239"
    | "240 \<le> a" "a \<le> 244" | "244 < a" by linarith
  then show thesis
  proof cases
    case 1
    with t show thesis by (intro ascii) simp_all
  next
    case 2
    with t show thesis by (intro bad) simp_all
  next
    case 3
    show thesis
    proof (cases "t \<noteq> [] \<and> cont_byte (hd t)")
      case True
      then obtain b r where r: "t = b # r" by (cases t) auto
      with True t 3 show thesis
        by (intro wide [of a "[b]" r]) (simp_all add: cont_byte_def)
    next
      case False
      with t 3 show thesis by (intro bad [of a t]) (auto split: list.split)
    qed
  next
    case 4
    show thesis
    proof (cases "1 < length t \<and> second_byte_ok a (t ! 0) \<and> cont_byte (t ! 1)")
      case True
      then obtain b c r where r: "t = b # c # r"
        by (cases t; cases "tl t") auto
      with True t 4 show thesis
        by (intro wide [of a "[b, c]" r]) (auto simp: cont_byte_def second_byte_ok_def split: if_splits)
    next
      case False
      with t 4 show thesis by (intro bad [of a t]) (auto split: list.split)
    qed
  next
    case 5
    show thesis
    proof (cases "2 < length t \<and> second_byte_ok a (t ! 0) \<and> cont_byte (t ! 1) \<and> cont_byte (t ! 2)")
      case True
      then obtain b c d r where r: "t = b # c # d # r"
        by (cases t; cases "tl t"; cases "tl (tl t)") auto
      with True t 5 show thesis
        by (intro wide [of a "[b, c, d]" r]) (auto simp: cont_byte_def second_byte_ok_def split: if_splits)
    next
      case False
      with t 5 show thesis by (intro bad [of a t]) (auto split: list.split)
    qed
  next
    case 6
    with t show thesis by (intro bad [of a t]) simp_all
  qed
qed

lemma scan_hex4:
  "hex_value w \<noteq> None \<Longrightarrow> hex_value x \<noteq> None \<Longrightarrow> hex_value y \<noteq> None \<Longrightarrow> hex_value z \<noteq> None \<Longrightarrow>
   scan_hex 4 (w # x # y # z # s) = Scanned [w, x, y, z] s"
  by (simp add: numeral_eq_Suc)

lemma escape_ascii_cases:
  obtains (short) e where "escape_ascii a = [92, e]" "e \<in> {34, 92, 98, 102, 110, 114, 116}" "e \<noteq> 117"
      "(if e = 98 then 8 else if e = 102 then 12 else if e = 110 then 10
        else if e = 114 then 13 else if e = 116 then 9 else e) = a"
  | (hex) "escape_ascii a = [92, 117, 48, 48, hex_digit (a div 16), hex_digit (a mod 16)]"
proof -
  consider "a = 34" | "a = 92" | "a = 8" | "a = 12" | "a = 10" | "a = 13" | "a = 9"
    | "a \<notin> {34, 92, 8, 12, 10, 13, 9}" by blast
  then show thesis
  proof cases
    case 1 then show thesis by (intro short [of 34]) (simp_all add: escape_ascii_def)
  next
    case 2 then show thesis by (intro short [of 92]) (simp_all add: escape_ascii_def)
  next
    case 3 then show thesis by (intro short [of 98]) (simp_all add: escape_ascii_def)
  next
    case 4 then show thesis by (intro short [of 102]) (simp_all add: escape_ascii_def)
  next
    case 5 then show thesis by (intro short [of 110]) (simp_all add: escape_ascii_def)
  next
    case 6 then show thesis by (intro short [of 114]) (simp_all add: escape_ascii_def)
  next
    case 7 then show thesis by (intro short [of 116]) (simp_all add: escape_ascii_def)
  next
    case 8 then show thesis by (intro hex) (simp add: escape_ascii_def)
  qed
qed

lemma quote_rune_separator:
  assumes "\<not> hd bs < 128" "snd (decode_rune bs) \<noteq> 1" "fst (decode_rune bs) \<in> {8232, 8233}"
  shows "fst (decode_rune bs) = 8232 \<and> quote_rune bs = [92, 117, 50, 48, 50, 56]
    \<or> fst (decode_rune bs) = 8233 \<and> quote_rune bs = [92, 117, 50, 48, 50, 57]"
  using assms by (auto simp: quote_rune_def hex_digit_def)

lemma scan_quote_rune:
  assumes "bs \<noteq> []"
  shows "scan_string (quote_rune bs @ s) = scan_map (\<lambda>x. quote_rune bs @ x) (scan_string s)"
  using assms
proof (cases rule: decode_rune_cases)
  case (ascii a t)
  show ?thesis
  proof (cases "html_safe a")
    case True
    then have "plain_byte a" by (auto simp: html_safe_def plain_byte_def)
    with scan_string_plain [of "[a]" s] ascii True show ?thesis by (simp add: quote_rune_def)
  next
    case False
    then have q: "quote_rune bs = escape_ascii a" using ascii by (simp add: quote_rune_def)
    have hex: "hex_value (hex_digit (a div 16)) = Some (a div 16)" using ascii by simp
    show ?thesis unfolding q
    proof (cases a rule: escape_ascii_cases)
      case (short e)
      then show "scan_string (escape_ascii a @ s) = scan_map (\<lambda>x. escape_ascii a @ x) (scan_string s)"
        by (simp add: scan_string.simps(2)) blast
    next
      case hex
      with \<open>hex_value _ = _\<close> show "scan_string (escape_ascii a @ s) = scan_map (\<lambda>x. escape_ascii a @ x) (scan_string s)"
        by (simp add: scan_string.simps(2) scan_hex4)
    qed
  qed
next
  case (bad a t)
  then show ?thesis
    by (cases "scan_string s") (simp_all add: quote_rune_def scan_string.simps(2) scan_hex4)
next
  case (wide a p t)
  then have d: "snd (decode_rune bs) = Suc (length p)" by simp
  show ?thesis
  proof (cases "fst (decode_rune bs) \<in> {8232, 8233}")
    case True
    have "\<not> hd bs < 128" "snd (decode_rune bs) \<noteq> 1" using wide(1,2,4) d by simp_all
    from quote_rune_separator [OF this True]
    have "quote_rune bs = [92, 117, 50, 48, 50, 56] \<or> quote_rune bs = [92, 117, 50, 48, 50, 57]" by blast
    then show ?thesis
      by (elim disjE; cases "scan_string s") (simp_all add: scan_string.simps(2) scan_hex4)
  next
    case False
    have "\<forall>b\<in>set (a # p). plain_byte b" using wide by (fastforce simp: plain_byte_def)
    from scan_string_plain [OF this] wide d False show ?thesis by (simp add: quote_rune_def)
  qed
qed

lemma scan_json_quote: "scan_string (json_quote bs @ 34 # r) = Scanned (json_quote bs) r"
proof (induction bs rule: json_quote.induct)
  case (1 bs)
  then show ?case
    by (subst (1 2) json_quote.simps) (simp add: scan_string.simps(2) scan_quote_rune)
qed

text \<open>Interpreting what was quoted gives the repaired string.\<close>

lemma get_u4_escape:
  "hex_value w = Some w' \<Longrightarrow> hex_value x = Some x' \<Longrightarrow> hex_value y = Some y' \<Longrightarrow> hex_value z = Some z' \<Longrightarrow>
   get_u4 (92 # 117 # w # x # y # z # s) = Some (w' * 4096 + x' * 256 + y' * 16 + z')"
  by (simp add: get_u4_def)

lemma unquote_u4:
  "hex_value w = Some w' \<Longrightarrow> hex_value x = Some x' \<Longrightarrow> hex_value y = Some y' \<Longrightarrow> hex_value z = Some z' \<Longrightarrow>
   r = w' * 4096 + x' * 256 + y' * 16 + z' \<Longrightarrow> \<not> surrogate r \<Longrightarrow>
   unquote (92 # 117 # w # x # y # z # s) = encode_rune r @ unquote s"
  by (subst unquote.simps) (simp add: unquote_step_def get_u4_escape Let_def)

lemma encode_ascii: "b < 128 \<Longrightarrow> encode_rune b = [b]"
  by (simp add: encode_rune_def)

lemma unquote_quote_rune:
  assumes "bs \<noteq> []"
  shows "unquote (quote_rune bs @ s) = encode_rune (fst (decode_rune bs)) @ unquote s"
  using assms
proof (cases rule: decode_rune_cases)
  case (ascii a t)
  show ?thesis
  proof (cases "html_safe a")
    case True
    with ascii show ?thesis
      by (subst unquote.simps) (simp add: quote_rune_def unquote_step_def html_safe_def encode_ascii)
  next
    case False
    then have q: "quote_rune bs = escape_ascii a" using ascii by (simp add: quote_rune_def)
    show ?thesis
    proof (cases a rule: escape_ascii_cases)
      case (short e)
      then have "unquote_step (92 # e # s) = ([a], 2)" by (simp add: unquote_step_def)
      with q short ascii show ?thesis by (subst unquote.simps) (simp add: encode_ascii)
    next
      case hex
      have "hex_value (hex_digit (a div 16)) = Some (a div 16)" "\<not> surrogate a"
        using ascii by (simp_all add: surrogate_def)
      moreover have "a = 0 * 4096 + 0 * 256 + a div 16 * 16 + a mod 16" by (simp add: div_mult_mod_eq)
      ultimately have "unquote (92 # 117 # 48 # 48 # hex_digit (a div 16) # hex_digit (a mod 16) # s) = encode_rune a @ unquote s"
        by (intro unquote_u4 [where w' = 0 and x' = 0 and y' = "a div 16" and z' = "a mod 16"]) simp_all
      with ascii show ?thesis unfolding q hex by simp
    qed
  qed
next
  case (bad a t)
  then show ?thesis
    by (simp add: quote_rune_def unquote_u4 [where r = rune_error] rune_error_def surrogate_def)
next
  case (wide a p t)
  then have d: "snd (decode_rune bs) = Suc (length p)" by simp
  show ?thesis
  proof (cases "fst (decode_rune bs) \<in> {8232, 8233}")
    case True
    have "\<not> hd bs < 128" "snd (decode_rune bs) \<noteq> 1" using wide(1,2,4) d by simp_all
    from quote_rune_separator [OF this True] show ?thesis
      by (elim disjE) (simp_all add: unquote_u4 surrogate_def)
  next
    case False
    then have "quote_rune bs = a # p" using wide d by (simp add: quote_rune_def)
    moreover have "unquote ((a # p) @ s) = encode_rune (fst (decode_rune bs)) @ unquote s"
    proof -
      have "fst (decode_rune (a # p @ s)) = fst (decode_rune bs)" "snd (decode_rune (a # p @ s)) = Suc (length p)"
        using wide(5) by blast+
      with wide(2) show ?thesis
        by (subst unquote.simps) (simp add: unquote_step_def del: decode_rune.simps)
    qed
    ultimately show ?thesis by simp
  qed
qed

lemma unquote_json_quote: "unquote (json_quote bs) = utf8_clean bs"
proof (induction bs rule: json_quote.induct)
  case (1 bs)
  then show ?case
    by (cases "bs = []")
      (simp add: json_quote.simps utf8_clean.simps unquote.simps [of "[]"],
       simp add: json_quote.simps [of bs] utf8_clean.simps [of bs] unquote_quote_rune)
qed

subsection \<open>Numbers\<close>

text \<open>A number is recognised whatever follows it, unless that could continue it.\<close>

definition number_end :: "nat list \<Rightarrow> bool" where
  "number_end r \<longleftrightarrow> (r = [] \<or> \<not> is_digit (hd r) \<and> hd r \<notin> {46, 101, 69})"

definition number_text :: "string \<Rightarrow> bool" where
  "number_text t \<longleftrightarrow> scan_number (bytes_of_string t) = Scanned (bytes_of_string t) []"

lemma scan_digits_app:
  assumes "scan_digits s = Scanned x q" "number_end r"
  shows "scan_digits (s @ r) = Scanned x (q @ r)"
proof -
  have tw: "takeWhile is_digit (s @ r) = takeWhile is_digit s"
    using assms(2) by (induction s) (auto simp: number_end_def takeWhile_eq_Nil_iff)
  moreover have "dropWhile is_digit (s @ r) = dropWhile is_digit s @ r"
    using assms(2) by (induction s) (auto simp: number_end_def dropWhile_eq_self_iff)
  ultimately show ?thesis
    using assms(1) by (auto simp: scan_digits_def split: list.splits if_splits)
qed

lemma scan_int_app:
  assumes "scan_int s = Scanned x q" "number_end r"
  shows "scan_int (s @ r) = Scanned x (q @ r)"
proof (cases s)
  case Nil
  with assms(1) show ?thesis by (simp add: scan_int_def scan_digits_def)
next
  case (Cons b t)
  with assms scan_digits_app [of s x q r] show ?thesis by (auto simp: scan_int_def split: if_splits)
qed

lemma scan_frac_app:
  assumes "scan_frac s = Scanned x q" "number_end r"
  shows "scan_frac (s @ r) = Scanned x (q @ r)"
proof (cases s)
  case Nil
  with assms show ?thesis by (auto simp: scan_frac_def number_end_def)
next
  case (Cons b t)
  with assms scan_digits_app [of t _ q r] show ?thesis by (auto simp: scan_frac_def split: if_splits)
qed

lemma scan_exp_app:
  assumes "scan_exp s = Scanned x q" "number_end r"
  shows "scan_exp (s @ r) = Scanned x (q @ r)"
proof (cases s)
  case Nil
  with assms show ?thesis by (cases r) (auto simp: scan_exp_def number_end_def)
next
  case (Cons e t)
  note digits = scan_digits_app [OF _ assms(2)]
  show ?thesis
  proof (cases t)
    case Nil
    with Cons assms show ?thesis by (simp add: scan_exp_def split: if_splits)
  next
    case (Cons g u)
    with \<open>s = e # t\<close> assms(1) digits [of t] digits [of u] show ?thesis
      by (auto simp: scan_exp_def split: if_splits)
  qed
qed

lemma scan_number_app:
  assumes "scan_number s = Scanned x q" "number_end r"
  shows "scan_number (s @ r) = Scanned x (q @ r)"
proof (cases s)
  case Nil
  with assms(1) show ?thesis by (simp add: scan_number_def scan_then_def scan_int_def scan_digits_def)
next
  case (Cons b t)
  have app: "scan_int u = Scanned i q1 \<Longrightarrow> scan_frac q1 = Scanned f q2 \<Longrightarrow> scan_exp q2 = Scanned e q \<Longrightarrow>
      scan_int (u @ r) = Scanned i (q1 @ r) \<and> scan_frac (q1 @ r) = Scanned f (q2 @ r)
        \<and> scan_exp (q2 @ r) = Scanned e (q @ r)" for u i q1 f q2 e
    using scan_int_app scan_frac_app scan_exp_app assms(2) by blast
  show ?thesis
  proof (cases "b = 45")
    case True
    with Cons assms(1) obtain i q1 f q2 e where
      "scan_int t = Scanned i q1" "scan_frac q1 = Scanned f q2" "scan_exp q2 = Scanned e q" "x = 45 # i @ f @ e"
      by (auto simp: scan_number_def scan_then_def Let_def)
    with app [of t] True Cons show ?thesis by (simp add: scan_number_def scan_then_def)
  next
    case False
    with Cons assms(1) obtain i q1 f q2 e where
      "scan_int s = Scanned i q1" "scan_frac q1 = Scanned f q2" "scan_exp q2 = Scanned e q" "x = i @ f @ e"
      by (auto simp: scan_number_def scan_then_def Let_def)
    with app [of s] False Cons show ?thesis by (simp add: scan_number_def scan_then_def)
  qed
qed

subsection \<open>Values\<close>

text \<open>Repairing every string of a value, the values the writer can be given, and how deep a value
  is nested.\<close>

definition clean_string :: "string \<Rightarrow> string" where
  "clean_string s = string_of_bytes (utf8_clean (bytes_of_string s))"

fun json_clean :: "json \<Rightarrow> json" where
  "json_clean (J_Str s) = J_Str (clean_string s)"
| "json_clean (J_Arr vs) = J_Arr (map json_clean vs)"
| "json_clean (J_Obj kvs) = J_Obj (map (\<lambda>(k, v). (clean_string k, json_clean v)) kvs)"
| "json_clean v = v"

fun json_ok :: "json \<Rightarrow> bool" where
  "json_ok (J_Num t) = number_text t"
| "json_ok (J_Arr vs) = list_all json_ok vs"
| "json_ok (J_Obj kvs) = list_all (\<lambda>(k, v). json_ok v) kvs"
| "json_ok v = True"

fun json_depth :: "json \<Rightarrow> nat" where
  "json_depth (J_Arr vs) = Suc (fold max (map json_depth vs) 0)"
| "json_depth (J_Obj kvs) = Suc (fold max (map (\<lambda>(k, v). json_depth v) kvs) 0)"
| "json_depth v = 0"

lemma fold_max_le [simp]: "fold max xs (a :: nat) \<le> d \<longleftrightarrow> a \<le> d \<and> (\<forall>x\<in>set xs. x \<le> d)"
  by (induction xs arbitrary: a) auto

lemma number_text_head:
  assumes "number_text t"
  obtains b u where "bytes_of_string t = b # u" "b = 45 \<or> is_digit b"
proof (cases "bytes_of_string t")
  case Nil
  with assms show thesis
    by (simp add: number_text_def scan_number_def scan_then_def scan_int_def scan_digits_def)
next
  case (Cons b u)
  moreover have "b = 45 \<or> is_digit b"
    using assms Cons
    by (auto simp: number_text_def scan_number_def scan_then_def scan_int_def scan_digits_def Let_def
        is_digit_def split: if_splits)
  ultimately show thesis by (rule that)
qed

lemma render_head:
  assumes "json_ok v"
  obtains b u where "json_render v = b # u" "\<not> is_space b" "b \<noteq> 93" "b \<noteq> 125"
proof (cases v)
  case (J_Num t)
  with assms have "number_text t" by simp
  then obtain b u where "bytes_of_string t = b # u" "b = 45 \<or> is_digit b" by (rule number_text_head)
  with J_Num show thesis by (intro that [of b u]) (auto simp: is_space_def is_digit_def)
next
  case (J_Bool b)
  then show thesis by (cases b) (auto intro: that simp: is_space_def)
qed (auto intro: that simp: is_space_def)

lemma skip_space_render: "json_ok v \<Longrightarrow> skip_space (json_render v @ r) = json_render v @ r"
  by (erule render_head) simp

definition value_reads :: "json \<Rightarrow> bool" where
  "value_reads v \<longleftrightarrow> (\<forall>n d r. 2 * length (json_render v) \<le> n \<longrightarrow> json_ok v \<longrightarrow> json_depth v \<le> d \<longrightarrow>
     number_end r \<longrightarrow> parse_value n d (json_render v @ r) = Scanned (json_clean v) r)"

lemma number_end_delims [simp]:
  "number_end []" "number_end (44 # r)" "number_end (93 # r)" "number_end (125 # r)" "number_end (10 # r)"
  by (simp_all add: number_end_def is_digit_def)

lemma parse_elements_render:
  assumes "\<forall>v\<in>set vs. value_reads v \<and> json_ok v \<and> json_depth v \<le> d" "vs \<noteq> []"
    and "2 * length (join_comma (map json_render vs)) < n"
  shows "parse_elements n d (join_comma (map json_render vs) @ 93 # r) = Scanned (map json_clean vs) r"
  using assms
proof (induction vs arbitrary: n)
  case (Cons v vs)
  then obtain m where n: "n = Suc m" by (cases n) auto
  have v: "parse_value m d (json_render v @ t) = Scanned (json_clean v) t" if "number_end t" for t
  proof -
    have "length (json_render v) \<le> length (join_comma (map json_render (v # vs)))"
      by (cases vs) simp_all
    with Cons.prems(3) n have "2 * length (json_render v) \<le> m" by linarith
    with Cons.prems(1) that show ?thesis by (simp add: value_reads_def)
  qed
  show ?case
  proof (cases vs)
    case Nil
    then show ?thesis by (simp add: n v next_byte_def is_space_def)
  next
    case (Cons u us)
    let ?j = "join_comma (map json_render vs)"
    have "parse_elements m d (?j @ 93 # r) = Scanned (map json_clean vs) r"
      using Cons.prems Cons n by (intro Cons.IH) simp_all
    moreover have "join_comma (map json_render (v # vs)) = json_render v @ 44 # ?j"
      using Cons by simp
    ultimately show ?thesis by (simp add: n v next_byte_def is_space_def)
  qed
qed simp

abbreviation member_text :: "string \<times> json \<Rightarrow> nat list" where
  "member_text \<equiv> (\<lambda>(k, v). 34 # json_quote (bytes_of_string k) @ [34, 58] @ json_render v)"

lemma parse_members_render:
  assumes "\<forall>(k, v)\<in>set kvs. value_reads v \<and> json_ok v \<and> json_depth v \<le> d" "kvs \<noteq> []"
    and "2 * length (join_comma (map member_text kvs)) < n"
  shows "parse_members n d (join_comma (map member_text kvs) @ 125 # r)
    = Scanned (map (\<lambda>(k, v). (clean_string k, json_clean v)) kvs) r"
  using assms
proof (induction kvs arbitrary: n)
  case (Cons kv kvs)
  obtain k v where kv: "kv = (k, v)" by fastforce
  from Cons obtain m where n: "n = Suc m" by (cases n) auto
  have v: "parse_value m d (json_render v @ t) = Scanned (json_clean v) t" if "number_end t" for t
  proof -
    have "length (json_render v) \<le> length (join_comma (map member_text (kv # kvs)))"
      by (cases kvs) (simp_all add: kv)
    with Cons.prems(3) n have "2 * length (json_render v) \<le> m" by linarith
    with Cons.prems(1) that kv show ?thesis by (simp add: value_reads_def)
  qed
  show ?case
  proof (cases kvs)
    case Nil
    then show ?thesis
      by (simp add: n v kv next_byte_def is_space_def scan_json_quote unquote_json_quote clean_string_def)
  next
    case (Cons u us)
    let ?j = "join_comma (map member_text kvs)"
    have "parse_members m d (?j @ 125 # r) = Scanned (map (\<lambda>(k, v). (clean_string k, json_clean v)) kvs) r"
      using Cons.prems Cons n by (intro Cons.IH) (simp_all add: kv)
    moreover have "join_comma (map member_text (kv # kvs))
        = 34 # json_quote (bytes_of_string k) @ 34 # 58 # json_render v @ 44 # ?j"
      using Cons kv by simp
    ultimately show ?thesis
      by (simp add: n v kv next_byte_def is_space_def scan_json_quote unquote_json_quote clean_string_def)
  qed
qed simp

lemma join_comma_head: "join_comma (x # xs) @ r = x @ (if xs = [] then r else 44 # join_comma xs @ r)"
  by (cases xs) simp_all

lemma value_reads: "value_reads v"
proof (induction v)
  case (J_Num t)
  show ?case unfolding value_reads_def
  proof (intro allI impI)
    fix n d r
    assume "2 * length (json_render (J_Num t)) \<le> n" "json_ok (J_Num t)" and r: "number_end r"
    then have t: "number_text t" by simp
    then obtain b u where b: "bytes_of_string t = b # u" "b = 45 \<or> is_digit b"
      by (rule number_text_head)
    with \<open>_ \<le> n\<close> obtain m where n: "n = Suc m" by (cases n) auto
    have "scan_number (b # u @ r) = Scanned (b # u) r"
      using scan_number_app [of "b # u" "b # u" "[]" r] t r b(1) by (simp add: number_text_def)
    moreover have "string_of_bytes (b # u) = t"
      unfolding b(1) [symmetric] by (simp add: string_of_bytes_def bytes_of_string_def comp_def)
    ultimately show "parse_value n d (json_render (J_Num t) @ r) = Scanned (json_clean (J_Num t)) r"
      using b by (auto simp: n next_byte_def is_space_def is_digit_def)
  qed
next
  case (J_Bool b)
  show ?case unfolding value_reads_def
  proof (intro allI impI)
    fix n d r
    assume "2 * length (json_render (J_Bool b)) \<le> n"
    then obtain m where "n = Suc m" by (cases n) (auto split: if_splits)
    then show "parse_value n d (json_render (J_Bool b) @ r) = Scanned (json_clean (J_Bool b)) r"
      by (simp add: next_byte_def is_space_def)
  qed
next
  case J_Null
  show ?case unfolding value_reads_def
  proof (intro allI impI)
    fix n d r
    assume "2 * length (json_render J_Null) \<le> n"
    then obtain m where "n = Suc m" by (cases n) auto
    then show "parse_value n d (json_render J_Null @ r) = Scanned (json_clean J_Null) r"
      by (simp add: next_byte_def is_space_def)
  qed
next
  case (J_Str s)
  show ?case unfolding value_reads_def
  proof (intro allI impI)
    fix n d r
    assume "2 * length (json_render (J_Str s)) \<le> n"
    then obtain m where "n = Suc m" by (cases n) auto
    then show "parse_value n d (json_render (J_Str s) @ r) = Scanned (json_clean (J_Str s)) r"
      by (simp add: next_byte_def is_space_def scan_json_quote unquote_json_quote clean_string_def)
  qed
next
  case (J_Arr vs)
  show ?case unfolding value_reads_def
  proof (intro allI impI)
    fix n d r
    assume n: "2 * length (json_render (J_Arr vs)) \<le> n" and ok: "json_ok (J_Arr vs)"
      and d: "json_depth (J_Arr vs) \<le> d"
    from n obtain m where m: "n = Suc m" by (cases n) auto
    from d obtain e where e: "d = Suc e" by (cases d) auto
    show "parse_value n d (json_render (J_Arr vs) @ r) = Scanned (json_clean (J_Arr vs)) r"
    proof (cases vs)
      case Nil
      then show ?thesis by (simp add: m e next_byte_def is_space_def is_digit_def)
    next
      case (Cons v us)
      then have "json_ok v" using ok by simp
      then obtain b u where b: "json_render v = b # u" "\<not> is_space b" "b \<noteq> 93" "b \<noteq> 125"
        by (rule render_head)
      have "parse_elements m e (join_comma (map json_render vs) @ 93 # r) = Scanned (map json_clean vs) r"
        using J_Arr ok d e m n Cons
        by (intro parse_elements_render) (auto simp: list_all_iff)
      with b Cons show ?thesis
        by (simp add: m e next_byte_def is_space_def is_digit_def join_comma_head split: if_split_asm)
    qed
  qed
next
  case (J_Obj kvs)
  show ?case unfolding value_reads_def
  proof (intro allI impI)
    fix n d r
    assume n: "2 * length (json_render (J_Obj kvs)) \<le> n" and ok: "json_ok (J_Obj kvs)"
      and d: "json_depth (J_Obj kvs) \<le> d"
    from n obtain m where m: "n = Suc m" by (cases n) auto
    from d obtain e where e: "d = Suc e" by (cases d) auto
    show "parse_value n d (json_render (J_Obj kvs) @ r) = Scanned (json_clean (J_Obj kvs)) r"
    proof (cases kvs)
      case Nil
      then show ?thesis by (simp add: m e next_byte_def is_space_def is_digit_def)
    next
      case (Cons kv us)
      have "value_reads v" if "(k, v) \<in> set kvs" for k v
        using J_Obj [of "(k, v)" v] that by simp
      then have "\<forall>(k, v)\<in>set kvs. value_reads v \<and> json_ok v \<and> json_depth v \<le> e"
        using ok d e by (auto simp: list_all_iff)
      then have "parse_members m e (join_comma (map member_text kvs) @ 125 # r)
          = Scanned (map (\<lambda>(k, v). (clean_string k, json_clean v)) kvs) r"
        using n m Cons by (intro parse_members_render) simp_all
      with Cons show ?thesis
        by (cases kv)
          (simp add: m e next_byte_def is_space_def is_digit_def join_comma_head split: if_split_asm)
    qed
  qed
qed

lemma parse_render:
  assumes "json_ok v" "json_depth v \<le> max_nesting" "number_end r"
  shows "json_parse (json_render v @ r) = Scanned (json_clean v) r"
  using value_reads [of v] assms unfolding value_reads_def json_parse_def
  by (simp del: parse_value.simps)

text \<open>Texts of ASCII characters need no repair.\<close>

lemma utf8_clean_ascii: "\<forall>b\<in>set bs. b < 128 \<Longrightarrow> utf8_clean bs = bs"
  by (induction bs) (simp_all add: utf8_clean.simps [of "[]"] utf8_clean.simps [of "_ # _"] encode_ascii)

definition ascii :: "string \<Rightarrow> bool" where
  "ascii s \<longleftrightarrow> (\<forall>c\<in>set s. of_char c < (128 :: nat))"

lemma clean_ascii [simp]: "ascii s \<Longrightarrow> clean_string s = s"
  by (simp add: clean_string_def utf8_clean_ascii bytes_of_string_def string_of_bytes_def ascii_def comp_def)

end
