(* ===== verification/Http.thy ===== *)
theory Http
  imports Strconv Json_Laws
begin

section \<open>Requests and responses (net/http, net/url)\<close>

text \<open>
  A request as \<open>net/http\<close> hands it to the router, with what the router and the middleware
  attach to it; the \<open>http.ResponseWriter\<close> a handler writes to; query strings and cookies as
  \<open>net/url\<close> and \<open>net/http\<close> read and write them. A handler is a function of the
  request that takes the writer and the state \<open>'s\<close> of everything behind it to their next
  values. Lemmas: the writer's status is final, a cookie's value survives the round trip through
  a client.
\<close>

subsection \<open>Requests\<close>

text \<open>
  The only context value is the one the \<open>Auth\<close> middleware stores. The body is the bytes the
  client sends and the error, if any, with which reading it ends (\<open>None\<close> is end of file).
  Header keys are in canonical form.
\<close>

datatype ctx_key = User_Key

record user_value =
  uv_user_id :: uuid
  uv_chain_id :: uuid

type_synonym ctx = "(ctx_key \<times> user_value) list"

record request =
  rq_method :: string
  rq_path :: string
  rq_raw_query :: string
  rq_header :: "(string \<times> string) list"
  rq_body :: "nat list"
  rq_body_error :: "go_error option"
  rq_remote_addr :: string
  rq_ctx :: ctx
  rq_url_params :: "(string \<times> string) list"

text \<open>\<open>ctx.Value(key)\<close>, \<open>r.Header.Get(key)\<close>: the innermost value, the first line or the
  empty string.\<close>

definition ctx_value :: "ctx \<Rightarrow> ctx_key \<Rightarrow> user_value option" where
  "ctx_value c k = map_of c k"

definition first_value :: "(string \<times> string) list \<Rightarrow> string \<Rightarrow> string" where
  "first_value kvs k = (case map_of kvs k of None \<Rightarrow> '''' | Some v \<Rightarrow> v)"

definition header_get :: "request \<Rightarrow> string \<Rightarrow> string" where
  "header_get r k = first_value (rq_header r) k"

subsection \<open>Responses\<close>

text \<open>
  The header map of a writer can still be changed after the status was written, but what is sent
  is the header at that moment. A body written before any status sends 200 first.
\<close>

record response_writer =
  rw_header :: "(string \<times> string) list"
  rw_status :: "nat option"
  rw_sent_header :: "(string \<times> string) list"
  rw_body :: "nat list"

definition new_writer :: response_writer where
  "new_writer = \<lparr>rw_header = [], rw_status = None, rw_sent_header = [], rw_body = []\<rparr>"

definition header_set :: "string \<Rightarrow> string \<Rightarrow> response_writer \<Rightarrow> response_writer" where
  "header_set k v w = w\<lparr>rw_header := filter (\<lambda>(k', _). k' \<noteq> k) (rw_header w) @ [(k, v)]\<rparr>"

definition header_add :: "string \<Rightarrow> string \<Rightarrow> response_writer \<Rightarrow> response_writer" where
  "header_add k v w = w\<lparr>rw_header := rw_header w @ [(k, v)]\<rparr>"

definition write_header :: "nat \<Rightarrow> response_writer \<Rightarrow> response_writer" where
  "write_header code w =
     (if rw_status w \<noteq> None then w else w\<lparr>rw_status := Some code, rw_sent_header := rw_header w\<rparr>)"

definition write_body :: "nat list \<Rightarrow> response_writer \<Rightarrow> response_writer" where
  "write_body bs w = (let w1 = write_header 200 w in w1\<lparr>rw_body := rw_body w1 @ bs\<rparr>)"

type_synonym 's handler = "request \<Rightarrow> response_writer \<Rightarrow> 's \<Rightarrow> response_writer \<times> 's"

lemma write_header_final: "rw_status w = Some c \<Longrightarrow> write_header code w = w"
  by (simp add: write_header_def)

lemma write_header_fresh [simp]:
  "rw_status w = None \<Longrightarrow> write_header code w = w\<lparr>rw_status := Some code, rw_sent_header := rw_header w\<rparr>"
  by (simp add: write_header_def)

lemma header_set_frame [simp]:
  "rw_status (header_set k v w) = rw_status w" "rw_body (header_set k v w) = rw_body w"
  "rw_sent_header (header_set k v w) = rw_sent_header w"
  by (simp_all add: header_set_def)

lemma header_add_frame [simp]:
  "rw_status (header_add k v w) = rw_status w" "rw_body (header_add k v w) = rw_body w"
  "rw_sent_header (header_add k v w) = rw_sent_header w" "rw_header (header_add k v w) = rw_header w @ [(k, v)]"
  by (simp_all add: header_add_def)

lemma new_writer_sel [simp]:
  "rw_header new_writer = []" "rw_status new_writer = None" "rw_body new_writer = []"
  by (simp_all add: new_writer_def)

subsection \<open>Query strings\<close>

definition hex_char :: "char \<Rightarrow> nat option" where
  "hex_char c = hex_value (of_char c)"

text \<open>\<open>url.QueryUnescape\<close>: \<open>None\<close> is its error.\<close>

fun query_unescape :: "string \<Rightarrow> string option" where
  "query_unescape [] = Some []"
| "query_unescape (c # s) =
     (if c = CHR ''%'' then
        (case s of
           x # y # t \<Rightarrow>
             (case (hex_char x, hex_char y) of
                (Some a, Some b) \<Rightarrow> map_option (\<lambda>u. char_of (16 * a + b) # u) (query_unescape t)
              | _ \<Rightarrow> None)
         | _ \<Rightarrow> None)
      else map_option (\<lambda>u. (if c = CHR ''+'' then CHR '' '' else c) # u) (query_unescape s))"

text \<open>One part of a query string: parts with a semicolon or a bad escape are dropped.\<close>

definition query_pair :: "string \<Rightarrow> (string \<times> string) list" where
  "query_pair part =
     (if part = [] \<or> CHR '';'' \<in> set part then []
      else (case cut (CHR ''='') part of
        (k, v) \<Rightarrow> (case (query_unescape k, query_unescape v) of
                    (Some k, Some v) \<Rightarrow> [(k, v)] | _ \<Rightarrow> [])))"

definition parse_query :: "string \<Rightarrow> (string \<times> string) list" where
  "parse_query q = concat (map query_pair (split_on (CHR ''&'') q))"

text \<open>\<open>r.URL.Query().Get(key)\<close>.\<close>

definition query_get :: "request \<Rightarrow> string \<Rightarrow> string" where
  "query_get r k = first_value (parse_query (rq_raw_query r)) k"

subsection \<open>Cookies\<close>

record cookie =
  ck_name :: string
  ck_value :: string
  ck_path :: string
  ck_http_only :: bool
  ck_secure :: bool
  ck_same_site_lax :: bool
  ck_max_age :: int

definition token_char :: "char \<Rightarrow> bool" where
  "token_char c \<longleftrightarrow> (let b = of_char c :: nat in
     48 \<le> b \<and> b \<le> 57 \<or> 65 \<le> b \<and> b \<le> 90 \<or> 97 \<le> b \<and> b \<le> 122
     \<or> c \<in> set ''!#$%&*+-.^_`|~'' \<or> b = 39)"

definition is_token :: "string \<Rightarrow> bool" where
  "is_token s \<longleftrightarrow> s \<noteq> [] \<and> list_all token_char s"

definition cookie_value_char :: "char \<Rightarrow> bool" where
  "cookie_value_char c \<longleftrightarrow> (let b = of_char c :: nat in 32 \<le> b \<and> b < 127 \<and> b \<notin> {34, 59, 92})"

definition cookie_path_char :: "char \<Rightarrow> bool" where
  "cookie_path_char c \<longleftrightarrow> (let b = of_char c :: nat in 32 \<le> b \<and> b < 127 \<and> b \<noteq> 59)"

text \<open>\<open>parseCookieValue\<close>: surrounding quotes are stripped, a bad byte is an error.\<close>

definition parse_cookie_value :: "string \<Rightarrow> string option" where
  "parse_cookie_value v =
     (let q = CHR 0x22;
          u = (if 1 < length v \<and> hd v = q \<and> last v = q then butlast (tl v) else v)
      in if list_all cookie_value_char u then Some u else None)"

text \<open>\<open>r.Cookie(name)\<close>: the first well-formed pair of that name in the Cookie lines.\<close>

definition cookie_pair :: "string \<Rightarrow> (string \<times> string) list" where
  "cookie_pair part =
     (case cut (CHR ''='') (trim header_space part) of
        (n, v) \<Rightarrow>
          if \<not> is_token (trim header_space n) then []
          else (case parse_cookie_value v of
                  None \<Rightarrow> [] | Some u \<Rightarrow> [(trim header_space n, u)]))"

definition read_cookies :: "request \<Rightarrow> (string \<times> string) list" where
  "read_cookies r =
     concat (map (\<lambda>(k, line). if k = ''Cookie'' then concat (map cookie_pair (split_on (CHR '';'') line)) else [])
       (rq_header r))"

definition request_cookie :: "request \<Rightarrow> string \<Rightarrow> string option" where
  "request_cookie r name = map_of (read_cookies r) name"

text \<open>\<open>Cookie.String()\<close> for the attributes the handlers set, and \<open>http.SetCookie\<close>.\<close>

definition sanitize_cookie_value :: "string \<Rightarrow> string" where
  "sanitize_cookie_value v =
     (let u = filter cookie_value_char v
      in if CHR '' '' \<in> set u \<or> CHR '','' \<in> set u then CHR 0x22 # u @ [CHR 0x22] else u)"

definition cookie_text :: "cookie \<Rightarrow> string" where
  "cookie_text c =
     (if \<not> is_token (ck_name c) then ''''
      else ck_name c @ ''='' @ sanitize_cookie_value (ck_value c)
        @ (if ck_path c = '''' then '''' else ''; Path='' @ filter cookie_path_char (ck_path c))
        @ (if 0 < ck_max_age c then ''; Max-Age='' @ itoa (ck_max_age c)
           else if ck_max_age c < 0 then ''; Max-Age=0'' else '''')
        @ (if ck_http_only c then ''; HttpOnly'' else '''')
        @ (if ck_secure c then ''; Secure'' else '''')
        @ (if ck_same_site_lax c then ''; SameSite=Lax'' else ''''))"

definition set_cookie :: "cookie \<Rightarrow> response_writer \<Rightarrow> response_writer" where
  "set_cookie c w = (if cookie_text c \<noteq> '''' then header_add ''Set-Cookie'' (cookie_text c) w else w)"

lemma set_cookie_frame [simp]:
  "rw_status (set_cookie c w) = rw_status w" "rw_body (set_cookie c w) = rw_body w"
  by (simp_all add: set_cookie_def)

lemma set_cookie_header:
  "is_token (ck_name c) \<Longrightarrow> rw_header (set_cookie c w) = rw_header w @ [(''Set-Cookie'', cookie_text c)]"
  by (simp add: set_cookie_def cookie_text_def is_token_def)

text \<open>A value of plain characters goes out as it is and is read back from the pair a client sends.\<close>

definition plain_cookie_value :: "string \<Rightarrow> bool" where
  "plain_cookie_value v \<longleftrightarrow> list_all cookie_value_char v \<and> CHR '' '' \<notin> set v \<and> CHR '','' \<notin> set v"

lemma sanitize_plain: "plain_cookie_value v \<Longrightarrow> sanitize_cookie_value v = v"
  by (auto simp: sanitize_cookie_value_def plain_cookie_value_def list_all_iff Let_def filter_id_conv)

lemma parse_plain: "plain_cookie_value v \<Longrightarrow> parse_cookie_value v = Some v"
proof -
  assume v: "plain_cookie_value v"
  have "hd v \<noteq> CHR 0x22" if "v \<noteq> []"
  proof
    assume "hd v = CHR 0x22"
    with v that have "cookie_value_char (CHR 0x22)"
      by (metis plain_cookie_value_def list_all_iff hd_in_set)
    then show False by (simp add: cookie_value_char_def)
  qed
  with v show ?thesis by (cases v) (auto simp: parse_cookie_value_def plain_cookie_value_def)
qed

lemma split_on_miss: "c \<notin> set s \<Longrightarrow> split_on c s = [s]"
  by (induction s) auto

lemma cookie_pair_plain:
  assumes n: "is_token n" and v: "plain_cookie_value v"
  shows "cookie_pair (n @ CHR ''='' # v) = [(n, v)]"
proof -
  have tok: "\<not> header_space c" "c \<noteq> CHR ''=''" if "token_char c" for c
    using that by (auto simp: token_char_def header_space_def)
  have val: "\<not> header_space c" if "c \<in> set v" for c
    using that v by (auto simp: plain_cookie_value_def list_all_iff cookie_value_char_def header_space_def)
  have "\<forall>c\<in>set (n @ CHR ''='' # v). \<not> header_space c"
    using n tok(1) val by (auto simp: is_token_def list_all_iff header_space_def)
  then have "trim header_space (n @ CHR ''='' # v) = n @ CHR ''='' # v" by (rule trim_id)
  moreover have "CHR ''='' \<notin> set n" using n tok(2) by (auto simp: is_token_def list_all_iff)
  moreover have "trim header_space n = n"
    using n tok(1) by (intro trim_id) (auto simp: is_token_def list_all_iff)
  ultimately show ?thesis
    using n v by (simp add: cookie_pair_def cut_hit parse_plain)
qed

lemma request_cookie_plain:
  assumes "is_token n" "plain_cookie_value v" "CHR '';'' \<notin> set n"
    and "rq_header r = [(''Cookie'', n @ CHR ''='' # v)]"
  shows "request_cookie r n = Some v"
proof -
  have "CHR '';'' \<notin> set v"
    using assms(2) by (auto simp: plain_cookie_value_def list_all_iff cookie_value_char_def)
  then have "split_on (CHR '';'') (n @ CHR ''='' # v) = [n @ CHR ''='' # v]"
    using assms(3) by (intro split_on_miss) simp
  with assms show ?thesis by (simp add: request_cookie_def read_cookies_def cookie_pair_plain)
qed

end
