(* ===== verification/Httpx.thy ===== *)
theory Httpx
  imports Http
begin

section \<open>JSON responses and request decoding (internal/httpx)\<close>

text \<open>
  \<open>RespondJSON\<close>, \<open>RespondError\<close>, \<open>RespondNoContent\<close> and \<open>DecodeJSON\<close>. What
  \<open>Encode\<close> is given is a \<open>marshalled\<close> value: the JSON value of the Go value, or the
  error of a \<open>MarshalJSON\<close> method, upon which nothing is written. \<open>DecodeJSON\<close> reads
  one value from at most 1 MB of the body and stores it into the fields of a struct.
\<close>

subsection \<open>Responses\<close>

type_synonym marshalled = "go_error + json"

record error_body =
  eb_code :: string
  eb_message :: string

record error_envelope =
  ee_error :: error_body

definition error_envelope_json :: "error_envelope \<Rightarrow> json" where
  "error_envelope_json e =
     J_Obj [(''error'', J_Obj [(''code'', J_Str (eb_code (ee_error e))),
                               (''message'', J_Str (eb_message (ee_error e)))])]"

text \<open>\<open>json.NewEncoder(w).Encode(v)\<close>: the text and a newline, in one write.\<close>

definition encode_json :: "marshalled \<Rightarrow> response_writer \<Rightarrow> response_writer" where
  "encode_json m w = (case m of Inl err \<Rightarrow> w | Inr v \<Rightarrow> write_body (json_render v @ [10]) w)"

definition respond_json :: "nat \<Rightarrow> marshalled option \<Rightarrow> response_writer \<Rightarrow> response_writer" where
  "respond_json status data w =
     (let w1 = header_set ''Content-Type'' ''application/json'' w;
          w2 = write_header status w1
      in case data of None \<Rightarrow> w2 | Some m \<Rightarrow> encode_json m w2)"

definition respond_error :: "nat \<Rightarrow> string \<Rightarrow> string \<Rightarrow> response_writer \<Rightarrow> response_writer" where
  "respond_error status code message w =
     respond_json status
       (Some (Inr (error_envelope_json \<lparr>ee_error = \<lparr>eb_code = code, eb_message = message\<rparr>\<rparr>))) w"

definition respond_no_content :: "response_writer \<Rightarrow> response_writer" where
  "respond_no_content w = write_header 204 w"

subsection \<open>Decoding\<close>

definition max_request_body_bytes :: nat where
  "max_request_body_bytes = 2 ^ 20"

text \<open>\<open>http.MaxBytesReader\<close>: the bytes that can be read and how reading ends.\<close>

definition limit_body :: "nat list \<Rightarrow> go_error option \<Rightarrow> nat list \<times> go_error option" where
  "limit_body bs e =
     (if max_request_body_bytes < length bs
      then (take max_request_body_bytes bs, Some (Foreign_Error ''http: request body too large''))
      else (bs, e))"

text \<open>
  \<open>Decoder.Decode\<close> reads until the first value is complete: an object or array with its
  closing bracket, any other value with the byte after it or the end of the file. What follows
  is not looked at.
\<close>

fun is_compound :: "json \<Rightarrow> bool" where
  "is_compound (J_Arr vs) = True"
| "is_compound (J_Obj kvs) = True"
| "is_compound v = False"

definition read_value :: "nat list \<Rightarrow> go_error option \<Rightarrow> go_error + json" where
  "read_value bs e =
     (case json_parse bs of
        Scanned v r \<Rightarrow>
          (case e of
             Some err \<Rightarrow> if is_compound v \<or> r \<noteq> [] then Inr v else Inl err
           | None \<Rightarrow> Inr v)
      | Short \<Rightarrow>
          (case e of
             Some err \<Rightarrow> Inl err
           | None \<Rightarrow> Inl (Foreign_Error (if list_all is_space bs then ''EOF'' else ''unexpected EOF'')))
      | Malformed \<Rightarrow> Inl (Json_Syntax_Error ''invalid JSON'')
      | Out_Of_Fuel \<Rightarrow> Inl (Json_Syntax_Error ''invalid JSON''))"

text \<open>
  Storing a value into a struct. A key names the field whose tag it equals up to case (the
  library folds the Kelvin sign and the long s as well); members with other keys are ignored, of
  several the last is kept, a value of the wrong type is an error after all members have been
  visited, and null is no value: it leaves a string as it is and sets a pointer to nil.
\<close>

fun fold_name :: "nat list \<Rightarrow> nat list" where
  "fold_name [] = []"
| "fold_name (b # bs) =
     (if 97 \<le> b \<and> b \<le> 122 then (b - 32) # fold_name bs
      else if b = 197 \<and> take 1 bs = [191] then 83 # fold_name (drop 1 bs)
      else if b = 226 \<and> take 2 bs = [132, 170] then 75 # fold_name (drop 2 bs)
      else b # fold_name bs)"

definition same_field :: "string \<Rightarrow> string \<Rightarrow> bool" where
  "same_field k f \<longleftrightarrow> fold_name (bytes_of_string k) = fold_name (bytes_of_string f)"

type_synonym 'r store = "json \<Rightarrow> 'r \<Rightarrow> bool \<times> 'r" \<comment> \<open>whether the type was right\<close>

definition store_string :: "(string \<Rightarrow> 'r \<Rightarrow> 'r) \<Rightarrow> 'r store" where
  "store_string set_field v dst =
     (case v of J_Str s \<Rightarrow> (True, set_field s dst) | J_Null \<Rightarrow> (True, dst) | _ \<Rightarrow> (False, dst))"

definition store_string_ptr :: "(string option \<Rightarrow> 'r \<Rightarrow> 'r) \<Rightarrow> 'r store" where
  "store_string_ptr set_field v dst =
     (case v of
        J_Str s \<Rightarrow> (True, set_field (Some s) dst)
      | J_Null \<Rightarrow> (True, set_field None dst)
      | _ \<Rightarrow> (False, dst))"

fun store_members :: "(string \<times> 'r store) list \<Rightarrow> (string \<times> json) list \<Rightarrow> 'r \<Rightarrow> bool \<times> 'r" where
  "store_members fs [] dst = (True, dst)"
| "store_members fs ((k, v) # kvs) dst =
     (case find (\<lambda>(f, _). same_field k f) fs of
        None \<Rightarrow> store_members fs kvs dst
      | Some (_, st) \<Rightarrow>
          (case st v dst of (ok, dst1) \<Rightarrow>
             (case store_members fs kvs dst1 of (ok', dst2) \<Rightarrow> (ok \<and> ok', dst2))))"

definition store_struct :: "(string \<times> 'r store) list \<Rightarrow> 'r store" where
  "store_struct fs v dst =
     (case v of
        J_Obj kvs \<Rightarrow> store_members fs kvs dst
      | J_Null \<Rightarrow> (True, dst)
      | _ \<Rightarrow> (False, dst))"

text \<open>After an error the callers do not look at the destination.\<close>

definition decode_json :: "'r store \<Rightarrow> request \<Rightarrow> 'r \<Rightarrow> go_error + 'r" where
  "decode_json st r dst =
     (case limit_body (rq_body r) (rq_body_error r) of
        (bs, e) \<Rightarrow>
          (case read_value bs e of
             Inl err \<Rightarrow> Inl err
           | Inr v \<Rightarrow>
               (case st v dst of
                  (ok, dst1) \<Rightarrow> if ok then Inr dst1 else Inl (Json_Type_Error ''wrong type''))))"

subsection \<open>Laws\<close>

text \<open>What a response to a fresh writer is.\<close>

lemma respond_json_fresh:
  assumes "rw_status w = None"
  shows "rw_status (respond_json c d w) = Some c"
    and "rw_header (respond_json c d w) = rw_header (header_set ''Content-Type'' ''application/json'' w)"
    and "rw_sent_header (respond_json c d w) = rw_header (header_set ''Content-Type'' ''application/json'' w)"
    and "rw_body (respond_json c d w) = rw_body w @ (case d of Some (Inr v) \<Rightarrow> json_render v @ [10] | _ \<Rightarrow> [])"
  using assms
  by (auto simp: respond_json_def encode_json_def write_body_def write_header_final Let_def split: option.split sum.split)

lemma respond_error_fresh [simp]:
  "rw_status w = None \<Longrightarrow> rw_status (respond_error c code msg w) = Some c"
  by (simp add: respond_error_def respond_json_fresh)

lemma respond_no_content_fresh [simp]:
  "rw_status w = None \<Longrightarrow> respond_no_content w = w\<lparr>rw_status := Some 204, rw_sent_header := rw_header w\<rparr>"
  by (simp add: respond_no_content_def)

lemma error_body_parses:
  assumes "rw_status w = None" "rw_body w = []"
  shows "json_parse (rw_body (respond_error c code msg w))
    = Scanned (error_envelope_json \<lparr>ee_error = \<lparr>eb_code = clean_string code, eb_message = clean_string msg\<rparr>\<rparr>) [10]"
proof -
  have "ascii ''error''" "ascii ''code''" "ascii ''message''" by (simp_all add: ascii_def)
  then show ?thesis
    unfolding respond_error_def respond_json_fresh(4) [OF assms(1)] assms(2) append_Nil option.case sum.case
    by (subst parse_render) (simp_all add: error_envelope_json_def max_nesting_def)
qed

lemma limit_body_bound: "length (fst (limit_body bs e)) \<le> max_request_body_bytes"
  by (simp add: limit_body_def)

text \<open>The body of a request that sends one value.\<close>

lemma decode_rendered:
  assumes "rq_body r = json_render (J_Obj kvs) @ t" "rq_body_error r = None"
    and "json_ok (J_Obj kvs)" "json_depth (J_Obj kvs) \<le> max_nesting" "number_end t"
    and "length (rq_body r) \<le> max_request_body_bytes"
  shows "decode_json st r dst =
    (case st (json_clean (J_Obj kvs)) dst of
       (ok, dst1) \<Rightarrow> if ok then Inr dst1 else Inl (Json_Type_Error ''wrong type''))"
proof -
  have "limit_body (rq_body r) (rq_body_error r) = (rq_body r, None)"
    using assms(2,6) by (simp add: limit_body_def)
  moreover have "read_value (rq_body r) None = Inr (json_clean (J_Obj kvs))"
    unfolding read_value_def assms(1) parse_render [OF assms(3-5)] by simp
  ultimately show ?thesis by (simp add: decode_json_def)
qed

lemma decode_too_large:
  assumes "max_request_body_bytes < length (rq_body r)"
    and "json_parse (take max_request_body_bytes (rq_body r)) = Short"
  shows "decode_json st r dst = Inl (Foreign_Error ''http: request body too large'')"
  using assms by (simp add: decode_json_def limit_body_def read_value_def)

end
