(* ===== verification/Time_Text.thy ===== *)
theory Time_Text
  imports Strconv
begin

section \<open>Times as text (time.Time)\<close>

text \<open>
  \<open>Time.MarshalJSON\<close> writes a time in its location as RFC 3339 with nanoseconds, and
  \<open>time.Parse(time.RFC3339Nano, s)\<close> reads such a text. The location enters only through its
  offset from UTC in seconds. The lemma \<open>parse_format\<close>: what was written is read back as the
  same instant.
\<close>

subsection \<open>The calendar\<close>

text \<open>Days before a year, counted from the first of January of the year 0.\<close>

definition days_before_year :: "int \<Rightarrow> int" where
  "days_before_year y = 365 * y + (y + 3) div 4 - (y + 99) div 100 + (y + 399) div 400"

definition leap_year :: "int \<Rightarrow> bool" where
  "leap_year y \<longleftrightarrow> 4 dvd y \<and> (\<not> 100 dvd y \<or> 400 dvd y)"

definition month_lengths :: "int \<Rightarrow> int list" where
  "month_lengths y = [31, if leap_year y then 29 else 28, 31, 30, 31, 30, 31, 31, 30, 31, 30, 31]"

definition year_of_day :: "int \<Rightarrow> int" where
  "year_of_day d =
     (let y = 400 * d div 146097
      in if d < days_before_year y then y - 1
         else if days_before_year (y + 1) \<le> d then y + 1 else y)"

text \<open>The part of a partition, given by its lengths, that a position falls into, and the
  position in it.\<close>

fun locate :: "int list \<Rightarrow> int \<Rightarrow> nat \<times> int" where
  "locate [] d = (0, d)"
| "locate (n # ns) d = (if d < n then (0, d) else (case locate ns (d - n) of (m, r) \<Rightarrow> (Suc m, r)))"

text \<open>Year, month and day of the month (both from 1), and back.\<close>

definition civil_of_day :: "int \<Rightarrow> int \<times> nat \<times> int" where
  "civil_of_day d =
     (let y = year_of_day d
      in case locate (month_lengths y) (d - days_before_year y) of (m, r) \<Rightarrow> (y, Suc m, r + 1))"

definition day_of_civil :: "int \<Rightarrow> nat \<Rightarrow> int \<Rightarrow> int" where
  "day_of_civil y m d = days_before_year y + sum_list (take (m - 1) (month_lengths y)) + (d - 1)"

definition unix_epoch_day :: int where
  "unix_epoch_day = 719528"

lemma days_before_year_bounds:
  "146097 * y - 400 \<le> 400 * days_before_year y" "400 * days_before_year y \<le> 146097 * y + 700"
proof -
  define a b c where "a = (y + 3) div 4" and "b = (y + 99) div 100" and "c = (y + 399) div 400"
  have "4 * a \<le> y + 3" "y + 3 < 4 * a + 4" "100 * b \<le> y + 99" "y + 99 < 100 * b + 100"
    "400 * c \<le> y + 399" "y + 399 < 400 * c + 400"
    by (simp_all add: a_def b_def c_def)
  then show "146097 * y - 400 \<le> 400 * days_before_year y" "400 * days_before_year y \<le> 146097 * y + 700"
    unfolding days_before_year_def a_def [symmetric] b_def [symmetric] c_def [symmetric] by simp_all
qed

lemma year_of_day_bounds:
  "days_before_year (year_of_day d) \<le> d" "d < days_before_year (year_of_day d + 1)"
proof -
  define y where "y = 400 * d div 146097"
  have y: "146097 * y \<le> 400 * d" "400 * d < 146097 * y + 146097"
    by (simp_all add: y_def)
  have "days_before_year (y - 1) \<le> d" "d < days_before_year (y + 2)"
    using y days_before_year_bounds [of "y - 1"] days_before_year_bounds [of "y + 2"] by simp_all
  then show "days_before_year (year_of_day d) \<le> d" "d < days_before_year (year_of_day d + 1)"
    unfolding year_of_day_def y_def [symmetric] Let_def by (auto simp: add.assoc)
qed

lemma year_length: "days_before_year (y + 1) - days_before_year y = sum_list (month_lengths y)"
proof -
  have step: "(y + n) div n - (y + (n - 1)) div n = (if n dvd y then 1 else 0)" if "0 < n" for n :: int
  proof -
    define q r where "q = y div n" and "r = y mod n"
    have q: "y = q * n + r" "0 \<le> r" "r < n"
      using that by (simp_all add: q_def r_def)
    have quot: "(k * n + j) div n = k" if "0 \<le> j" "j < n" for k j
      using that by (simp add: div_pos_pos_trivial)
    have "y + n = (q + 1) * n + r" using q by (simp add: algebra_simps)
    then have "(y + n) div n = q + 1" using q by (simp only: quot)
    moreover have "(y + (n - 1)) div n = (if r = 0 then q else q + 1)"
    proof (cases "r = 0")
      case True
      then have "y + (n - 1) = q * n + (n - 1)" using q by simp
      with that True show ?thesis by (simp only: quot) simp
    next
      case False
      have "y + (n - 1) = (q + 1) * n + (r - 1)" using q by (simp add: algebra_simps)
      moreover have "((q + 1) * n + (r - 1)) div n = q + 1" using False q by (intro quot) simp_all
      ultimately have "(y + (n - 1)) div n = q + 1" by (simp only:)
      with False show ?thesis by simp
    qed
    moreover have "n dvd y \<longleftrightarrow> r = 0"
      by (simp add: r_def dvd_eq_mod_eq_0)
    ultimately show ?thesis by simp
  qed
  have "days_before_year (y + 1) - days_before_year y = 365 + ((y + 4) div 4 - (y + (4 - 1)) div 4)
      - ((y + 100) div 100 - (y + (100 - 1)) div 100) + ((y + 400) div 400 - (y + (400 - 1)) div 400)"
    by (simp add: days_before_year_def add.assoc)
  also have "\<dots> = 365 + (if 4 dvd y then 1 else 0) - (if 100 dvd y then 1 else 0) + (if 400 dvd y then 1 else 0)"
    by (simp only: step zero_less_numeral)
  also have "\<dots> = 365 + (if leap_year y then 1 else 0)"
  proof -
    have "100 dvd y \<Longrightarrow> 4 dvd y" by (rule dvd_trans [of _ 100]) simp_all
    moreover have "400 dvd y \<Longrightarrow> 100 dvd y" by (rule dvd_trans [of _ 400]) simp_all
    ultimately show ?thesis
      unfolding leap_year_def by (cases "4 dvd y"; cases "100 dvd y"; cases "400 dvd y") simp_all
  qed
  finally show ?thesis by (simp add: month_lengths_def)
qed

lemma locate_sound:
  "0 \<le> d \<Longrightarrow> d < sum_list ns \<Longrightarrow> locate ns d = (m, r) \<Longrightarrow>
     m < length ns \<and> 0 \<le> r \<and> r < ns ! m \<and> sum_list (take m ns) + r = d"
proof (induction ns arbitrary: d m)
  case (Cons n ns)
  show ?case
  proof (cases "d < n")
    case True
    with Cons.prems show ?thesis by auto
  next
    case False
    with Cons.prems obtain k where "locate ns (d - n) = (k, r)" "m = Suc k"
      by (auto split: prod.splits)
    with Cons.IH [of "d - n" k] Cons.prems False show ?thesis by auto
  qed
qed simp

lemma civil_of_day_sound:
  assumes "civil_of_day n = (y, m, d)"
  shows "1 \<le> m \<and> m \<le> 12 \<and> 1 \<le> d \<and> d \<le> month_lengths y ! (m - 1) \<and> d \<le> 31
    \<and> day_of_civil y m d = n \<and> y = year_of_day n"
proof -
  obtain k r where k: "locate (month_lengths y) (n - days_before_year y) = (k, r)" "m = Suc k" "d = r + 1"
    and y: "y = year_of_day n"
    using assms by (auto simp: civil_of_day_def Let_def split: prod.splits)
  have "0 \<le> n - days_before_year y" "n - days_before_year y < sum_list (month_lengths y)"
    using year_of_day_bounds [of n] year_length [of y] y by simp_all
  from locate_sound [OF this k(1)] k(2,3) y
  have *: "k < 12" "0 \<le> r" "r < month_lengths y ! k" "sum_list (take k (month_lengths y)) + r = n - days_before_year y"
    by (simp_all add: month_lengths_def)
  moreover have "\<forall>x\<in>set (month_lengths y). x \<le> 31" by (simp add: month_lengths_def)
  then have "month_lengths y ! k \<le> 31" 
    by (rule bspec [OF _ nth_mem]) (use *(1) in \<open>simp add: month_lengths_def\<close>)
  ultimately show ?thesis using k(2,3) y by (simp add: day_of_civil_def)
qed

subsection \<open>Writing\<close>

definition two_digits :: "nat \<Rightarrow> string" where
  "two_digits n = [digit_char (n div 10 mod 10), digit_char (n mod 10)]"

definition four_digits :: "nat \<Rightarrow> string" where
  "four_digits n = two_digits (n div 100) @ two_digits n"

text \<open>Nanoseconds as a fraction of nine digits without trailing zeros, nothing for zero.\<close>

fun digits_of_width :: "nat \<Rightarrow> nat \<Rightarrow> string" where
  "digits_of_width 0 n = []"
| "digits_of_width (Suc w) n = digits_of_width w (n div 10) @ [digit_char (n mod 10)]"

definition fraction_text :: "nat \<Rightarrow> string" where
  "fraction_text n =
     (if n = 0 then []
      else CHR ''.'' # rev (dropWhile (\<lambda>c. c = CHR ''0'') (rev (digits_of_width 9 n))))"

definition zone_text :: "int \<Rightarrow> string" where
  "zone_text off =
     (if off = 0 then ''Z''
      else (let m = nat (\<bar>off\<bar> div 60)
            in (if off \<le> -60 then CHR ''-'' else CHR ''+'') # two_digits (m div 60) @ CHR '':'' # two_digits (m mod 60)))"

definition clock_text :: "nat \<Rightarrow> string" where
  "clock_text s =
     two_digits (s div 3600) @ CHR '':'' # two_digits (s div 60 mod 60) @ CHR '':'' # two_digits (s mod 60)"

definition day_length :: int where
  "day_length = 86400 * 1000000000"

text \<open>\<open>MarshalJSON\<close> refuses years outside 0 to 9999 and offsets of a day or more.\<close>

definition format_time :: "int \<Rightarrow> instant \<Rightarrow> go_error + string" where
  "format_time off t =
     (let local = t + off * 1000000000;
          (y, m, d) = civil_of_day (local div day_length + unix_epoch_day);
          ns = nat (local mod day_length)
      in if y < 0 \<or> 9999 < y
         then Inl (New_Error ''Time.MarshalJSON: year outside of range [0,9999]'')
         else if 86400 \<le> \<bar>off\<bar>
         then Inl (New_Error ''Time.MarshalJSON: timezone hour outside of range [0,23]'')
         else Inr (four_digits (nat y) @ CHR ''-'' # two_digits m @ CHR ''-'' # two_digits (nat d)
                @ CHR ''T'' # clock_text (ns div 1000000000) @ fraction_text (ns mod 1000000000) @ zone_text off))"

subsection \<open>Reading\<close>

text \<open>\<open>getnum\<close>: one or two digits, exactly two when \<open>fixed\<close>.\<close>

definition get_num :: "bool \<Rightarrow> string \<Rightarrow> (nat \<times> string) option" where
  "get_num fixed s =
     (case s of
        c # r \<Rightarrow>
          (case digit_of c of
             None \<Rightarrow> None
           | Some a \<Rightarrow>
               (case r of
                  c' # r' \<Rightarrow>
                    (case digit_of c' of
                       Some b \<Rightarrow> Some (10 * a + b, r')
                     | None \<Rightarrow> if fixed then None else Some (a, r))
                | [] \<Rightarrow> if fixed then None else Some (a, r)))
      | [] \<Rightarrow> None)"

definition expect :: "char \<Rightarrow> string \<Rightarrow> string option" where
  "expect c s = (case s of x # r \<Rightarrow> if x = c then Some r else None | [] \<Rightarrow> None)"

definition get_year :: "string \<Rightarrow> (nat \<times> string) option" where
  "get_year s =
     (if 4 \<le> length s \<and> list_all is_digit_char (take 4 s)
      then Some (read_digits 0 (take 4 s), drop 4 s) else None)"

text \<open>A fraction of any number of digits after a period or a comma, of which nine count.\<close>

definition get_fraction :: "string \<Rightarrow> nat \<times> string" where
  "get_fraction s =
     (case s of
        p # c # r \<Rightarrow>
          if p \<in> {CHR ''.'', CHR '',''} \<and> is_digit_char c
          then (let ds = takeWhile is_digit_char (c # r); used = take 9 ds
                in (read_digits 0 used * 10 ^ (9 - length used), dropWhile is_digit_char (c # r)))
          else (0, s)
      | _ \<Rightarrow> (0, s))"

definition get_zone :: "string \<Rightarrow> (int \<times> string) option" where
  "get_zone s =
     (case s of
        c # r \<Rightarrow>
          if c = CHR ''Z'' then Some (0, r)
          else if c \<in> {CHR ''+'', CHR ''-''} \<and> 5 \<le> length r \<and> r ! 2 = CHR '':'' then
            (case (get_num True (take 2 r), get_num True (take 2 (drop 3 r))) of
               (Some (h, _), Some (m, _)) \<Rightarrow>
                 if 24 < h \<or> 60 < m then None
                 else Some ((if c = CHR ''-'' then -1 else 1) * int ((h * 60 + m) * 60), drop 5 r)
             | _ \<Rightarrow> None)
          else None
      | [] \<Rightarrow> None)"

definition time_of_fields :: "nat \<Rightarrow> nat \<Rightarrow> nat \<Rightarrow> nat \<Rightarrow> nat \<Rightarrow> instant" where
  "time_of_fields y m d secs ns =
     ((day_of_civil (int y) m (int d) - unix_epoch_day) * 86400 + int secs) * 1000000000 + int ns"

text \<open>\<open>time.Parse(time.RFC3339Nano, s)\<close>; \<open>None\<close> is an error.\<close>

definition parse_time :: "string \<Rightarrow> instant option" where
  "parse_time s =
     Option.bind (get_year s) (\<lambda>(y, s).
     Option.bind (expect (CHR ''-'') s) (\<lambda>s.
     Option.bind (get_num True s) (\<lambda>(m, s).
     Option.bind (expect (CHR ''-'') s) (\<lambda>s.
     Option.bind (get_num True s) (\<lambda>(d, s).
     Option.bind (expect (CHR ''T'') s) (\<lambda>s.
     Option.bind (get_num False s) (\<lambda>(hh, s).
     Option.bind (expect (CHR '':'') s) (\<lambda>s.
     Option.bind (get_num True s) (\<lambda>(mm, s).
     Option.bind (expect (CHR '':'') s) (\<lambda>s.
     Option.bind (get_num True s) (\<lambda>(ss, s).
     case get_fraction s of (ns, s) \<Rightarrow>
     Option.bind (get_zone s) (\<lambda>(off, s).
       if m < 1 \<or> 12 < m \<or> 24 \<le> hh \<or> 60 \<le> mm \<or> 60 \<le> ss \<or> s \<noteq> []
          \<or> d < 1 \<or> month_lengths (int y) ! (m - 1) < int d
       then None
       else Some (time_of_fields y m d ((hh * 60 + mm) * 60 + ss) ns - off * 1000000000)))))))))))))"

subsection \<open>Reading what was written\<close>

lemma get_num_two_digits [simp]: "n < 100 \<Longrightarrow> get_num f (two_digits n @ s) = Some (n, s)"
  by (simp add: get_num_def two_digits_def)

lemma expect_hit [simp]: "expect c (c # s) = Some s"
  by (simp add: expect_def)

lemma get_year_four_digits [simp]:
  assumes "n < 10000"
  shows "get_year (four_digits n @ s) = Some (n, s)"
proof -
  have "n = 1000 * (n div 100 div 10 mod 10) + 100 * (n div 100 mod 10) + 10 * (n div 10 mod 10) + n mod 10"
  proof -
    have "n = 10 * (n div 10) + n mod 10" by simp
    moreover have "n div 10 = 10 * (n div 10 div 10) + n div 10 mod 10" by simp
    moreover have "n div 10 div 10 = n div 100" by (simp add: div_mult2_eq [symmetric])
    moreover have "n div 100 = 10 * (n div 100 div 10) + n div 100 mod 10" by simp
    moreover have "n div 100 div 10 mod 10 = n div 100 div 10"
      using assms by (simp add: less_mult_imp_div_less)
    ultimately show ?thesis by linarith
  qed
  then show ?thesis by (simp add: get_year_def four_digits_def two_digits_def)
qed

lemma digits_of_width_length [simp]: "length (digits_of_width w n) = w"
  by (induction w arbitrary: n) simp_all

lemma digits_of_width_digits: "list_all is_digit_char (digits_of_width w n)"
  by (induction w arbitrary: n) simp_all

lemma read_digits_of_width: "n < 10 ^ w \<Longrightarrow> read_digits 0 (digits_of_width w n) = n"
  by (induction w arbitrary: n) (auto simp: read_digits_snoc digits_of_width_digits)

lemma read_digits_app_zeros:
  "list_all is_digit_char ds \<Longrightarrow> read_digits 0 (ds @ replicate k (CHR ''0'')) = read_digits 0 ds * 10 ^ k"
proof (induction k)
  case (Suc k)
  have "of_char (CHR ''0'') = (48 :: nat)" by simp
  then have z: "CHR ''0'' = digit_char 0" unfolding digit_char_def by (metis char_of_char add_0_right)
  have "list_all is_digit_char (ds @ replicate k (CHR ''0''))"
    using Suc.prems unfolding z by (induction k) simp_all
  moreover have "ds @ replicate (Suc k) (CHR ''0'') = (ds @ replicate k (CHR ''0'')) @ [digit_char 0]"
    by (simp add: z replicate_append_same)
  ultimately show ?case using Suc by (simp only: read_digits_snoc) simp
qed simp

lemma strip_zeros:
  obtains k where "digits_of_width w n = rev (dropWhile (\<lambda>c. c = CHR ''0'') (rev (digits_of_width w n))) @ replicate k (CHR ''0'')"
proof -
  let ?r = "rev (digits_of_width w n)"
  have "\<forall>c\<in>set (takeWhile (\<lambda>c. c = CHR ''0'') ?r). c = CHR ''0''" by (auto dest: set_takeWhileD)
  then have "takeWhile (\<lambda>c. c = CHR ''0'') ?r = replicate (length (takeWhile (\<lambda>c. c = CHR ''0'') ?r)) (CHR ''0'')"
    by (simp add: replicate_length_same)
  then have "digits_of_width w n = rev (dropWhile (\<lambda>c. c = CHR ''0'') ?r)
      @ replicate (length (takeWhile (\<lambda>c. c = CHR ''0'') ?r)) (CHR ''0'')"
    using takeWhile_dropWhile_id [of "\<lambda>c. c = CHR ''0''" ?r] by (metis rev_append rev_replicate rev_rev_ident)
  then show thesis by (rule that)
qed

definition zone_start :: "string \<Rightarrow> bool" where
  "zone_start s \<longleftrightarrow> s \<noteq> [] \<and> hd s \<in> {CHR ''Z'', CHR ''+'', CHR ''-''}"

lemma zone_start_not_digit: "zone_start s \<Longrightarrow> \<not> is_digit_char (hd s) \<and> hd s \<noteq> CHR ''.'' \<and> hd s \<noteq> CHR '',''"
  by (auto simp: zone_start_def is_digit_char_def digit_of_def)

lemma get_fraction_text:
  assumes "n < 10 ^ 9" "zone_start s"
  shows "get_fraction (fraction_text n @ s) = (n, s)"
proof (cases "n = 0")
  case True
  with zone_start_not_digit [OF assms(2)] show ?thesis
    by (auto simp: fraction_text_def get_fraction_def split: list.split)
next
  case False
  define ds where "ds = rev (dropWhile (\<lambda>c. c = CHR ''0'') (rev (digits_of_width 9 n)))"
  obtain k where k: "digits_of_width 9 n = ds @ replicate k (CHR ''0'')"
    using strip_zeros [of 9 n] unfolding ds_def by blast
  have dig: "list_all is_digit_char ds" using digits_of_width_digits [of 9 n] unfolding k by simp
  have len: "length ds + k = 9" using arg_cong [OF k, of length] by simp
  have val: "read_digits 0 ds * 10 ^ k = n"
    using read_digits_of_width [OF assms(1)] read_digits_app_zeros [OF dig, of k] unfolding k by simp
  with False obtain c r where cr: "ds = c # r" by (cases ds) auto
  have tw: "takeWhile is_digit_char (ds @ s) = ds" "dropWhile is_digit_char (ds @ s) = s"
    using dig zone_start_not_digit [OF assms(2)] assms(2)
    by (auto simp: zone_start_def list_all_iff takeWhile_append2 dropWhile_append2 neq_Nil_conv)
  have "is_digit_char c" using dig cr by simp
  then have "get_fraction (CHR ''.'' # ds @ s) = (read_digits 0 (take 9 ds) * 10 ^ (9 - length (take 9 ds)), s)"
    using tw by (auto simp: get_fraction_def cr Let_def split: option.split)
  moreover have "take 9 ds = ds" "9 - length ds = k" using len by simp_all
  ultimately have "get_fraction (CHR ''.'' # ds @ s) = (n, s)" using val by simp
  with False show ?thesis by (simp add: fraction_text_def ds_def)
qed

lemma zone_text_start: "zone_start (zone_text off)"
  by (simp add: zone_text_def zone_start_def Let_def)

lemma get_zone_text:
  assumes "\<bar>off\<bar> < 86400" "60 dvd off"
  shows "get_zone (zone_text off) = Some (off, [])"
proof (cases "off = 0")
  case True
  then show ?thesis by (simp add: zone_text_def get_zone_def)
next
  case False
  define m where "m = nat (\<bar>off\<bar> div 60)"
  have "0 \<le> \<bar>off\<bar> div 60" by (simp add: pos_imp_zdiv_nonneg_iff)
  then have m: "int m * 60 = \<bar>off\<bar>" using assms(2) by (simp add: m_def)
  then have "m < 24 * 60" using assms(1) by linarith
  then have lt: "m div 60 < 24" "m mod 60 < 60" by (simp_all add: less_mult_imp_div_less)
  have nz: "off \<le> -60 \<longleftrightarrow> off < 0" using assms(2) False by (auto elim!: dvdE)
  have lens: "length (two_digits a) = 2" for a by (simp add: two_digits_def)
  have split: "take 2 (two_digits a @ CHR '':'' # two_digits b) = two_digits a"
    "drop 3 (two_digits a @ CHR '':'' # two_digits b) = two_digits b"
    "(two_digits a @ CHR '':'' # two_digits b) ! 2 = CHR '':''"
    "drop 5 (two_digits a @ CHR '':'' # two_digits b) = []" "take 2 (two_digits b) = two_digits b" for a b
    by (simp_all add: two_digits_def)
  have num: "get_num True (two_digits a) = Some (a, [])" if "a < 100" for a
    using that get_num_two_digits [of a True "[]"] by simp
  have "get_zone (zone_text off) =
      Some ((if off < 0 then -1 else 1) * int ((m div 60 * 60 + m mod 60) * 60), [])"
    using False nz lt
    by (simp add: zone_text_def get_zone_def Let_def m_def [symmetric] split num lens)
  also have "m div 60 * 60 + m mod 60 = m" by simp
  finally show ?thesis using m False by auto
qed

lemma parse_format:
  assumes "format_time off t = Inr s" "60 dvd off"
  shows "parse_time s = Some t"
proof -
  define local where "local = t + off * 1000000000"
  define n where "n = local div day_length + unix_epoch_day"
  define ns where "ns = nat (local mod day_length)"
  obtain y m d where c: "civil_of_day n = (y, m, d)" by (cases "civil_of_day n") auto
  note sound = civil_of_day_sound [OF c]
  have y: "0 \<le> y" "y \<le> 9999" and off: "\<bar>off\<bar> < 86400"
    and s: "s = four_digits (nat y) @ CHR ''-'' # two_digits m @ CHR ''-'' # two_digits (nat d)
        @ CHR ''T'' # clock_text (ns div 1000000000) @ fraction_text (ns mod 1000000000) @ zone_text off"
    using assms(1) c
    by (auto simp: format_time_def Let_def local_def [symmetric] n_def [symmetric] ns_def [symmetric] split: if_splits)
  define q where "q = ns div 1000000000"
  have ns: "int ns = local mod day_length" "ns < 86400 * 1000000000"
    by (simp_all add: ns_def day_length_def nat_less_iff)
  then have q: "q < 86400" by (simp add: q_def less_mult_imp_div_less)
  then have lt: "q div 3600 < 24" "q div 60 mod 60 < 60" "q mod 60 < 60"
    by (simp_all add: less_mult_imp_div_less)
  have q_eq: "(q div 3600 * 60 + q div 60 mod 60) * 60 + q mod 60 = q"
  proof -
    have "q div 3600 = q div 60 div 60" by (simp add: div_mult2_eq [symmetric])
    then have "q div 3600 * 60 + q div 60 mod 60 = q div 60" by (simp only: div_mult_mod_eq)
    then show ?thesis by (simp only: div_mult_mod_eq)
  qed
  obtain yn where yn: "y = int yn" using y by (elim nonneg_int_cases)
  have "0 \<le> d" using sound by simp
  then obtain dn where dn: "d = int dn" by (elim nonneg_int_cases)
  have "parse_time s = Some (time_of_fields yn m dn q (ns mod 1000000000) - off * 1000000000)"
  proof -
    have "dn < 100" "1 \<le> dn" "m < 100" "1 \<le> m" "m \<le> 12" "yn < 10000" "int dn \<le> month_lengths (int yn) ! (m - 1)"
      using sound y yn dn by auto
    moreover have "\<not> 60 \<le> q div 60 mod 60" "\<not> 60 \<le> q mod 60" by simp_all
    ultimately show ?thesis using lt off assms(2) q_eq yn dn
      by (simp add: parse_time_def s clock_text_def q_def [symmetric] get_fraction_text zone_text_start get_zone_text
        not_le)
  qed
  moreover have "time_of_fields yn m dn q (ns mod 1000000000) = local"
  proof -
    have "day_of_civil y m d = n" using sound by blast
    then have "day_of_civil (int yn) m (int dn) = n" by (simp only: yn dn)
    moreover have "int q * 1000000000 + int (ns mod 1000000000) = int ns"
      by (simp add: q_def zdiv_int zmod_int)
    ultimately have "time_of_fields yn m dn q (ns mod 1000000000) = local div day_length * day_length + int ns"
      by (simp add: time_of_fields_def n_def day_length_def algebra_simps)
    then show ?thesis by (simp only: ns(1) div_mult_mod_eq)
  qed
  ultimately show ?thesis by (simp add: local_def)
qed

end
