(* ===== verification/Handler_Support.thy ===== *)
theory Handler_Support
  imports Httpx Time_Text Models
begin

section \<open>What the handlers share (internal/handlers)\<close>

text \<open>
  \<open>decodeAndValidate\<close>, the JSON of the response types, and the packages the handlers call
  that are not part of the repository: the struct validator (\<open>validator_lib\<close>, with
  \<open>validator_documented\<close> for the rules the struct tags use), \<open>google/uuid\<close>
  (\<open>uuid_lib\<close>), and the time zone of the process, by its offset from UTC at an instant.
\<close>

subsection \<open>Packages\<close>

record uuid_lib =
  ul_parse :: "string \<Rightarrow> go_error + uuid" \<comment> \<open>uuid.Parse\<close>
  ul_string :: "uuid \<Rightarrow> string" \<comment> \<open>UUID.String, UUID.MarshalText\<close>
  ul_zone :: "instant \<Rightarrow> int" \<comment> \<open>seconds east of UTC in the location of the times read\<close>

text \<open>The documented behaviour: \<open>String\<close> gives a text of ASCII characters (36 of them, so not
  the empty one) that \<open>Parse\<close> reads back.\<close>

definition uuid_documented :: "uuid_lib \<Rightarrow> bool" where
  "uuid_documented L \<longleftrightarrow> (\<forall>u. ul_parse L (ul_string L u) = Inr u \<and> ascii (ul_string L u) \<and> ul_string L u \<noteq> '''')"

text \<open>A field of a struct as the validator sees it: its name, its value (\<open>None\<close> for a nil
  pointer) and the rules of its \<open>validate\<close> tag.\<close>

datatype rule = Required | Omit_Empty | Email | Min nat | Max nat

record checked_field =
  cf_name :: string
  cf_value :: "string option"
  cf_rules :: "rule list"

record validator_lib =
  vd_struct :: "checked_field list \<Rightarrow> go_error option" \<comment> \<open>Validate.Struct\<close>

fun rule_holds :: "(string \<Rightarrow> bool) \<Rightarrow> string \<Rightarrow> rule \<Rightarrow> bool" where
  "rule_holds is_email s Required \<longleftrightarrow> s \<noteq> ''''"
| "rule_holds is_email s Omit_Empty \<longleftrightarrow> True"
| "rule_holds is_email s Email \<longleftrightarrow> is_email s"
| "rule_holds is_email s (Min n) \<longleftrightarrow> n \<le> string_runes s"
| "rule_holds is_email s (Max n) \<longleftrightarrow> string_runes s \<le> n"

definition field_ok :: "(string \<Rightarrow> bool) \<Rightarrow> checked_field \<Rightarrow> bool" where
  "field_ok is_email f \<longleftrightarrow>
     (case cf_value f of
        None \<Rightarrow> Omit_Empty \<in> set (cf_rules f)
      | Some s \<Rightarrow> list_all (rule_holds is_email s) (cf_rules f))"

text \<open>The documented behaviour: a struct is accepted exactly when every field keeps its rules;
  \<open>min\<close> and \<open>max\<close> count runes, what an email address is the package decides.\<close>

definition validator_documented :: "validator_lib \<Rightarrow> (string \<Rightarrow> bool) \<Rightarrow> bool" where
  "validator_documented V is_email \<longleftrightarrow>
     (\<forall>fs. vd_struct V fs = None \<longleftrightarrow> list_all (field_ok is_email) fs)"

subsection \<open>decodeAndValidate\<close>

text \<open>\<open>errors.AsType\<close> for the two error types of \<open>encoding/json\<close>.\<close>

fun errors_as_json :: "go_error \<Rightarrow> bool" where
  "errors_as_json (Json_Syntax_Error m) = True"
| "errors_as_json (Json_Type_Error m) = True"
| "errors_as_json (Wrapf m e) = errors_as_json e"
| "errors_as_json (Joined a b) = (errors_as_json a \<or> errors_as_json b)"
| "errors_as_json e = False"

definition respond_decode_error :: "go_error \<Rightarrow> response_writer \<Rightarrow> response_writer" where
  "respond_decode_error err w =
     respond_error 400 ''invalid_body''
       (if errors_as_json err then ''request body is not valid JSON'' else error_string err) w"

text \<open>\<open>Inr\<close> is the destination after a success, \<open>Inl\<close> the writer after the response of a
  failure.\<close>

definition decode_and_validate ::
    "validator_lib \<Rightarrow> 'r store \<Rightarrow> ('r \<Rightarrow> checked_field list) \<Rightarrow> request \<Rightarrow> response_writer \<Rightarrow> 'r
      \<Rightarrow> response_writer + 'r" where
  "decode_and_validate V st checks r w dst =
     (case decode_json st r dst of
        Inl err \<Rightarrow> Inl (respond_decode_error err w)
      | Inr req \<Rightarrow>
          (case vd_struct V (checks req) of
             Some err \<Rightarrow> Inl (respond_error 400 ''validation_failed'' (error_string err) w)
           | None \<Rightarrow> Inr req))"

lemma decode_and_validate_Inl:
  "decode_and_validate V st checks r w dst = Inl w' \<Longrightarrow>
     \<exists>code msg. code \<in> {''invalid_body'', ''validation_failed''} \<and> w' = respond_error 400 code msg w"
  by (auto simp: decode_and_validate_def respond_decode_error_def split: sum.splits option.splits)

lemma decode_and_validate_Inr:
  assumes "decode_and_validate V st checks r w dst = Inr req" "validator_documented V is_email"
  shows "decode_json st r dst = Inr req \<and> list_all (field_ok is_email) (checks req)"
  using assms by (auto simp: decode_and_validate_def validator_documented_def split: sum.splits option.splits)

subsection \<open>Marshalling\<close>

definition marshal_time :: "uuid_lib \<Rightarrow> instant \<Rightarrow> marshalled" where
  "marshal_time L t = (case format_time (ul_zone L t) t of Inl e \<Rightarrow> Inl e | Inr s \<Rightarrow> Inr (J_Str s))"

definition marshal_uuid :: "uuid_lib \<Rightarrow> uuid \<Rightarrow> marshalled" where
  "marshal_uuid L u = Inr (J_Str (ul_string L u))"

text \<open>The members of an object, the elements of an array: the first error ends it.\<close>

fun marshal_object :: "(string \<times> marshalled) list \<Rightarrow> go_error + (string \<times> json) list" where
  "marshal_object [] = Inr []"
| "marshal_object ((k, m) # kms) =
     (case m of
        Inl e \<Rightarrow> Inl e
      | Inr v \<Rightarrow> (case marshal_object kms of Inl e \<Rightarrow> Inl e | Inr kvs \<Rightarrow> Inr ((k, v) # kvs)))"

fun marshal_array :: "marshalled list \<Rightarrow> go_error + json list" where
  "marshal_array [] = Inr []"
| "marshal_array (m # ms) =
     (case m of
        Inl e \<Rightarrow> Inl e
      | Inr v \<Rightarrow> (case marshal_array ms of Inl e \<Rightarrow> Inl e | Inr vs \<Rightarrow> Inr (v # vs)))"

definition as_object :: "go_error + (string \<times> json) list \<Rightarrow> marshalled" where
  "as_object x = (case x of Inl e \<Rightarrow> Inl e | Inr kvs \<Rightarrow> Inr (J_Obj kvs))"

definition as_array :: "go_error + json list \<Rightarrow> marshalled" where
  "as_array x = (case x of Inl e \<Rightarrow> Inl e | Inr vs \<Rightarrow> Inr (J_Arr vs))"

end
