(* ===== verification/User_Handler.thy ===== *)
theory User_Handler
  imports Handler_Support User_Service
begin

section \<open>The user endpoints (internal/handlers/user\_handler.go)\<close>

text \<open>
  \<open>Create\<close>, \<open>Get\<close>, \<open>List\<close>, \<open>Update\<close> and \<open>Delete\<close> over the interface
  \<open>userService\<close>, with the parsing of path and query parameters and the mapping of service
  errors to responses. The lemmas say what each endpoint answers for each answer of the service,
  and that it calls the service at most once.
\<close>

subsection \<open>The service as the handlers see it\<close>

record 's user_service_iface =
  usi_create :: "create_user_input \<Rightarrow> 's \<Rightarrow> (go_error + user) \<times> 's"
  usi_get :: "uuid \<Rightarrow> 's \<Rightarrow> (go_error + user) \<times> 's"
  usi_list :: "int32 \<Rightarrow> page_cursor option \<Rightarrow> 's \<Rightarrow> (go_error + list_result) \<times> 's"
  usi_update :: "uuid \<Rightarrow> update_user_input \<Rightarrow> 's \<Rightarrow> (go_error + user) \<times> 's"
  usi_delete :: "uuid \<Rightarrow> 's \<Rightarrow> go_error option \<times> 's"

definition as_user_service_iface ::
    "bcrypt_lib \<Rightarrow> ('d env_scheme) user_service \<Rightarrow> ('d env_scheme) user_service_iface" where
  "as_user_service_iface B s =
     \<lparr>usi_create = user_service_create B s, usi_get = user_service_get s, usi_list = user_service_list s,
      usi_update = user_service_update B s, usi_delete = user_service_delete s\<rparr>"

record 's user_handler =
  uh_svc :: "'s user_service_iface"
  uh_validator :: validator_lib

definition new_user_handler :: "validator_lib \<Rightarrow> 's user_service_iface \<Rightarrow> 's user_handler" where
  "new_user_handler V svc = \<lparr>uh_svc = svc, uh_validator = V\<rparr>"

subsection \<open>Requests\<close>

record create_user_request =
  cur_email :: string
  cur_password :: string
  cur_name :: string

record update_user_request =
  uur_email :: "string option"
  uur_password :: "string option"
  uur_name :: "string option"

definition zero_create_request :: create_user_request where
  "zero_create_request = \<lparr>cur_email = '''', cur_password = '''', cur_name = ''''\<rparr>"

definition store_create_request :: "create_user_request store" where
  "store_create_request =
     store_struct [(''email'', store_string (\<lambda>s r. r\<lparr>cur_email := s\<rparr>)),
                   (''password'', store_string (\<lambda>s r. r\<lparr>cur_password := s\<rparr>)),
                   (''name'', store_string (\<lambda>s r. r\<lparr>cur_name := s\<rparr>))]"

definition create_request_checks :: "create_user_request \<Rightarrow> checked_field list" where
  "create_request_checks r =
     [\<lparr>cf_name = ''Email'', cf_value = Some (cur_email r), cf_rules = [Required, Email, Max 254]\<rparr>,
      \<lparr>cf_name = ''Password'', cf_value = Some (cur_password r), cf_rules = [Required, Min 8, Max 72]\<rparr>,
      \<lparr>cf_name = ''Name'', cf_value = Some (cur_name r), cf_rules = [Required, Min 1, Max 100]\<rparr>]"

definition zero_update_request :: update_user_request where
  "zero_update_request = \<lparr>uur_email = None, uur_password = None, uur_name = None\<rparr>"

definition store_update_request :: "update_user_request store" where
  "store_update_request =
     store_struct [(''email'', store_string_ptr (\<lambda>s r. r\<lparr>uur_email := s\<rparr>)),
                   (''password'', store_string_ptr (\<lambda>s r. r\<lparr>uur_password := s\<rparr>)),
                   (''name'', store_string_ptr (\<lambda>s r. r\<lparr>uur_name := s\<rparr>))]"

definition update_request_checks :: "update_user_request \<Rightarrow> checked_field list" where
  "update_request_checks r =
     [\<lparr>cf_name = ''Email'', cf_value = uur_email r, cf_rules = [Omit_Empty, Email, Max 254]\<rparr>,
      \<lparr>cf_name = ''Password'', cf_value = uur_password r, cf_rules = [Omit_Empty, Min 8, Max 72]\<rparr>,
      \<lparr>cf_name = ''Name'', cf_value = uur_name r, cf_rules = [Omit_Empty, Min 1, Max 100]\<rparr>]"

text \<open>\<open>chi.URLParam(r, "id")\<close> and \<open>parseUserID\<close>: \<open>Inl\<close> is the writer after a
  400.\<close>

definition parse_user_id :: "uuid_lib \<Rightarrow> request \<Rightarrow> response_writer \<Rightarrow> response_writer + uuid" where
  "parse_user_id L r w =
     (case ul_parse L (first_value (rq_url_params r) ''id'') of
        Inl err \<Rightarrow> Inl (respond_error 400 ''invalid_id'' ''user id must be a valid UUID'' w)
      | Inr i \<Rightarrow> Inr i)"

definition parse_limit :: "request \<Rightarrow> int32" where
  "parse_limit r =
     (let v = query_get r ''limit'' in
      if v \<noteq> '''' then
        (case atoi v of
           Some n \<Rightarrow> if 0 < n \<and> n \<le> 100 then word_of_int n else 20
         | None \<Rightarrow> 20)
      else 20)"

definition parse_cursor :: "uuid_lib \<Rightarrow> request \<Rightarrow> page_cursor option" where
  "parse_cursor L r =
     (let created_at = query_get r ''cursor_created_at''; i = query_get r ''cursor_id'' in
      if created_at = '''' \<or> i = '''' then None
      else (case parse_time created_at of
              None \<Rightarrow> None
            | Some t \<Rightarrow>
                (case ul_parse L i of
                   Inl err \<Rightarrow> None
                 | Inr u \<Rightarrow> Some \<lparr>pc_created_at = t, pc_id = u\<rparr>)))"

subsection \<open>Responses\<close>

record user_response =
  ur_r_id :: uuid
  ur_r_email :: string
  ur_r_name :: string
  ur_r_created_at :: instant
  ur_r_updated_at :: instant

record cursor_response =
  cr_created_at :: instant
  cr_id :: uuid

record list_users_response =
  lur_users :: "user_response list"
  lur_next_cursor :: "cursor_response option"

definition to_user_response :: "user \<Rightarrow> user_response" where
  "to_user_response u =
     \<lparr>ur_r_id = u_id u, ur_r_email = u_email u, ur_r_name = u_name u,
      ur_r_created_at = u_created_at u, ur_r_updated_at = u_updated_at u\<rparr>"

definition marshal_user_response :: "uuid_lib \<Rightarrow> user_response \<Rightarrow> marshalled" where
  "marshal_user_response L u =
     as_object (marshal_object
       [(''id'', marshal_uuid L (ur_r_id u)), (''email'', Inr (J_Str (ur_r_email u))),
        (''name'', Inr (J_Str (ur_r_name u))), (''created_at'', marshal_time L (ur_r_created_at u)),
        (''updated_at'', marshal_time L (ur_r_updated_at u))])"

definition marshal_cursor_response :: "uuid_lib \<Rightarrow> cursor_response \<Rightarrow> marshalled" where
  "marshal_cursor_response L c =
     as_object (marshal_object
       [(''created_at'', marshal_time L (cr_created_at c)), (''id'', marshal_uuid L (cr_id c))])"

definition marshal_list_response :: "uuid_lib \<Rightarrow> list_users_response \<Rightarrow> marshalled" where
  "marshal_list_response L l =
     as_object (marshal_object
       ((''users'', as_array (marshal_array (map (marshal_user_response L) (lur_users l)))) #
        (case lur_next_cursor l of
           None \<Rightarrow> []
         | Some c \<Rightarrow> [(''next_cursor'', marshal_cursor_response L c)])))"

definition respond_service_error :: "response_writer \<Rightarrow> go_error \<Rightarrow> response_writer" where
  "respond_service_error w err =
     (if errors_is err Err_User_Not_Found
      then respond_error 404 ''user_not_found'' ''user not found'' w
      else if errors_is err Err_Email_Already_Exists
      then respond_error 409 ''email_already_exists'' ''a user with that email already exists'' w
      else respond_error 500 ''internal_error'' ''something went wrong'' w)"

subsection \<open>The endpoints\<close>

definition user_handler_create :: "uuid_lib \<Rightarrow> 's user_handler \<Rightarrow> 's handler" where
  "user_handler_create L h r w s =
     (case decode_and_validate (uh_validator h) store_create_request create_request_checks r w
             zero_create_request of
        Inl w1 \<Rightarrow> (w1, s)
      | Inr req \<Rightarrow>
          (case usi_create (uh_svc h)
                  \<lparr>cui_email = cur_email req, cui_password = cur_password req, cui_name = cur_name req\<rparr> s of
             (Inl err, s1) \<Rightarrow> (respond_service_error w err, s1)
           | (Inr u, s1) \<Rightarrow>
               (respond_json 201 (Some (marshal_user_response L (to_user_response u))) w, s1)))"

definition user_handler_get :: "uuid_lib \<Rightarrow> 's user_handler \<Rightarrow> 's handler" where
  "user_handler_get L h r w s =
     (case parse_user_id L r w of
        Inl w1 \<Rightarrow> (w1, s)
      | Inr i \<Rightarrow>
          (case usi_get (uh_svc h) i s of
             (Inl err, s1) \<Rightarrow> (respond_service_error w err, s1)
           | (Inr u, s1) \<Rightarrow>
               (respond_json 200 (Some (marshal_user_response L (to_user_response u))) w, s1)))"

definition list_response :: "list_result \<Rightarrow> list_users_response" where
  "list_response res =
     \<lparr>lur_users = map to_user_response (lr_users res),
      lur_next_cursor =
        (case lr_next_cursor res of
           None \<Rightarrow> None
         | Some k \<Rightarrow> Some \<lparr>cr_created_at = pc_created_at k, cr_id = pc_id k\<rparr>)\<rparr>"

definition user_handler_list :: "uuid_lib \<Rightarrow> 's user_handler \<Rightarrow> 's handler" where
  "user_handler_list L h r w s =
     (case usi_list (uh_svc h) (parse_limit r) (parse_cursor L r) s of
        (Inl err, s1) \<Rightarrow> (respond_service_error w err, s1)
      | (Inr res, s1) \<Rightarrow> (respond_json 200 (Some (marshal_list_response L (list_response res))) w, s1))"

definition user_handler_update :: "uuid_lib \<Rightarrow> 's user_handler \<Rightarrow> 's handler" where
  "user_handler_update L h r w s =
     (case parse_user_id L r w of
        Inl w1 \<Rightarrow> (w1, s)
      | Inr i \<Rightarrow>
          (case decode_and_validate (uh_validator h) store_update_request update_request_checks r w
                  zero_update_request of
             Inl w1 \<Rightarrow> (w1, s)
           | Inr req \<Rightarrow>
               (case usi_update (uh_svc h) i
                       \<lparr>uui_email = uur_email req, uui_password = uur_password req, uui_name = uur_name req\<rparr> s of
                  (Inl err, s1) \<Rightarrow> (respond_service_error w err, s1)
                | (Inr u, s1) \<Rightarrow>
                    (respond_json 200 (Some (marshal_user_response L (to_user_response u))) w, s1))))"

definition user_handler_delete :: "uuid_lib \<Rightarrow> 's user_handler \<Rightarrow> 's handler" where
  "user_handler_delete L h r w s =
     (case parse_user_id L r w of
        Inl w1 \<Rightarrow> (w1, s)
      | Inr i \<Rightarrow>
          (case usi_delete (uh_svc h) i s of
             (Some err, s1) \<Rightarrow> (respond_service_error w err, s1)
           | (None, s1) \<Rightarrow> (respond_no_content w, s1)))"

subsection \<open>The contract of the service\<close>

text \<open>
  What the endpoints rely on: lookups are exact, creating appends one user with the given
  address and name, reads change no user, and every operation keeps the integrity of the store.
\<close>

locale user_api =
  fixes S :: "'s user_service_iface"
    and usrs :: "'s \<Rightarrow> user list"
    and ok :: "'s \<Rightarrow> bool"
  assumes api_create: "usi_create S inp s = (Inr u, s') \<Longrightarrow>
      usrs s' = usrs s @ [u] \<and> u_email u = cui_email inp \<and> u_name u = cui_name inp"
    and api_get: "usi_get S i s = (Inr u, s') \<Longrightarrow> u \<in> set (usrs s) \<and> u_id u = i"
    and api_get_keeps: "usi_get S i s = (x, s') \<Longrightarrow> usrs s' = usrs s"
    and api_list_keeps: "usi_list S l c s = (y, s') \<Longrightarrow> usrs s' = usrs s"
    and api_delete: "usi_delete S i s = (None, s') \<Longrightarrow> usrs s' = filter (\<lambda>u. u_id u \<noteq> i) (usrs s)"
    and api_create_ok: "usi_create S inp s = (x, s') \<Longrightarrow> ok s \<Longrightarrow> ok s'"
    and api_get_ok: "usi_get S i s = (x, s') \<Longrightarrow> ok s \<Longrightarrow> ok s'"
    and api_list_ok: "usi_list S l c s = (y, s') \<Longrightarrow> ok s \<Longrightarrow> ok s'"
    and api_update_ok: "usi_update S i inp' s = (x, s') \<Longrightarrow> ok s \<Longrightarrow> ok s'"
    and api_delete_ok: "usi_delete S i s = (d, s') \<Longrightarrow> ok s \<Longrightarrow> ok s'"
begin

lemma create_endpoint:
  assumes "user_handler_create L h r w s = (w', s')" and "uh_svc h = S"
  obtains (invalid) code msg where "w' = respond_error 400 code msg w" "s' = s"
  | (created) req u where "decode_and_validate (uh_validator h) store_create_request create_request_checks r w
        zero_create_request = Inr req"
      "w' = respond_json 201 (Some (marshal_user_response L (to_user_response u))) w"
      "usrs s' = usrs s @ [u]" "u_email u = cur_email req" "u_name u = cur_name req"
  | (failed) req e where "decode_and_validate (uh_validator h) store_create_request create_request_checks r w
        zero_create_request = Inr req"
      "w' = respond_service_error w e"
      "usi_create S \<lparr>cui_email = cur_email req, cui_password = cur_password req, cui_name = cur_name req\<rparr> s
        = (Inl e, s')"
proof (cases "decode_and_validate (uh_validator h) store_create_request create_request_checks r w zero_create_request")
  case (Inl w1)
  with assms decode_and_validate_Inl [OF Inl] show thesis
    by (auto simp: user_handler_create_def intro: invalid)
next
  case (Inr req)
  let ?in = "\<lparr>cui_email = cur_email req, cui_password = cur_password req, cui_name = cur_name req\<rparr>"
  obtain x s1 where x: "usi_create S ?in s = (x, s1)" by fastforce
  show thesis
  proof (cases x)
    case (Inl e)
    with assms Inr x show thesis by (intro failed) (auto simp: user_handler_create_def)
  next
    case u: (Inr u)
    with assms Inr x api_create [OF x [unfolded u]] show thesis
      by (intro created) (auto simp: user_handler_create_def)
  qed
qed

lemma get_endpoint:
  assumes "user_handler_get L h r w s = (w', s')" and "uh_svc h = S"
  obtains (invalid) e where "ul_parse L (first_value (rq_url_params r) ''id'') = Inl e"
      "w' = respond_error 400 ''invalid_id'' ''user id must be a valid UUID'' w" "s' = s"
  | (found) i u where "ul_parse L (first_value (rq_url_params r) ''id'') = Inr i"
      "w' = respond_json 200 (Some (marshal_user_response L (to_user_response u))) w"
      "u \<in> set (usrs s)" "u_id u = i" "usrs s' = usrs s"
  | (failed) i e where "ul_parse L (first_value (rq_url_params r) ''id'') = Inr i"
      "w' = respond_service_error w e" "usi_get S i s = (Inl e, s')" "usrs s' = usrs s"
proof (cases "ul_parse L (first_value (rq_url_params r) ''id'')")
  case (Inl e)
  with assms show thesis by (intro invalid) (auto simp: user_handler_get_def parse_user_id_def)
next
  case (Inr i)
  obtain x s1 where x: "usi_get S i s = (x, s1)" by fastforce
  note keeps = api_get_keeps [OF x]
  show thesis
  proof (cases x)
    case (Inl e)
    with assms Inr x keeps show thesis
      by (intro failed [of i e]) (auto simp: user_handler_get_def parse_user_id_def)
  next
    case u: (Inr u)
    with assms Inr x keeps api_get [OF x [unfolded u]] show thesis
      by (intro found [of i u]) (auto simp: user_handler_get_def parse_user_id_def)
  qed
qed

text \<open>No request breaks the integrity of the store.\<close>

lemma endpoints_ok:
  assumes "ok s" "uh_svc h = S"
  shows "user_handler_create L h r w s = (w', s') \<Longrightarrow> ok s'"
    and "user_handler_get L h r w s = (w', s') \<Longrightarrow> ok s'"
    and "user_handler_list L h r w s = (w', s') \<Longrightarrow> ok s'"
    and "user_handler_update L h r w s = (w', s') \<Longrightarrow> ok s'"
    and "user_handler_delete L h r w s = (w', s') \<Longrightarrow> ok s'"
  using assms(1)
  by (auto simp: user_handler_create_def user_handler_get_def user_handler_list_def user_handler_update_def
      user_handler_delete_def assms(2) split: prod.splits sum.splits option.splits
      dest: api_create_ok api_get_ok api_list_ok api_update_ok api_delete_ok)

end

text \<open>The service the server builds keeps the contract.\<close>

lemma user_iface_sel [simp]:
  "usi_create (as_user_service_iface B sv) = user_service_create B sv"
  "usi_get (as_user_service_iface B sv) = user_service_get sv"
  "usi_list (as_user_service_iface B sv) = user_service_list sv"
  "usi_update (as_user_service_iface B sv) = user_service_update B sv"
  "usi_delete (as_user_service_iface B sv) = user_service_delete sv"
  by (simp_all add: as_user_service_iface_def)

interpretation users_served: user_api "as_user_service_iface B pool_user_service" world_users world_ok
  for B
proof (unfold_locales, goal_cases)
  case (1 inp w u w')
  then have "user_service_create B pool_user_service inp w = (Inr u, w')" by simp
  then show ?case by (cases rule: users.user_create_cases [OF _ pool_user_service_sel]) auto
next
  case (2 i w u w')
  then have "user_service_get pool_user_service i w = (Inr u, w')" by simp
  then show ?case by (cases rule: users.user_get_cases [OF _ pool_user_service_sel]) auto
next
  case (3 i w x w')
  then have "user_service_get pool_user_service i w = (x, w')" by simp
  then show ?case by (cases rule: users.user_get_cases [OF _ pool_user_service_sel]) auto
next
  case (4 l c w y w')
  then show ?case
    using users.us_list_step by (fastforce simp: user_service_list_def Let_def split: prod.splits sum.splits)
next
  case (5 i w w')
  then show ?case
    using users.us_delete_None by (fastforce simp: user_service_delete_def split: prod.splits option.splits)
next
  case (6 inp w x w')
  then show ?case using users.user_service_ok(1) [OF _ pool_user_service_sel] by simp
next
  case (7 i w x w')
  then show ?case using users.user_service_ok(2) [OF _ pool_user_service_sel] by simp
next
  case (8 l c w y w')
  then show ?case using users.user_service_ok(3) [OF _ pool_user_service_sel] by simp
next
  case (9 i inp w x w')
  then show ?case using users.user_service_ok(4) [OF _ pool_user_service_sel] by simp
next
  case (10 i w d w')
  then show ?case using users.user_service_ok(5) [OF _ pool_user_service_sel] by simp
qed

end
