(* ===== verification/Middleware.thy ===== *)
theory Middleware
  imports Httpx Access_Token
begin

section \<open>Middleware (internal/middleware)\<close>

text \<open>
  \<open>Auth\<close> with \<open>bearerToken\<close>, \<open>withUser\<close>, \<open>UserFromContext\<close> and
  \<open>respondAuthError\<close>; \<open>RateLimit\<close> with its table of limiters; \<open>Logger\<close>; and the
  wrappers \<open>RequestID\<close>, \<open>Recoverer\<close> and \<open>CORS\<close>. chi's own middleware, the CORS
  package and the token bucket of \<open>golang.org/x/time/rate\<close> are not part of the repository:
  they are the parameter records \<open>chi_lib\<close> and \<open>rate_lib\<close>. Lemmas: when \<open>Auth\<close> calls
  the next handler and with which context, and the interface \<open>Verifier\<close> as a locale.
\<close>

subsection \<open>Shared variables\<close>

text \<open>
  A middleware closes over variables that outlive the request: a table of limiters, the log. Such
  a variable is a place in the state; \<open>clock\<close> is \<open>time.Now\<close> on the state.
\<close>

record ('a, 's) var =
  v_get :: "'s \<Rightarrow> 'a"
  v_set :: "'a \<Rightarrow> 's \<Rightarrow> 's"

type_synonym 's clock = "'s \<Rightarrow> instant \<times> 's"

subsection \<open>Authentication\<close>

record 's token_verifier =
  tv_verify :: "string \<Rightarrow> 's \<Rightarrow> (go_error + claims) \<times> 's"

definition with_user :: "ctx \<Rightarrow> uuid \<Rightarrow> uuid \<Rightarrow> ctx" where
  "with_user c user_id chain_id = (User_Key, \<lparr>uv_user_id = user_id, uv_chain_id = chain_id\<rparr>) # c"

definition user_from_context :: "ctx \<Rightarrow> uuid \<times> uuid \<times> bool" where
  "user_from_context c =
     (case ctx_value c User_Key of
        None \<Rightarrow> (uuid_nil, uuid_nil, False)
      | Some v \<Rightarrow> (uv_user_id v, uv_chain_id v, True))"

definition has_prefix :: "string \<Rightarrow> string \<Rightarrow> bool" where
  "has_prefix s p \<longleftrightarrow> take (length p) s = p"

definition trim_prefix :: "string \<Rightarrow> string \<Rightarrow> string" where
  "trim_prefix s p = (if has_prefix s p then drop (length p) s else s)"

definition bearer_token :: "request \<Rightarrow> string option" where
  "bearer_token r =
     (let authz = header_get r ''Authorization'' in
      if authz = '''' then None
      else if \<not> has_prefix authz ''Bearer '' then None
      else (let token = trim_prefix authz ''Bearer '' in
            if token = '''' then None else Some token))"

definition respond_verify_error :: "response_writer \<Rightarrow> go_error \<Rightarrow> response_writer" where
  "respond_verify_error w err =
     (if errors_is err Err_Token_Expired
      then respond_error 401 ''token_expired'' ''token expired'' w
      else respond_error 401 ''token_invalid'' ''invalid token'' w)"

definition auth_middleware :: "'s token_verifier \<Rightarrow> 's handler \<Rightarrow> 's handler" where
  "auth_middleware v next_handler r w s =
     (case bearer_token r of
        None \<Rightarrow> (respond_error 401 ''missing_token'' ''authorization required'' w, s)
      | Some token_str \<Rightarrow>
          (case tv_verify v token_str s of
             (Inl err, s1) \<Rightarrow> (respond_verify_error w err, s1)
           | (Inr cl, s1) \<Rightarrow>
               next_handler (r\<lparr>rq_ctx := with_user (rq_ctx r) (c_user_id cl) (c_chain_id cl)\<rparr>) w s1))"

text \<open>\<open>*auth.Verifier\<close> as a \<open>Verifier\<close>.\<close>

definition as_token_verifier :: "jwt_lib \<Rightarrow> verifier \<Rightarrow> ('d env_scheme) token_verifier" where
  "as_token_verifier J v = \<lparr>tv_verify = verifier_verify J v\<rparr>"

lemma user_from_context_with_user [simp]: "user_from_context (with_user c u ch) = (u, ch, True)"
  by (simp add: user_from_context_def with_user_def ctx_value_def)

lemma user_from_context_Nil [simp]: "user_from_context [] = (uuid_nil, uuid_nil, False)"
  by (simp add: user_from_context_def ctx_value_def)

lemma bearer_token_some:
  "bearer_token r = Some t \<longleftrightarrow> header_get r ''Authorization'' = ''Bearer '' @ t \<and> t \<noteq> ''''"
proof
  assume "bearer_token r = Some t"
  then have "take (length ''Bearer '') (header_get r ''Authorization'') = ''Bearer ''"
    "t = drop (length ''Bearer '') (header_get r ''Authorization'')" "t \<noteq> ''''"
    by (auto simp: bearer_token_def Let_def has_prefix_def trim_prefix_def split: if_splits)
  then show "header_get r ''Authorization'' = ''Bearer '' @ t \<and> t \<noteq> ''''"
    by (metis append_take_drop_id)
qed (simp add: bearer_token_def Let_def has_prefix_def trim_prefix_def)

text \<open>
  What the middleware may rely on: verifying a token does to the state no more than \<open>keeps\<close>
  allows, and a failure is one of two errors.
\<close>

locale token_verifier_laws =
  fixes v :: "'s token_verifier"
    and keeps :: "'s \<Rightarrow> 's \<Rightarrow> bool"
  assumes keeps_refl: "keeps s s"
    and verify_keeps: "tv_verify v t s = (x, s') \<Longrightarrow> keeps s s'"
    and verify_errors: "tv_verify v t s = (Inl e, s') \<Longrightarrow> e = Err_Token_Expired \<or> e = Err_Token_Invalid"
begin

lemma auth_cases:
  assumes "auth_middleware v h r w s = (w', s')"
  obtains (rejected) code msg where "w' = respond_error 401 code msg w" "keeps s s'"
      "(code, msg) \<in> {(''missing_token'', ''authorization required''),
         (''token_expired'', ''token expired''), (''token_invalid'', ''invalid token'')}"
      "\<forall>t cl s1. bearer_token r = Some t \<longrightarrow> tv_verify v t s \<noteq> (Inr cl, s1)"
  | (accepted) t cl s1 where "bearer_token r = Some t" "tv_verify v t s = (Inr cl, s1)" "keeps s s1"
      "h (r\<lparr>rq_ctx := with_user (rq_ctx r) (c_user_id cl) (c_chain_id cl)\<rparr>) w s1 = (w', s')"
proof (cases "bearer_token r")
  case None
  with assms show thesis by (intro rejected) (auto simp: auth_middleware_def keeps_refl)
next
  case (Some t)
  obtain x s1 where x: "tv_verify v t s = (x, s1)" by fastforce
  show thesis
  proof (cases x)
    case (Inl e)
    have "errors_is e Err_Token_Expired \<longleftrightarrow> e = Err_Token_Expired"
      using verify_errors [OF x [unfolded Inl]] by auto
    with assms Some x Inl verify_keeps [OF x] show thesis
      by (cases "e = Err_Token_Expired")
        (auto simp: auth_middleware_def respond_verify_error_def intro: rejected)
  next
    case (Inr cl)
    with assms Some x verify_keeps [OF x] show thesis
      by (intro accepted) (auto simp: auth_middleware_def)
  qed
qed

end

interpretation verifier_laws: token_verifier_laws "as_token_verifier J v" "\<lambda>w w'. w' = w \<or> w' = next_tick w"
  for J v
  by unfold_locales
    (auto simp: as_token_verifier_def dest: verifier_verify_state verifier_verify_errors)

subsection \<open>Rate limiting\<close>

text \<open>
  One token bucket per remote address, made at the first request; they are never removed.
  \<open>rl_allow\<close> is \<open>Limiter.Allow\<close> at a time. The rate is a whole number of requests a second, as
  in both calls of \<open>RateLimit\<close> (its type in the code is \<open>float64\<close>).
\<close>

record 'l rate_lib =
  rl_new :: "nat \<Rightarrow> nat \<Rightarrow> 'l"
  rl_allow :: "instant \<Rightarrow> 'l \<Rightarrow> bool \<times> 'l"

record 'l rate_limiter =
  lm_limiters :: "string \<Rightarrow> 'l option"
  lm_rps :: nat
  lm_burst :: nat

definition new_rate_limiter :: "nat \<Rightarrow> nat \<Rightarrow> 'l rate_limiter" where
  "new_rate_limiter rps burst = \<lparr>lm_limiters = Map.empty, lm_rps = rps, lm_burst = burst\<rparr>"

definition rate_limiter_get :: "'l rate_lib \<Rightarrow> string \<Rightarrow> 'l rate_limiter \<Rightarrow> 'l \<times> 'l rate_limiter" where
  "rate_limiter_get K ip rl =
     (case lm_limiters rl ip of
        Some l \<Rightarrow> (l, rl)
      | None \<Rightarrow>
          (let l = rl_new K (lm_rps rl) (lm_burst rl)
           in (l, rl\<lparr>lm_limiters := (lm_limiters rl)(ip \<mapsto> l)\<rparr>)))"

definition client_key :: "request \<Rightarrow> string" where
  "client_key r = (if rq_remote_addr r = '''' then ''unknown'' else rq_remote_addr r)"

text \<open>\<open>rl.get(ip).Allow()\<close>: the bucket is shared, so what \<open>Allow\<close> does to it stays in the
  table.\<close>

definition rate_allow :: "'l rate_lib \<Rightarrow> instant \<Rightarrow> string \<Rightarrow> 'l rate_limiter \<Rightarrow> bool \<times> 'l rate_limiter" where
  "rate_allow K now ip rl =
     (case rate_limiter_get K ip rl of
        (l, rl1) \<Rightarrow>
          (case rl_allow K now l of
             (ok, l1) \<Rightarrow> (ok, rl1\<lparr>lm_limiters := (lm_limiters rl1)(ip \<mapsto> l1)\<rparr>)))"

definition rate_limit ::
    "'l rate_lib \<Rightarrow> 's clock \<Rightarrow> ('l rate_limiter, 's) var \<Rightarrow> 's handler \<Rightarrow> 's handler" where
  "rate_limit K clock rlv next_handler r w s =
     (case clock s of
        (now, s1) \<Rightarrow>
          (case rate_allow K now (client_key r) (v_get rlv s1) of
             (ok, rl) \<Rightarrow>
               (let s2 = v_set rlv rl s1
                in if \<not> ok then (respond_error 429 ''rate_limited'' ''too many requests'' w, s2)
                   else next_handler r w s2)))"

text \<open>
  The documented behaviour of a bucket of \<open>burst\<close> tokens refilled at \<open>rps\<close> tokens a second:
  of the requests in a sequence of times, as many are allowed in any stretch as the burst and
  the refill of that stretch admit, and a fresh bucket allows \<open>burst\<close> requests.
\<close>

fun allow_run :: "'l rate_lib \<Rightarrow> 'l \<Rightarrow> instant list \<Rightarrow> bool list" where
  "allow_run K l [] = []"
| "allow_run K l (t # ts) = (case rl_allow K t l of (ok, l') \<Rightarrow> ok # allow_run K l' ts)"

definition rate_documented :: "'l rate_lib \<Rightarrow> bool" where
  "rate_documented K \<longleftrightarrow> (\<forall>rps burst ts. ts \<noteq> [] \<longrightarrow> sorted ts \<longrightarrow>
     int (length (filter id (allow_run K (rl_new K rps burst) ts))) * second
       \<le> int burst * second + int rps * (last ts - hd ts)) \<and>
   (\<forall>rps burst ts. length ts \<le> burst \<longrightarrow> sorted ts \<longrightarrow>
     list_all id (allow_run K (rl_new K rps burst) ts))"

subsection \<open>Logging and the wrapped library middleware\<close>

record log_entry =
  le_method :: string
  le_path :: string
  le_status :: nat
  le_bytes :: nat
  le_duration_ms :: int
  le_request_id :: string

record cors_options =
  co_allowed_origins :: "string list"
  co_allowed_methods :: "string list"
  co_allowed_headers :: "string list"
  co_allow_credentials :: bool
  co_max_age :: int

record 's chi_lib =
  cl_recoverer :: "'s handler \<Rightarrow> 's handler"
  cl_request_id :: "'s handler \<Rightarrow> 's handler"
  cl_cors :: "cors_options \<Rightarrow> 's handler \<Rightarrow> 's handler"
  cl_status :: "response_writer \<Rightarrow> nat" \<comment> \<open>WrapResponseWriter.Status\<close>
  cl_bytes_written :: "response_writer \<Rightarrow> nat" \<comment> \<open>WrapResponseWriter.BytesWritten\<close>
  cl_get_req_id :: "request \<Rightarrow> string" \<comment> \<open>GetReqID(r.Context())\<close>

definition recoverer :: "'s chi_lib \<Rightarrow> 's handler \<Rightarrow> 's handler" where
  "recoverer C = cl_recoverer C"

definition request_id :: "'s chi_lib \<Rightarrow> 's handler \<Rightarrow> 's handler" where
  "request_id C = cl_request_id C"

definition log_line :: "'s chi_lib \<Rightarrow> request \<Rightarrow> response_writer \<Rightarrow> duration \<Rightarrow> log_entry" where
  "log_line C r ww d =
     \<lparr>le_method = rq_method r, le_path = rq_path r, le_status = cl_status C ww,
      le_bytes = cl_bytes_written C ww, le_duration_ms = sgn d * (\<bar>d\<bar> div 1000000),
      le_request_id = cl_get_req_id C r\<rparr>"

text \<open>\<open>Logger\<close>: the line is written after the next handler has returned.\<close>

definition logger ::
    "'s chi_lib \<Rightarrow> 's clock \<Rightarrow> (log_entry list, 's) var \<Rightarrow> 's handler \<Rightarrow> 's handler" where
  "logger C clock lgv next_handler r w s =
     (case clock s of
        (start, s1) \<Rightarrow>
          (case next_handler r w s1 of
             (ww, s2) \<Rightarrow>
               (case clock s2 of
                  (now, s3) \<Rightarrow> (ww, v_set lgv (v_get lgv s3 @ [log_line C r ww (now - start)]) s3))))"

end
