(* ===== verification/Auth_Handler.thy ===== *)
theory Auth_Handler
  imports Handler_Support Middleware Auth_Live
begin

section \<open>The authentication endpoints (internal/handlers/auth\_handler.go)\<close>

text \<open>
  \<open>Login\<close>, \<open>Refresh\<close>, \<open>Logout\<close> and \<open>LogoutAll\<close> over the interface
  \<open>authService\<close>, with the refresh-token cookie, the demand for a bearer header on
  \<open>/refresh\<close>, and the mapping of service errors to responses.
\<close>

subsection \<open>The service as the handlers see it\<close>

record 's auth_service_iface =
  asi_login :: "string \<Rightarrow> string \<Rightarrow> 's \<Rightarrow> (go_error + string \<times> string) \<times> 's"
  asi_refresh :: "string \<Rightarrow> 's \<Rightarrow> (go_error + string \<times> string) \<times> 's"
  asi_logout :: "string \<Rightarrow> 's \<Rightarrow> go_error option \<times> 's"
  asi_logout_all :: "uuid \<Rightarrow> 's \<Rightarrow> go_error option \<times> 's"

definition as_auth_service_iface ::
    "jwt_lib \<Rightarrow> bcrypt_lib \<Rightarrow> ('d env_scheme) auth_service \<Rightarrow> ('d env_scheme) auth_service_iface" where
  "as_auth_service_iface J B s =
     \<lparr>asi_login = auth_login J B s, asi_refresh = auth_refresh J s, asi_logout = auth_logout s,
      asi_logout_all = auth_logout_all s\<rparr>"

record 's auth_handler =
  ah_svc :: "'s auth_service_iface"
  ah_verifier :: verifier
  ah_validator :: validator_lib
  ah_access_ttl :: duration
  ah_refresh_ttl :: duration
  ah_is_prod :: bool

definition new_auth_handler ::
    "validator_lib \<Rightarrow> 's auth_service_iface \<Rightarrow> verifier \<Rightarrow> duration \<Rightarrow> duration \<Rightarrow> bool \<Rightarrow> 's auth_handler" where
  "new_auth_handler V svc v access_ttl refresh_ttl is_prod =
     \<lparr>ah_svc = svc, ah_verifier = v, ah_validator = V, ah_access_ttl = access_ttl,
      ah_refresh_ttl = refresh_ttl, ah_is_prod = is_prod\<rparr>"

subsection \<open>Requests and responses\<close>

record login_request =
  lg_email :: string
  lg_password :: string

definition zero_login_request :: login_request where
  "zero_login_request = \<lparr>lg_email = '''', lg_password = ''''\<rparr>"

definition store_login_request :: "login_request store" where
  "store_login_request =
     store_struct [(''email'', store_string (\<lambda>s r. r\<lparr>lg_email := s\<rparr>)),
                   (''password'', store_string (\<lambda>s r. r\<lparr>lg_password := s\<rparr>))]"

definition login_request_checks :: "login_request \<Rightarrow> checked_field list" where
  "login_request_checks r =
     [\<lparr>cf_name = ''Email'', cf_value = Some (lg_email r), cf_rules = [Required, Email, Max 254]\<rparr>,
      \<lparr>cf_name = ''Password'', cf_value = Some (lg_password r), cf_rules = [Required, Min 8, Max 72]\<rparr>]"

record token_response =
  tk_access_token :: string
  tk_token_type :: string
  tk_expires_in :: int

definition token_response_json :: "token_response \<Rightarrow> json" where
  "token_response_json t =
     J_Obj [(''access_token'', J_Str (tk_access_token t)), (''token_type'', J_Str (tk_token_type t)),
            (''expires_in'', J_Num (itoa (tk_expires_in t)))]"

definition refresh_token_cookie :: string where
  "refresh_token_cookie = ''refresh_token''"

definition refresh_cookie :: "'s auth_handler \<Rightarrow> string \<Rightarrow> int \<Rightarrow> cookie" where
  "refresh_cookie h v age =
     \<lparr>ck_name = refresh_token_cookie, ck_value = v, ck_path = ''/api/v1/auth'', ck_http_only = True,
      ck_secure = ah_is_prod h, ck_same_site_lax = True, ck_max_age = age\<rparr>"

definition set_refresh_cookie :: "'s auth_handler \<Rightarrow> string \<Rightarrow> response_writer \<Rightarrow> response_writer" where
  "set_refresh_cookie h token w = set_cookie (refresh_cookie h token (int_seconds (ah_refresh_ttl h))) w"

definition clear_refresh_cookie :: "'s auth_handler \<Rightarrow> response_writer \<Rightarrow> response_writer" where
  "clear_refresh_cookie h w = set_cookie (refresh_cookie h '''' (-1)) w"

definition read_refresh_cookie :: "request \<Rightarrow> string option" where
  "read_refresh_cookie r =
     (case request_cookie r refresh_token_cookie of
        None \<Rightarrow> None
      | Some v \<Rightarrow> if v = '''' then None else Some v)"

text \<open>The package has its own copy of \<open>bearerToken\<close>.\<close>

definition handler_bearer_token :: "request \<Rightarrow> string option" where
  "handler_bearer_token r =
     (let authz = header_get r ''Authorization'' in
      if authz = '''' then None
      else if \<not> has_prefix authz ''Bearer '' then None
      else (let token = trim_prefix authz ''Bearer '' in
            if token = '''' then None else Some token))"

lemma handler_bearer_token [simp]: "handler_bearer_token r = bearer_token r"
  by (simp add: handler_bearer_token_def bearer_token_def)

definition respond_auth_error :: "response_writer \<Rightarrow> go_error \<Rightarrow> response_writer" where
  "respond_auth_error w err =
     (if errors_is err Err_Invalid_Credentials
      then respond_error 401 ''invalid_credentials'' ''invalid email or password'' w
      else if errors_is err Err_Refresh_Token_Revoked
      then respond_error 401 ''session_expired'' ''session expired'' w
      else if errors_is err Err_Refresh_Token_Reuse
      then respond_error 401 ''session_revoked'' ''session expired'' w
      else if errors_is err Err_Refresh_Token_Expired
      then respond_error 401 ''refresh_expired'' ''session expired'' w
      else if errors_is err Err_User_Not_Found
      then respond_error 401 ''invalid_credentials'' ''invalid email or password'' w
      else respond_error 500 ''internal_error'' ''something went wrong'' w)"

definition respond_tokens :: "'s auth_handler \<Rightarrow> string \<Rightarrow> string \<Rightarrow> response_writer \<Rightarrow> response_writer" where
  "respond_tokens h access refresh w =
     respond_json 200
       (Some (Inr (token_response_json
          \<lparr>tk_access_token = access, tk_token_type = ''Bearer'', tk_expires_in = int_seconds (ah_access_ttl h)\<rparr>)))
       (set_refresh_cookie h refresh w)"

subsection \<open>The endpoints\<close>

definition auth_handler_login :: "'s auth_handler \<Rightarrow> 's handler" where
  "auth_handler_login h r w s =
     (case decode_and_validate (ah_validator h) store_login_request login_request_checks r w
             zero_login_request of
        Inl w1 \<Rightarrow> (w1, s)
      | Inr req \<Rightarrow>
          (case asi_login (ah_svc h) (lg_email req) (lg_password req) s of
             (Inl err, s1) \<Rightarrow> (respond_auth_error w err, s1)
           | (Inr (access, refresh), s1) \<Rightarrow> (respond_tokens h access refresh w, s1)))"

definition auth_handler_refresh :: "'s auth_handler \<Rightarrow> 's handler" where
  "auth_handler_refresh h r w s =
     (case read_refresh_cookie r of
        None \<Rightarrow> (respond_error 401 ''missing_refresh'' ''session expired'' w, s)
      | Some refresh \<Rightarrow>
          (case handler_bearer_token r of
             None \<Rightarrow> (respond_error 401 ''missing_token'' ''authorization required'' w, s)
           | Some _ \<Rightarrow>
               (case asi_refresh (ah_svc h) refresh s of
                  (Inl err, s1) \<Rightarrow> (respond_auth_error w err, s1)
                | (Inr (access, new_refresh), s1) \<Rightarrow> (respond_tokens h access new_refresh w, s1))))"

text \<open>The error of the service is dropped.\<close>

definition auth_handler_logout :: "'s auth_handler \<Rightarrow> 's handler" where
  "auth_handler_logout h r w s =
     (let s1 = (case read_refresh_cookie r of
                  Some refresh \<Rightarrow> snd (asi_logout (ah_svc h) refresh s)
                | None \<Rightarrow> s)
      in (respond_no_content (clear_refresh_cookie h w), s1))"

definition auth_handler_logout_all :: "'s auth_handler \<Rightarrow> 's handler" where
  "auth_handler_logout_all h r w s =
     (case user_from_context (rq_ctx r) of
        (user_id, _, ok) \<Rightarrow>
          if \<not> ok then (respond_error 401 ''missing_token'' ''authorization required'' w, s)
          else (case asi_logout_all (ah_svc h) user_id s of
                  (Some err, s1) \<Rightarrow> (respond_auth_error w err, s1)
                | (None, s1) \<Rightarrow> (respond_no_content (clear_refresh_cookie h w), s1)))"

subsection \<open>Cookies\<close>

lemma refresh_cookie_token [simp]: "is_token (ck_name (refresh_cookie h v n))"
  by (simp add: refresh_cookie_def refresh_token_cookie_def is_token_def token_char_def)

lemma set_refresh_cookie_frame [simp]:
  "rw_status (set_refresh_cookie h v w) = rw_status w" "rw_body (set_refresh_cookie h v w) = rw_body w"
  "rw_status (clear_refresh_cookie h w) = rw_status w" "rw_body (clear_refresh_cookie h w) = rw_body w"
  by (simp_all add: set_refresh_cookie_def clear_refresh_cookie_def)

text \<open>What the browser is told to keep, and to forget.\<close>

lemma set_refresh_cookie_header:
  assumes "plain_cookie_value v"
  shows "rw_header (set_refresh_cookie h v w) = rw_header w @
    [(''Set-Cookie'', ''refresh_token='' @ v @ ''; Path=/api/v1/auth'' @
       (let n = int_seconds (ah_refresh_ttl h) in
        if 0 < n then ''; Max-Age='' @ itoa n else if n < 0 then ''; Max-Age=0'' else '''') @
       ''; HttpOnly'' @ (if ah_is_prod h then ''; Secure'' else '''') @ ''; SameSite=Lax'')]"
proof -
  have path: "filter cookie_path_char ''/api/v1/auth'' = ''/api/v1/auth''"
    by (simp add: cookie_path_char_def)
  show ?thesis
    using assms path
    by (simp add: set_refresh_cookie_def set_cookie_header cookie_text_def sanitize_plain)
      (simp add: refresh_cookie_def refresh_token_cookie_def is_token_def token_char_def Let_def sanitize_plain)
qed

text \<open>The tokens the service mints are base64url text, so they survive the way through the
  client.\<close>

lemma plain_cookie_b64:
  "list_all (\<lambda>c. token_char c) v \<Longrightarrow> plain_cookie_value v"
  by (auto simp: plain_cookie_value_def list_all_iff token_char_def cookie_value_char_def Let_def)

subsection \<open>The contract of the service\<close>

locale auth_api =
  fixes A :: "'s auth_service_iface"
    and ok :: "'s \<Rightarrow> bool"
  assumes api_login_ok: "asi_login A e p s = (x, s') \<Longrightarrow> ok s \<Longrightarrow> ok s'"
    and api_refresh_ok: "asi_refresh A p s = (x, s') \<Longrightarrow> ok s \<Longrightarrow> ok s'"
    and api_logout_ok: "asi_logout A p s = (y, s') \<Longrightarrow> ok s \<Longrightarrow> ok s'"
    and api_logout_all_ok: "asi_logout_all A u s = (y, s') \<Longrightarrow> ok s \<Longrightarrow> ok s'"
begin

lemma api_logout_snd: "ok s \<Longrightarrow> ok (snd (asi_logout A p s))"
  by (rule api_logout_ok [OF prod.collapse [symmetric]])

lemma auth_endpoints_ok:
  assumes "ok s" "ah_svc h = A"
  shows "auth_handler_login h r w s = (w', s') \<Longrightarrow> ok s'"
    and "auth_handler_refresh h r w s = (w', s') \<Longrightarrow> ok s'"
    and "auth_handler_logout h r w s = (w', s') \<Longrightarrow> ok s'"
    and "auth_handler_logout_all h r w s = (w', s') \<Longrightarrow> ok s'"
  using assms(1)
  by (auto simp: auth_handler_login_def auth_handler_refresh_def auth_handler_logout_def
      auth_handler_logout_all_def assms(2) Let_def split: prod.splits sum.splits option.splits if_splits
      dest: api_login_ok api_refresh_ok api_logout_all_ok intro: api_logout_snd)

end

context auth_stores
begin

lemma issue_ok:
  assumes "issue_refresh_and_access J s u c w = (x, w')" "as_refresh_tokens s = R" "ok w"
  shows "ok w'"
  using assms(1,3)
  by (auto simp: issue_refresh_and_access_def time_now_def ok_next_tick assms(2) split: prod.splits sum.splits
      dest!: generate_refresh_token_state signer_sign_state dest: create_step)

lemma auth_service_ok:
  assumes "ok w" "as_refresh_tokens s = R" "as_users s = U"
  shows "auth_login J B s e p w = (x, w') \<Longrightarrow> ok w'"
    and "auth_refresh J s p w = (x, w') \<Longrightarrow> ok w'"
    and "auth_logout s p w = (y, w') \<Longrightarrow> ok w'"
    and "auth_logout_all s u w = (y, w') \<Longrightarrow> ok w'"
proof -
  show "ok w'" if "auth_login J B s e p w = (x, w')"
    using that assms(2,3)
    by (cases rule: login_cases) (use assms issue_ok in auto)
  show "ok w'" if "auth_refresh J s p w = (x, w')"
    using that assms(2)
    by (cases rule: refresh_cases) (use assms issue_ok in auto)
  show "ok w'" if "auth_logout s p w = (y, w')"
    using that assms(1)
    by (auto simp: auth_logout_def assms(2) split: prod.splits sum.splits option.splits if_splits
        dest: get_step revoke_step)
  show "ok w'" if "auth_logout_all s u w = (y, w')"
    using that assms(2)
    by (cases rule: logout_all_cases) (use assms in auto)
qed

end

lemma auth_iface_sel [simp]:
  "asi_login (as_auth_service_iface J B sv) = auth_login J B sv"
  "asi_refresh (as_auth_service_iface J B sv) = auth_refresh J sv"
  "asi_logout (as_auth_service_iface J B sv) = auth_logout sv"
  "asi_logout_all (as_auth_service_iface J B sv) = auth_logout_all sv"
  by (simp_all add: as_auth_service_iface_def)

interpretation auth_served: auth_api "as_auth_service_iface J B (pool_auth_service sg ttl)" world_ok
  for J B sg ttl
proof (unfold_locales, goal_cases)
  case (1 e p w x w')
  then show ?case using auth.auth_service_ok(1) [OF _ pool_auth_service_sel(2,1)] by simp
next
  case (2 p w x w')
  then show ?case using auth.auth_service_ok(2) [OF _ pool_auth_service_sel(2,1)] by simp
next
  case (3 p w y w')
  then show ?case using auth.auth_service_ok(3) [OF _ pool_auth_service_sel(2,1)] by simp
next
  case (4 u w y w')
  then show ?case using auth.auth_service_ok(4) [OF _ pool_auth_service_sel(2,1)] by simp
qed

end
