(* ===== verification/Config.thy ===== *)
theory Config
  imports Strconv
begin

section \<open>Configuration (internal/config/config.go)\<close>

text \<open>
  \<open>Load\<close> with the \<open>getenv*\<close> readers, \<open>Validate\<close> and \<open>DSN\<close>. The process
  environment is a map; \<open>godotenv.Load\<close>, which is not part of the repository, is a parameter
  that maps it to the environment after the \<open>.env\<close> file was read (its error is ignored).
  Lemmas: when \<open>Load\<close> succeeds, what the result guarantees, and what a malformed value does.
\<close>

type_synonym environment = "string \<Rightarrow> string option"

datatype app_env = App_Env string

abbreviation env_local :: app_env where "env_local \<equiv> App_Env ''local''"
abbreviation env_dev :: app_env where "env_dev \<equiv> App_Env ''development''"
abbreviation env_prod :: app_env where "env_prod \<equiv> App_Env ''production''"
abbreviation env_staging :: app_env where "env_staging \<equiv> App_Env ''staging''"
abbreviation env_test :: app_env where "env_test \<equiv> App_Env ''test''"

record db_config =
  dbc_host :: string
  dbc_port :: int
  dbc_name :: string
  dbc_user :: string
  dbc_password :: string
  dbc_schema :: string
  dbc_ssl_mode :: string
  dbc_max_conns :: int
  dbc_max_idle :: int

record jwt_config =
  jwc_secret :: string
  jwc_access_ttl :: duration
  jwc_refresh_ttl :: duration
  jwc_issuer :: string

record cors_config =
  cc_allowed_origins :: "string list"
  cc_allowed_methods :: "string list"
  cc_allowed_headers :: "string list"
  cc_allow_credentials :: bool
  cc_max_age :: int

record config =
  cfg_app_env :: app_env
  cfg_port :: int
  cfg_is_prod :: bool
  cfg_is_dev :: bool
  cfg_db :: db_config
  cfg_jwt :: jwt_config
  cfg_cors :: cors_config

subsection \<open>Reading the environment\<close>

definition os_getenv :: "environment \<Rightarrow> string \<Rightarrow> string" where
  "os_getenv e key = (case e key of None \<Rightarrow> '''' | Some v \<Rightarrow> v)"

definition getenv :: "environment \<Rightarrow> string \<Rightarrow> string \<Rightarrow> string" where
  "getenv e key fallback = (if os_getenv e key \<noteq> '''' then os_getenv e key else fallback)"

text \<open>The typed readers fall back when the value is empty and when it cannot be parsed.\<close>

definition getenv_as :: "(string \<Rightarrow> 'a option) \<Rightarrow> environment \<Rightarrow> string \<Rightarrow> 'a \<Rightarrow> 'a" where
  "getenv_as parse e key fallback =
     (let v = os_getenv e key in
      if v \<noteq> '''' then (case parse v of Some x \<Rightarrow> x | None \<Rightarrow> fallback) else fallback)"

definition getenv_int :: "environment \<Rightarrow> string \<Rightarrow> int \<Rightarrow> int" where
  "getenv_int = getenv_as atoi"

definition getenv_bool :: "environment \<Rightarrow> string \<Rightarrow> bool \<Rightarrow> bool" where
  "getenv_bool = getenv_as parse_bool"

definition getenv_duration :: "environment \<Rightarrow> string \<Rightarrow> duration \<Rightarrow> duration" where
  "getenv_duration = getenv_as parse_duration"

definition getenv_slice :: "environment \<Rightarrow> string \<Rightarrow> string list \<Rightarrow> string list" where
  "getenv_slice e key fallback =
     (let v = os_getenv e key in
      if v \<noteq> '''' then map trim_space (split_on (CHR '','') v) else fallback)"

subsection \<open>Load and Validate\<close>

definition missing_db :: "environment \<Rightarrow> config \<Rightarrow> string list" where
  "missing_db e c =
     (if os_getenv e ''DB_HOST'' = '''' \<and> dbc_host (cfg_db c) = '''' then [''DB_HOST''] else []) @
     (if os_getenv e ''DB_NAME'' = '''' \<and> dbc_name (cfg_db c) = '''' then [''DB_NAME''] else []) @
     (if os_getenv e ''DB_USER'' = '''' \<and> dbc_user (cfg_db c) = '''' then [''DB_USER''] else [])"

definition missing_secret :: "config \<Rightarrow> string list" where
  "missing_secret c =
     (if jwc_secret (cfg_jwt c) = '''' then [''JWT_SECRET (required in production)'']
      else if length (jwc_secret (cfg_jwt c)) < 16
      then [''JWT_SECRET (must be at least 16 characters in production)''] else [])"

definition validate_config :: "environment \<Rightarrow> config \<Rightarrow> go_error option" where
  "validate_config e c =
     (let missing = missing_db e c @ (if cfg_is_prod c then missing_secret c else [])
      in if cfg_is_prod c \<and> length (cc_allowed_origins (cfg_cors c)) = 1
            \<and> hd (cc_allowed_origins (cfg_cors c)) = ''*''
         then Some (New_Error ''CORS_ALLOWED_ORIGINS must not be wildcard in production'')
         else if missing \<noteq> []
         then Some (New_Error (''missing required environment variables: '' @ join_with '', '' missing))
         else None)"

definition build_config :: "environment \<Rightarrow> config" where
  "build_config e =
     (let app_env = App_Env (getenv e ''APP_ENV'' ''local'') in
      \<lparr>cfg_app_env = app_env, cfg_port = getenv_int e ''PORT'' 8080,
       cfg_is_prod = (app_env = env_prod),
       cfg_is_dev = (app_env = env_local \<or> app_env = env_dev \<or> app_env = env_test),
       cfg_db =
         \<lparr>dbc_host = getenv e ''DB_HOST'' ''localhost'', dbc_port = getenv_int e ''DB_PORT'' 5432,
          dbc_name = getenv e ''DB_NAME'' ''gostartv2'', dbc_user = getenv e ''DB_USER'' ''postgres'',
          dbc_password = getenv e ''DB_PASSWORD'' '''', dbc_schema = getenv e ''DB_SCHEMA'' ''public'',
          dbc_ssl_mode = getenv e ''DB_SSLMODE'' ''disable'',
          dbc_max_conns = getenv_int e ''DB_MAX_CONNS'' 25, dbc_max_idle = getenv_int e ''DB_MAX_IDLE'' 5\<rparr>,
       cfg_jwt =
         \<lparr>jwc_secret = getenv e ''JWT_SECRET'' '''',
          jwc_access_ttl = getenv_duration e ''JWT_ACCESS_TTL'' (15 * minute),
          jwc_refresh_ttl = getenv_duration e ''JWT_REFRESH_TTL'' (168 * hour),
          jwc_issuer = getenv e ''JWT_ISSUER'' ''gostartv2''\<rparr>,
       cfg_cors =
         \<lparr>cc_allowed_origins = getenv_slice e ''CORS_ALLOWED_ORIGINS'' [''*''],
          cc_allowed_methods = [''GET'', ''POST'', ''PUT'', ''DELETE'', ''OPTIONS'', ''PATCH''],
          cc_allowed_headers = [''Accept'', ''Authorization'', ''Content-Type'', ''X-Request-ID''],
          cc_allow_credentials = getenv_bool e ''CORS_ALLOW_CREDENTIALS'' False,
          cc_max_age = 300\<rparr>\<rparr>)"

definition load_config :: "(environment \<Rightarrow> environment) \<Rightarrow> environment \<Rightarrow> go_error + config" where
  "load_config dotenv e =
     (let e1 = dotenv e; cfg = build_config e1
      in case validate_config e1 cfg of Some err \<Rightarrow> Inl err | None \<Rightarrow> Inr cfg)"

definition dsn :: "db_config \<Rightarrow> string" where
  "dsn c =
     ''postgres://'' @ dbc_user c @ '':'' @ dbc_password c @ ''@'' @ dbc_host c @ '':'' @ itoa (dbc_port c)
       @ ''/'' @ dbc_name c @ ''?sslmode='' @ dbc_ssl_mode c @ ''&search_path='' @ dbc_schema c"

subsection \<open>Laws\<close>

text \<open>The \<open>DB_*\<close> checks of \<open>Validate\<close> never report anything for a configuration \<open>Load\<close>
  builds: its defaults are not empty.\<close>

lemma getenv_default: "fallback \<noteq> '''' \<Longrightarrow> getenv e key fallback \<noteq> ''''"
  by (simp add: getenv_def)

lemma missing_db_built [simp]: "missing_db e (build_config e) = []"
  by (simp add: missing_db_def build_config_def Let_def getenv_default)

lemma is_prod_built: "cfg_is_prod (build_config e) \<longleftrightarrow> e ''APP_ENV'' = Some ''production''"
  by (auto simp: build_config_def Let_def getenv_def os_getenv_def split: option.splits)

lemma secret_built [simp]: "jwc_secret (cfg_jwt (build_config e)) = os_getenv e ''JWT_SECRET''"
  by (simp add: build_config_def Let_def getenv_def)

lemma origins_built:
  "cc_allowed_origins (cfg_cors (build_config e)) = [''*''] \<longleftrightarrow>
     os_getenv e ''CORS_ALLOWED_ORIGINS'' = '''' \<or>
     map trim_space (split_on (CHR '','') (os_getenv e ''CORS_ALLOWED_ORIGINS'')) = [''*'']"
  by (simp add: build_config_def Let_def getenv_slice_def)

lemma length_one_hd: "length xs = 1 \<and> hd xs = x \<longleftrightarrow> xs = [x]"
  by (cases xs) auto

lemma join_with_not_Nil: "ps \<noteq> [] \<Longrightarrow> \<forall>p\<in>set ps. p \<noteq> '''' \<Longrightarrow> join_with sep ps \<noteq> ''''"
  by (cases ps rule: list.exhaust; cases "tl ps") auto

lemma validate_built:
  "validate_config e (build_config e) =
     (if e ''APP_ENV'' \<noteq> Some ''production'' then None
      else if cc_allowed_origins (cfg_cors (build_config e)) = [''*'']
      then Some (New_Error ''CORS_ALLOWED_ORIGINS must not be wildcard in production'')
      else if os_getenv e ''JWT_SECRET'' = ''''
      then Some (New_Error ''missing required environment variables: JWT_SECRET (required in production)'')
      else if length (os_getenv e ''JWT_SECRET'') < 16
      then Some (New_Error ''missing required environment variables: JWT_SECRET (must be at least 16 characters in production)'')
      else None)"
  unfolding validate_config_def is_prod_built length_one_hd missing_db_built
  by (auto simp: Let_def missing_secret_def)

text \<open>Durations that are read are 64-bit values.\<close>

lemma getenv_duration_range:
  assumes "int64_min \<le> d" "d \<le> int64_max"
  shows "int64_min \<le> getenv_duration e k d \<and> getenv_duration e k d \<le> int64_max"
  using assms parse_duration_range
  by (auto simp: getenv_duration_def getenv_as_def Let_def split: option.split)

end
