(* ===== verification/Database.thy ===== *)
theory Database
  imports Sql_Store Config
begin

section \<open>Connection pool, health and logging (internal/database, internal/logging)\<close>

text \<open>
  \<open>database.New\<close> with the pool settings of \<open>database/sql\<close>, \<open>Ping\<close>, \<open>Health\<close>,
  \<open>Close\<close> and \<open>DB\<close>; the choice of the log handler and the logger in a context. Whether
  the driver can be opened is a parameter; a ping is one round trip to the server, which the
  connection faults of the world can disturb.
\<close>

subsection \<open>Logging\<close>

datatype log_handler = Json_Handler | Text_Handler

record slogger =
  sl_handler :: log_handler
  sl_writer :: string
  sl_add_source :: bool

definition logging_new_handler :: "string \<Rightarrow> config \<Rightarrow> slogger" where
  "logging_new_handler writer cfg =
     \<lparr>sl_handler = (if cfg_is_prod cfg then Json_Handler else Text_Handler), sl_writer = writer,
      sl_add_source = cfg_is_dev cfg\<rparr>"

text \<open>The logger \<open>New\<close> returns, and the default logger from then on: the same.\<close>

definition logging_new :: "config \<Rightarrow> slogger \<times> slogger" where
  "logging_new cfg =
     (let l = \<lparr>sl_handler = (if cfg_is_prod cfg then Json_Handler else Text_Handler), sl_writer = ''stdout'',
               sl_add_source = cfg_is_dev cfg\<rparr>
      in (l, l))"

text \<open>The loggers a context carries, the innermost first.\<close>

definition with_logger :: "slogger list \<Rightarrow> slogger \<Rightarrow> slogger list" where
  "with_logger c l = l # c"

definition from_context :: "slogger \<Rightarrow> slogger list \<Rightarrow> slogger" where
  "from_context default_logger c = (case c of [] \<Rightarrow> default_logger | l # _ \<Rightarrow> l)"

subsection \<open>The pool\<close>

text \<open>\<open>sql.DB\<close>: a maximum of 0 open connections is no limit; of idle connections 0 is the
  default of two and -1 none. The setters keep the second below the first.\<close>

record sql_db =
  sd_dsn :: string
  sd_max_open :: int
  sd_max_idle :: int
  sd_max_lifetime :: duration
  sd_max_idle_time :: duration

definition sql_open :: "(string \<Rightarrow> string \<Rightarrow> go_error option) \<Rightarrow> string \<Rightarrow> string \<Rightarrow> go_error + sql_db" where
  "sql_open driver name source =
     (case driver name source of
        Some err \<Rightarrow> Inl err
      | None \<Rightarrow> Inr \<lparr>sd_dsn = source, sd_max_open = 0, sd_max_idle = 0, sd_max_lifetime = 0, sd_max_idle_time = 0\<rparr>)"

definition idle_limit :: "sql_db \<Rightarrow> int" where
  "idle_limit d = (if sd_max_idle d = 0 then 2 else if sd_max_idle d < 0 then 0 else sd_max_idle d)"

definition set_max_idle_conns :: "int \<Rightarrow> sql_db \<Rightarrow> sql_db" where
  "set_max_idle_conns n d =
     (let d1 = d\<lparr>sd_max_idle := (if 0 < n then n else -1)\<rparr>
      in if 0 < sd_max_open d1 \<and> sd_max_open d1 < idle_limit d1
         then d1\<lparr>sd_max_idle := sd_max_open d1\<rparr> else d1)"

definition set_max_open_conns :: "int \<Rightarrow> sql_db \<Rightarrow> sql_db" where
  "set_max_open_conns n d =
     (let d1 = d\<lparr>sd_max_open := (if n < 0 then 0 else n)\<rparr>
      in if 0 < sd_max_open d1 \<and> sd_max_open d1 < idle_limit d1 then set_max_idle_conns n d1 else d1)"

record db_service =
  ds_db :: sql_db
  ds_logger :: slogger

definition database_new ::
    "(string \<Rightarrow> string \<Rightarrow> go_error option) \<Rightarrow> db_config \<Rightarrow> slogger \<Rightarrow> go_error + db_service" where
  "database_new driver c logger =
     (case sql_open driver ''pgx'' (dsn c) of
        Inl err \<Rightarrow> Inl (Wrapf ''database open'' err)
      | Inr d \<Rightarrow>
          (let d1 = set_max_open_conns (dbc_max_conns c) d;
               d2 = set_max_idle_conns (dbc_max_idle c) d1
           in Inr \<lparr>ds_db = d2\<lparr>sd_max_lifetime := hour, sd_max_idle_time := 5 * minute\<rparr>, ds_logger = logger\<rparr>))"

lemma idle_below_open:
  assumes "0 < sd_max_open d"
  shows "idle_limit (set_max_idle_conns n d) \<le> sd_max_open d"
    and "sd_max_open (set_max_idle_conns n d) = sd_max_open d"
  using assms by (auto simp: set_max_idle_conns_def idle_limit_def Let_def)

subsection \<open>Health\<close>

definition db_ping :: "world \<Rightarrow> go_error option \<times> world" where
  "db_ping w =
     (case fault_at w (tick w) of
        None \<Rightarrow> (None, next_tick w)
      | Some f \<Rightarrow> (Some (Foreign_Error (case f of Lost_Before m \<Rightarrow> m | Lost_After m \<Rightarrow> m)), next_tick w))"

definition db_health :: "world \<Rightarrow> (string \<Rightarrow> string option) \<times> world" where
  "db_health w =
     (case db_ping w of
        (Some err, w1) \<Rightarrow> ([''status'' \<mapsto> ''down'', ''error'' \<mapsto> ''db down: '' @ error_string err], w1)
      | (None, w1) \<Rightarrow>
          ([''status'' \<mapsto> ''up'', ''message'' \<mapsto> ''It'' @ [CHR 0x27] @ ''s healthy''], w1))"

lemma db_health_db [simp]: "db (snd (db_health w)) = db w"
  by (auto simp: db_health_def db_ping_def next_tick_def split: option.split)

subsection \<open>Close and DB\<close>

text \<open>\<open>sql.DB.Close\<close> answers \<open>err\<close>; the lines logged on the way.\<close>

type_synonym log_text = "string \<times> go_error option"

definition db_close :: "go_error option \<Rightarrow> db_service \<Rightarrow> log_text list \<times> go_error option" where
  "db_close err s = ([(''disconnecting from database'', None)], err)"

definition db_db :: "db_service \<Rightarrow> sql_db" where
  "db_db s = ds_db s"

text \<open>What \<open>New\<close> returns is a pool for the address of the configuration that keeps no more
  idle connections than it may open.\<close>

lemma database_new_pool:
  assumes "database_new driver c l = Inr s"
  shows "sd_dsn (db_db s) = dsn c \<and> sd_max_open (db_db s) = max 0 (dbc_max_conns c)
    \<and> (0 < dbc_max_conns c \<longrightarrow> idle_limit (db_db s) \<le> dbc_max_conns c)"
  using assms
  by (auto simp: database_new_def db_db_def sql_open_def set_max_open_conns_def set_max_idle_conns_def
      idle_limit_def Let_def split: option.splits if_splits)

end
