(* ===== verification/Server.thy ===== *)
theory Server
  imports User_Handler Auth_Handler Auth_Live Database
begin

section \<open>The server (internal/server)\<close>

text \<open>
  \<open>NewServer\<close> wires repositories, services and handlers over the connection pool;
  \<open>RegisterRoutes\<close> is the table of routes, each handler inside the middleware of its group.
  Which route a request falls to, and the answer when there is none, is chi's business: a
  parameter (\<open>chi_router\<close>). The state behind the handlers is the database's world, the two
  tables of rate limiters and the access log.
\<close>

subsection \<open>State\<close>

record 'l server_state =
  ss_world :: world
  ss_login_limiter :: "'l rate_limiter"
  ss_register_limiter :: "'l rate_limiter"
  ss_log :: "log_entry list"

definition on_world :: "world handler \<Rightarrow> ('l server_state) handler" where
  "on_world h r w s = (case h r w (ss_world s) of (w', x) \<Rightarrow> (w', s\<lparr>ss_world := x\<rparr>))"

definition server_clock :: "('l server_state) clock" where
  "server_clock s = (case time_now (ss_world s) of (now, x) \<Rightarrow> (now, s\<lparr>ss_world := x\<rparr>))"

definition login_limiter :: "('l rate_limiter, 'l server_state) var" where
  "login_limiter = \<lparr>v_get = ss_login_limiter, v_set = (\<lambda>rl s. s\<lparr>ss_login_limiter := rl\<rparr>)\<rparr>"

definition register_limiter :: "('l rate_limiter, 'l server_state) var" where
  "register_limiter = \<lparr>v_get = ss_register_limiter, v_set = (\<lambda>rl s. s\<lparr>ss_register_limiter := rl\<rparr>)\<rparr>"

definition access_log :: "(log_entry list, 'l server_state) var" where
  "access_log = \<lparr>v_get = ss_log, v_set = (\<lambda>lg s. s\<lparr>ss_log := lg\<rparr>)\<rparr>"

subsection \<open>NewServer\<close>

text \<open>The packages outside the repository.\<close>

record 'l packages =
  pk_jwt :: jwt_lib
  pk_bcrypt :: bcrypt_lib
  pk_validator :: validator_lib
  pk_uuid :: uuid_lib
  pk_rate :: "'l rate_lib"

record server =
  sv_cfg :: config
  sv_logger :: slogger
  sv_db :: db_service
  sv_user_handler :: "world user_handler"
  sv_auth_handler :: "world auth_handler"
  sv_verifier :: verifier

definition new_server :: "'l packages \<Rightarrow> config \<Rightarrow> slogger \<Rightarrow> db_service \<Rightarrow> server" where
  "new_server P cfg lg dbs =
     (let repos = new_repositories On_Pool;
          user_svc = new_user_service (as_user_repo (reps_users repos));
          signr = new_signer (jwc_secret (cfg_jwt cfg)) (jwc_issuer (cfg_jwt cfg)) (jwc_access_ttl (cfg_jwt cfg));
          verifr = new_verifier (jwc_secret (cfg_jwt cfg)) (jwc_issuer (cfg_jwt cfg));
          auth_svc = new_auth_service (as_auth_user_repo (reps_users repos))
            (as_refresh_token_repo (reps_refresh_tokens repos)) signr (jwc_refresh_ttl (cfg_jwt cfg))
      in \<lparr>sv_cfg = cfg,
          sv_logger = lg,
          sv_db = dbs,
          sv_user_handler = new_user_handler (pk_validator P) (as_user_service_iface (pk_bcrypt P) user_svc),
          sv_auth_handler = new_auth_handler (pk_validator P)
            (as_auth_service_iface (pk_jwt P) (pk_bcrypt P) auth_svc) verifr
            (jwc_access_ttl (cfg_jwt cfg)) (jwc_refresh_ttl (cfg_jwt cfg)) (cfg_is_prod cfg),
          sv_verifier = verifr\<rparr>)"

text \<open>The \<open>http.Server\<close> around the router: its address and time-outs.\<close>

record http_server =
  hs_addr :: string
  hs_idle_timeout :: duration
  hs_read_timeout :: duration
  hs_write_timeout :: duration

definition http_server_of :: "config \<Rightarrow> http_server" where
  "http_server_of cfg =
     \<lparr>hs_addr = CHR '':'' # itoa (cfg_port cfg), hs_idle_timeout = minute, hs_read_timeout = 10 * second,
      hs_write_timeout = 30 * second\<rparr>"

subsection \<open>Handlers of the server itself\<close>

definition hello_handler :: "'s handler" where
  "hello_handler r w s = (respond_json 200 (Some (Inr (J_Obj [(''message'', J_Str ''Hello World'')]))) w, s)"

definition health_handler :: "'s handler" where
  "health_handler r w s = (respond_json 200 (Some (Inr (J_Obj [(''status'', J_Str ''ok'')]))) w, s)"

definition ready_handler :: "world handler" where
  "ready_handler r w s =
     (case db_health s of
        (stats, s1) \<Rightarrow>
          if stats ''status'' \<noteq> Some ''up''
          then (respond_error 503 ''db_unavailable'' ''database is not reachable'' w, s1)
          else (respond_json 200 (Some (Inr (J_Obj [(''status'', J_Str ''ready'')]))) w, s1))"

subsection \<open>RegisterRoutes\<close>

definition cors_of :: "cors_config \<Rightarrow> cors_options" where
  "cors_of c =
     \<lparr>co_allowed_origins = cc_allowed_origins c, co_allowed_methods = cc_allowed_methods c,
      co_allowed_headers = cc_allowed_headers c, co_allow_credentials = cc_allow_credentials c,
      co_max_age = cc_max_age c\<rparr>"

definition cors :: "'s chi_lib \<Rightarrow> cors_config \<Rightarrow> 's handler \<Rightarrow> 's handler" where
  "cors C c = cl_cors C (cors_of c)"

text \<open>A route: method, pattern and the handler inside the middleware of its group.\<close>

type_synonym 's route = "(string \<times> string) \<times> 's handler"

definition register_routes :: "'l packages \<Rightarrow> server \<Rightarrow> ('l server_state) route list" where
  "register_routes P srv =
     (let L = pk_uuid P; uh = sv_user_handler srv; ah = sv_auth_handler srv;
          auth = (\<lambda>h. on_world (auth_middleware (as_token_verifier (pk_jwt P) (sv_verifier srv)) h))
      in [((''GET'', ''/''), hello_handler),
          ((''GET'', ''/health''), health_handler),
          ((''GET'', ''/ready''), on_world ready_handler),
          ((''POST'', ''/api/v1/auth/login''),
             rate_limit (pk_rate P) server_clock login_limiter (on_world (auth_handler_login ah))),
          ((''POST'', ''/api/v1/auth/refresh''), on_world (auth_handler_refresh ah)),
          ((''POST'', ''/api/v1/auth/logout''), on_world (auth_handler_logout ah)),
          ((''POST'', ''/api/v1/auth/logout-all''), auth (auth_handler_logout_all ah)),
          ((''POST'', ''/api/v1/users/''),
             rate_limit (pk_rate P) server_clock register_limiter (on_world (user_handler_create L uh))),
          ((''GET'', ''/api/v1/users/''), auth (user_handler_list L uh)),
          ((''GET'', ''/api/v1/users/{id}''), auth (user_handler_get L uh)),
          ((''PUT'', ''/api/v1/users/{id}''), auth (user_handler_update L uh)),
          ((''DELETE'', ''/api/v1/users/{id}''), auth (user_handler_delete L uh))])"

text \<open>The limiters \<open>RegisterRoutes\<close> makes: 5 requests a second and bursts of 10 for the
  login, 3 and 5 for the registration. A server starts with both and an empty access log.\<close>

definition login_rate_limiter :: "'l rate_limiter" where
  "login_rate_limiter = new_rate_limiter 5 10"

definition register_rate_limiter :: "'l rate_limiter" where
  "register_rate_limiter = new_rate_limiter 3 5"

definition start_state :: "world \<Rightarrow> 'l server_state" where
  "start_state x =
     \<lparr>ss_world = x, ss_login_limiter = login_rate_limiter, ss_register_limiter = register_rate_limiter,
      ss_log = []\<rparr>"

text \<open>chi: the route a method and a path fall to, with the URL parameters, and the answer when
  there is none.\<close>

record 's chi_router =
  cr_match :: "(string \<times> string) list \<Rightarrow> string \<Rightarrow> string \<Rightarrow> ((string \<times> string) \<times> (string \<times> string) list) option"
  cr_no_route :: "'s handler"

definition router_documented :: "'s chi_router \<Rightarrow> bool" where
  "router_documented R \<longleftrightarrow>
     (\<forall>rs m p k ps. cr_match R rs m p = Some (k, ps) \<longrightarrow> k \<in> set rs \<and> fst k = m)
     \<and> (\<forall>r w s. snd (cr_no_route R r w s) = s)"

definition dispatch :: "'s chi_router \<Rightarrow> 's route list \<Rightarrow> 's handler" where
  "dispatch R rs r w s =
     (case cr_match R (map fst rs) (rq_method r) (rq_path r) of
        None \<Rightarrow> cr_no_route R r w s
      | Some (k, ps) \<Rightarrow>
          (case map_of rs k of
             None \<Rightarrow> cr_no_route R r w s
           | Some h \<Rightarrow> h (r\<lparr>rq_url_params := ps\<rparr>) w s))"

definition serve_http ::
    "('l server_state) chi_lib \<Rightarrow> ('l server_state) chi_router \<Rightarrow> 'l packages \<Rightarrow> server \<Rightarrow> ('l server_state) handler" where
  "serve_http C R P srv =
     request_id C
       (logger C server_clock access_log
          (recoverer C
             (cors C (cfg_cors (sv_cfg srv)) (dispatch R (register_routes P srv)))))"

text \<open>Requests one after another, each with a fresh writer: the responses and the last state.\<close>

fun serve_all :: "'s handler \<Rightarrow> request list \<Rightarrow> 's \<Rightarrow> response_writer list \<times> 's" where
  "serve_all h [] s = ([], s)"
| "serve_all h (r # rs) s =
     (case h r new_writer s of
        (w, s1) \<Rightarrow> (case serve_all h rs s1 of (ws, s2) \<Rightarrow> (w # ws, s2)))"

text \<open>A request falls to one route of the table or changes nothing.\<close>

lemma dispatch_cases:
  assumes "router_documented R" and "dispatch R rs r w s = (w', s')"
  obtains (no_route) "s' = s"
  | (route) k ps h where "map_of rs k = Some h" "fst k = rq_method r"
      "h (r\<lparr>rq_url_params := ps\<rparr>) w s = (w', s')"
proof (cases "cr_match R (map fst rs) (rq_method r) (rq_path r)")
  case None
  with assms(2) have "cr_no_route R r w s = (w', s')" by (simp add: dispatch_def)
  moreover have "snd (cr_no_route R r w s) = s" using assms(1) by (simp add: router_documented_def)
  ultimately show thesis by (intro no_route) simp
next
  case (Some x)
  then obtain k ps where x: "cr_match R (map fst rs) (rq_method r) (rq_path r) = Some (k, ps)" by (cases x) auto
  then have "k \<in> set (map fst rs) \<and> fst k = rq_method r"
    using assms(1) unfolding router_documented_def by blast
  then have k: "k \<in> fst ` set rs" "fst k = rq_method r" by simp_all
  then obtain h where "map_of rs k = Some h" by (metis (no_types, lifting) map_of_eq_None_iff not_None_eq)
  with assms(2) x k(2) show thesis by (intro route [of k h ps]) (auto simp: dispatch_def)
qed

subsection \<open>The wired parts\<close>

lemma new_server_sel [simp]:
  "uh_svc (sv_user_handler (new_server P cfg lg dbs)) = as_user_service_iface (pk_bcrypt P) pool_user_service"
  "uh_validator (sv_user_handler (new_server P cfg lg dbs)) = pk_validator P"
  "ah_svc (sv_auth_handler (new_server P cfg lg dbs)) = as_auth_service_iface (pk_jwt P) (pk_bcrypt P)
     (pool_auth_service (new_signer (jwc_secret (cfg_jwt cfg)) (jwc_issuer (cfg_jwt cfg)) (jwc_access_ttl (cfg_jwt cfg)))
       (jwc_refresh_ttl (cfg_jwt cfg)))"
  "ah_validator (sv_auth_handler (new_server P cfg lg dbs)) = pk_validator P"
  "ah_access_ttl (sv_auth_handler (new_server P cfg lg dbs)) = jwc_access_ttl (cfg_jwt cfg)"
  "ah_refresh_ttl (sv_auth_handler (new_server P cfg lg dbs)) = jwc_refresh_ttl (cfg_jwt cfg)"
  "ah_is_prod (sv_auth_handler (new_server P cfg lg dbs)) = cfg_is_prod cfg"
  "sv_verifier (new_server P cfg lg dbs) = new_verifier (jwc_secret (cfg_jwt cfg)) (jwc_issuer (cfg_jwt cfg))"
  by (simp_all add: new_server_def Let_def new_user_handler_def new_auth_handler_def pool_user_service_def
      pool_auth_service_def)

subsection \<open>What a request may do to the state\<close>

text \<open>A handler keeps the integrity of the database and writes no line into the access log.\<close>

definition keeps_integrity :: "('l server_state) handler \<Rightarrow> bool" where
  "keeps_integrity h \<longleftrightarrow> (\<forall>r w s w' s'. h r w s = (w', s') \<longrightarrow>
     ss_log s' = ss_log s \<and> (world_ok (ss_world s) \<longrightarrow> world_ok (ss_world s')))"

lemma keeps_integrityD:
  assumes "keeps_integrity h" "h r w s = (w', s')"
  shows "ss_log s' = ss_log s" and "world_ok (ss_world s) \<Longrightarrow> world_ok (ss_world s')"
  using assms by (auto simp: keeps_integrity_def)

lemma keeps_on_world:
  "(\<And>r w x w' x'. h r w x = (w', x') \<Longrightarrow> world_ok x \<Longrightarrow> world_ok x') \<Longrightarrow> keeps_integrity (on_world h)"
  by (fastforce simp: keeps_integrity_def on_world_def split: prod.splits)

lemma keeps_auth:
  assumes "\<And>r w x w' x'. h r w x = (w', x') \<Longrightarrow> world_ok x \<Longrightarrow> world_ok x'"
  shows "keeps_integrity (on_world (auth_middleware (as_token_verifier J v) h))"
proof (rule keeps_on_world)
  fix r w x w' x' assume run: "auth_middleware (as_token_verifier J v) h r w x = (w', x')" and ok: "world_ok x"
  have next_ok: "world_ok y" if "y = x \<or> y = next_tick x" for y using that ok by (auto simp: world_ok_def)
  from run show "world_ok x'"
    by (cases rule: verifier_laws.auth_cases) (use assms next_ok in blast)+
qed

lemma server_clock_keeps:
  assumes "server_clock s = (now, s1)"
  shows "ss_log s1 = ss_log s" and "world_ok (ss_world s) \<Longrightarrow> world_ok (ss_world s1)"
  using assms by (auto simp: server_clock_def time_now_def world_ok_def)

lemma keeps_rate_limit:
  assumes "keeps_integrity h" "\<And>a s. ss_world (v_set rlv a s) = ss_world s" "\<And>a s. ss_log (v_set rlv a s) = ss_log s"
  shows "keeps_integrity (rate_limit K server_clock rlv h)"
  unfolding keeps_integrity_def
proof (intro allI impI)
  fix r w s w' s'
  assume run: "rate_limit K server_clock rlv h r w s = (w', s')"
  obtain now s1 where c: "server_clock s = (now, s1)" by fastforce
  obtain b rl where a: "rate_allow K now (client_key r) (v_get rlv s1) = (b, rl)" by fastforce
  let ?s2 = "v_set rlv rl s1"
  have "s' = ?s2 \<or> h r w ?s2 = (w', s')" using run by (cases b) (auto simp: rate_limit_def c a Let_def)
  then have "ss_log s' = ss_log ?s2" "world_ok (ss_world ?s2) \<longrightarrow> world_ok (ss_world s')"
    using keeps_integrityD [OF assms(1)] by blast+
  then show "ss_log s' = ss_log s \<and> (world_ok (ss_world s) \<longrightarrow> world_ok (ss_world s'))"
    using server_clock_keeps [OF c] by (simp add: assms(2,3))
qed

lemma keeps_routes:
  "\<forall>rt\<in>set (register_routes P (new_server P cfg lg dbs)). keeps_integrity (snd rt)"
proof -
  note users = users_served.endpoints_ok [OF _ new_server_sel(1)]
  note auths = auth_served.auth_endpoints_ok [OF _ new_server_sel(3)]
  have static: "keeps_integrity hello_handler" "keeps_integrity health_handler"
    by (simp_all add: keeps_integrity_def hello_handler_def health_handler_def)
  have ready: "world_ok x'" if "ready_handler r w x = (w', x')" "world_ok x" for r w x w' x'
  proof -
    from that(1) have "x' = snd (db_health x)" by (auto simp: ready_handler_def split: prod.splits if_splits)
    with that(2) show ?thesis by (simp add: world_ok_def)
  qed
  have limited: "keeps_integrity (rate_limit K server_clock login_limiter h)"
    "keeps_integrity (rate_limit K server_clock register_limiter h)" if "keeps_integrity h" for K h
    using that by (auto intro!: keeps_rate_limit simp: login_limiter_def register_limiter_def)
  show ?thesis
    unfolding register_routes_def Let_def
    using static
    by (auto intro!: limited keeps_on_world keeps_auth dest: ready users auths)
qed

lemma keeps_dispatch:
  assumes "router_documented R"
  shows "keeps_integrity (dispatch R (register_routes P (new_server P cfg lg dbs)))"
  unfolding keeps_integrity_def
proof (intro allI impI)
  fix r w s w' s'
  assume run: "dispatch R (register_routes P (new_server P cfg lg dbs)) r w s = (w', s')"
  from assms run show "ss_log s' = ss_log s \<and> (world_ok (ss_world s) \<longrightarrow> world_ok (ss_world s'))"
  proof (cases rule: dispatch_cases)
    case (route k ps h)
    then have "keeps_integrity h" using keeps_routes by (fastforce dest: map_of_SomeD)
    from keeps_integrityD [OF this route(3)] show ?thesis by simp
  qed simp
qed

subsection \<open>The middleware of every request\<close>

text \<open>
  The documented behaviour of the middleware that wraps every route: \<open>RequestID\<close> and
  \<open>Recoverer\<close> hand each request on to the next handler, with another context or writer, and so
  does CORS unless it answers a preflight request itself. None has a state of its own.
\<close>

definition hands_on :: "'s handler \<Rightarrow> request \<Rightarrow> 's \<Rightarrow> 's \<Rightarrow> bool" where
  "hands_on h r s s' \<longleftrightarrow> (\<exists>r1 w1 w2. rq_method r1 = rq_method r \<and> rq_path r1 = rq_path r \<and> h r1 w1 s = (w2, s'))"

definition middleware_documented :: "'s chi_lib \<Rightarrow> bool" where
  "middleware_documented C \<longleftrightarrow> (\<forall>h r w s.
     hands_on h r s (snd (cl_request_id C h r w s)) \<and> hands_on h r s (snd (cl_recoverer C h r w s))
     \<and> (\<forall>opts. let s' = snd (cl_cors C opts h r w s) in s' = s \<or> hands_on h r s s'))"

lemma inside_logger:
  assumes "middleware_documented C" "keeps_integrity h"
  shows "keeps_integrity (recoverer C (cors C opts h))"
  unfolding keeps_integrity_def
proof (intro allI impI)
  fix r w s w' s' assume run: "recoverer C (cors C opts h) r w s = (w', s')"
  then have "hands_on (cors C opts h) r s s'"
    using assms(1) unfolding middleware_documented_def recoverer_def by (metis snd_conv)
  then obtain r1 w1 w2 where "cors C opts h r1 w1 s = (w2, s')" by (auto simp: hands_on_def)
  then have "s' = s \<or> hands_on h r1 s s'"
    using assms(1) unfolding middleware_documented_def cors_def Let_def by (metis snd_conv)
  then show "ss_log s' = ss_log s \<and> (world_ok (ss_world s) \<longrightarrow> world_ok (ss_world s'))"
    using keeps_integrityD [OF assms(2)] unfolding hands_on_def by blast
qed

text \<open>One request through the whole stack: the integrity is kept and one line is logged.\<close>

lemma serve_http_step:
  assumes "router_documented R" "middleware_documented C"
    and "serve_http C R P (new_server P cfg lg dbs) r w s = (w', s')"
  obtains e where "ss_log s' = ss_log s @ [e]" "le_method e = rq_method r" "le_path e = rq_path r"
    "world_ok (ss_world s) \<longrightarrow> world_ok (ss_world s')"
proof -
  let ?in = "recoverer C (cors C (cfg_cors (sv_cfg (new_server P cfg lg dbs))) (dispatch R (register_routes P (new_server P cfg lg dbs))))"
  have keeps: "keeps_integrity ?in" by (rule inside_logger [OF assms(2) keeps_dispatch [OF assms(1)]])
  have "hands_on (logger C server_clock access_log ?in) r s s'"
    using assms(2,3) unfolding middleware_documented_def serve_http_def request_id_def by (metis snd_conv)
  then obtain r1 w1 w2 where r1: "rq_method r1 = rq_method r" "rq_path r1 = rq_path r"
      and run: "logger C server_clock access_log ?in r1 w1 s = (w2, s')"
    by (auto simp: hands_on_def)
  obtain t1 s1 where c1: "server_clock s = (t1, s1)" by fastforce
  obtain ww s2 where h: "?in r1 w1 s1 = (ww, s2)" by fastforce
  obtain t2 s3 where c2: "server_clock s2 = (t2, s3)" by fastforce
  from run have s': "s' = v_set access_log (v_get access_log s3 @ [log_line C r1 ww (t2 - t1)]) s3"
    by (auto simp: logger_def c1 h c2)
  show thesis
  proof (rule that [of "log_line C r1 ww (t2 - t1)"])
    show "ss_log s' = ss_log s @ [log_line C r1 ww (t2 - t1)]"
      using server_clock_keeps(1) [OF c1] server_clock_keeps(1) [OF c2] keeps_integrityD(1) [OF keeps h]
      by (simp add: s' access_log_def)
    show "world_ok (ss_world s) \<longrightarrow> world_ok (ss_world s')"
      using server_clock_keeps(2) [OF c1] keeps_integrityD(2) [OF keeps h] server_clock_keeps(2) [OF c2]
      by (simp add: s' access_log_def)
  qed (simp_all add: log_line_def r1)
qed

end
