(* ===== verification/Round_Trips.thy ===== *)
theory Round_Trips
  imports Server
begin

section \<open>Round trips through a client\<close>

text \<open>
  What a client sends back of what it was sent, or sends in the documented form, is read as it
  was meant: a request body marshalled from its fields, the \<open>next_cursor\<close> of a page in the
  query of the next one, the cookie of a login in the header of a refresh. The client's part
  (\<open>url.QueryEscape\<close>, the Cookie line) is defined here.
\<close>

subsection \<open>Request bodies\<close>

definition create_request_json :: "create_user_request \<Rightarrow> json" where
  "create_request_json q =
     J_Obj [(''email'', J_Str (cur_email q)), (''password'', J_Str (cur_password q)), (''name'', J_Str (cur_name q))]"

definition login_request_json :: "login_request \<Rightarrow> json" where
  "login_request_json q = J_Obj [(''email'', J_Str (lg_email q)), (''password'', J_Str (lg_password q))]"

lemma ascii_keys [simp]: "ascii ''email''" "ascii ''password''" "ascii ''name''"
  by (simp_all add: ascii_def)

lemma same_field_keys [simp]:
  "same_field ''email'' ''email''" "same_field ''password'' ''password''" "same_field ''name'' ''name''"
  "\<not> same_field ''password'' ''email''" "\<not> same_field ''name'' ''email''" "\<not> same_field ''name'' ''password''"
  by (simp_all add: same_field_def bytes_of_string_def)

lemma decode_create_request:
  assumes "rq_body r = json_render (create_request_json q) @ t" "rq_body_error r = None" "number_end t"
    and "length (rq_body r) \<le> max_request_body_bytes"
  shows "decode_json store_create_request r zero_create_request = Inr \<lparr>cur_email = clean_string (cur_email q),
    cur_password = clean_string (cur_password q), cur_name = clean_string (cur_name q)\<rparr>"
proof -
  have "json_ok (create_request_json q)" "json_depth (create_request_json q) \<le> max_nesting" by (simp_all add: create_request_json_def max_nesting_def)
  from decode_rendered [OF assms(1) [unfolded create_request_json_def] assms(2) this [unfolded create_request_json_def] assms(3,4),
      of store_create_request zero_create_request]
  show ?thesis by (simp add: store_create_request_def store_struct_def store_string_def zero_create_request_def)
qed

lemma decode_login_request:
  assumes "rq_body r = json_render (login_request_json q) @ t" "rq_body_error r = None" "number_end t"
    and "length (rq_body r) \<le> max_request_body_bytes"
  shows "decode_json store_login_request r zero_login_request = Inr \<lparr>lg_email = clean_string (lg_email q),
    lg_password = clean_string (lg_password q)\<rparr>"
proof -
  have "json_ok (login_request_json q)" "json_depth (login_request_json q) \<le> max_nesting" by (simp_all add: login_request_json_def max_nesting_def)
  from decode_rendered [OF assms(1) [unfolded login_request_json_def] assms(2) this [unfolded login_request_json_def] assms(3,4),
      of store_login_request zero_login_request]
  show ?thesis by (simp add: store_login_request_def store_struct_def store_string_def zero_login_request_def)
qed

subsection \<open>Query strings\<close>

definition unreserved_char :: "char \<Rightarrow> bool" where
  "unreserved_char c \<longleftrightarrow> (let b = of_char c :: nat in
     48 \<le> b \<and> b \<le> 57 \<or> 65 \<le> b \<and> b \<le> 90 \<or> 97 \<le> b \<and> b \<le> 122 \<or> b \<in> {45, 46, 95, 126})"

definition upper_hex :: "nat \<Rightarrow> char" where
  "upper_hex n = char_of (if n < 10 then 48 + n else 55 + n)"

fun query_escape :: "string \<Rightarrow> string" where
  "query_escape [] = []"
| "query_escape (c # s) =
     (if unreserved_char c then [c] else if c = CHR '' '' then ''+''
      else [CHR ''%'', upper_hex (of_char c div 16), upper_hex (of_char c mod 16)]) @ query_escape s"

lemma hex_char_upper: "n < 16 \<Longrightarrow> hex_char (upper_hex n) = Some n"
  by (auto simp: hex_char_def upper_hex_def hex_value_def)

lemma char_of_parts: "char_of (16 * (of_char c div 16) + of_char c mod 16 :: nat) = c"
  by (simp add: mult_div_mod_eq)

lemma unescape_escape: "query_unescape (query_escape s) = Some s"
proof (induction s)
  case (Cons c s)
  have b: "(of_char c :: nat) div 16 < 16" "(of_char c :: nat) mod 16 < 16"
    by (simp_all add: less_mult_imp_div_less)
  have "c \<noteq> CHR ''%'' \<and> c \<noteq> CHR ''+''" if "unreserved_char c"
    using that by (auto simp: unreserved_char_def)
  with Cons b char_of_parts [of c] show ?case by (auto simp: hex_char_upper)
qed simp

lemma query_escape_chars:
  "c \<in> set (query_escape s) \<Longrightarrow> unreserved_char c \<or> c = CHR ''+'' \<or> c = CHR ''%''"
proof (induction s)
  case (Cons a s)
  have "unreserved_char (upper_hex n)" if "n < 16" for n
    using that by (auto simp: unreserved_char_def upper_hex_def)
  then have "unreserved_char (upper_hex (of_char a div 16))" "unreserved_char (upper_hex (of_char a mod 16))"
    by (simp_all add: less_mult_imp_div_less)
  with Cons show ?case by (auto split: if_splits)
qed simp

lemma query_escape_plain: "CHR ''&'' \<notin> set (query_escape s)" "CHR '';'' \<notin> set (query_escape s)"
  by (auto dest!: query_escape_chars simp: unreserved_char_def)

lemma split_on_hit: "c \<notin> set a \<Longrightarrow> split_on c (a @ c # b) = a # split_on c b"
  by (induction a) auto

lemma query_pair_escaped:
  assumes "list_all unreserved_char k" "k \<noteq> []"
  shows "query_pair (k @ CHR ''='' # query_escape v) = [(k, v)]"
proof -
  have k: "query_escape k = k" using assms(1) by (induction k) auto
  have "CHR ''='' \<notin> set k" "CHR '';'' \<notin> set k"
    using assms(1) by (auto simp: list_all_iff unreserved_char_def)
  moreover have "query_unescape k = Some k" using unescape_escape [of k] k by simp
  ultimately show ?thesis
    using query_escape_plain(2) [of v] by (auto simp: query_pair_def cut_hit unescape_escape)
qed

lemma parse_query_two:
  assumes "list_all unreserved_char k" "k \<noteq> []" "list_all unreserved_char l" "l \<noteq> []"
  shows "parse_query (k @ ''='' @ query_escape v @ ''&'' @ l @ ''='' @ query_escape u) = [(k, v), (l, u)]"
proof -
  have key: "CHR ''&'' \<notin> set x" if "list_all unreserved_char x" for x
    using that by (auto simp: list_all_iff unreserved_char_def)
  have "split_on (CHR ''&'') ((k @ ''='' @ query_escape v) @ CHR ''&'' # l @ ''='' @ query_escape u)
      = [k @ ''='' @ query_escape v, l @ ''='' @ query_escape u]"
    using key [OF assms(1)] key [OF assms(3)] query_escape_plain(1)
    by (subst split_on_hit) (auto intro: split_on_miss)
  then show ?thesis
    using query_pair_escaped [OF assms(1,2)] query_pair_escaped [OF assms(3,4)]
    by (simp add: parse_query_def)
qed

text \<open>The client takes \<open>next_cursor\<close> of a response apart and sends its members back.\<close>

fun cursor_query :: "json \<Rightarrow> string" where
  "cursor_query (J_Obj [(a, J_Str created), (b, J_Str i)]) =
     ''cursor_created_at='' @ query_escape created @ ''&cursor_id='' @ query_escape i"
| "cursor_query v = ''''"

lemma cursor_round_trip:
  assumes "uuid_documented L" "60 dvd ul_zone L (cr_created_at c)"
    and "marshal_cursor_response L c = Inr v" "rq_raw_query r = cursor_query v"
  shows "parse_cursor L r = Some \<lparr>pc_created_at = cr_created_at c, pc_id = cr_id c\<rparr>"
proof -
  obtain s where s: "format_time (ul_zone L (cr_created_at c)) (cr_created_at c) = Inr s"
    and v: "v = J_Obj [(''created_at'', J_Str s), (''id'', J_Str (ul_string L (cr_id c)))]"
    using assms(3) by (auto simp: marshal_cursor_response_def marshal_time_def marshal_uuid_def as_object_def
        split: sum.splits)
  have t: "parse_time s = Some (cr_created_at c)" using s assms(2) by (rule parse_format)
  have "s \<noteq> ''''" using s by (auto simp: format_time_def Let_def split: prod.splits if_splits)
  moreover have "ul_string L (cr_id c) \<noteq> ''''" "ul_parse L (ul_string L (cr_id c)) = Inr (cr_id c)"
    using assms(1) by (simp_all add: uuid_documented_def)
  moreover have "parse_query (rq_raw_query r)
      = [(''cursor_created_at'', s), (''cursor_id'', ul_string L (cr_id c))]"
    using parse_query_two [of "''cursor_created_at''" "''cursor_id''" s "ul_string L (cr_id c)"]
    by (simp add: assms(4) v unreserved_char_def)
  ultimately show ?thesis
    using t by (simp add: parse_cursor_def query_get_def first_value_def)
qed

subsection \<open>Cookies\<close>

lemma token_chars_b64: "list_all token_char b64_alphabet"
  by (simp add: b64_alphabet_def token_char_def)

lemma plain_refresh_token: "plain_cookie_value (b64url_encode bs)"
  using token_chars_b64 set_b64url_encode [of bs] by (intro plain_cookie_b64) (auto simp: list_all_iff)

lemma b64url_encode_nonempty: "bs \<noteq> [] \<Longrightarrow> b64url_encode bs \<noteq> []"
  by (cases bs rule: b64url_encode.cases) auto

lemma refresh_cookie_read_back:
  assumes "bs \<noteq> []" "rq_header q = [(''Cookie'', ''refresh_token='' @ b64url_encode bs)]"
  shows "read_refresh_cookie q = Some (b64url_encode bs)"
proof -
  have "is_token ''refresh_token''" by (simp add: is_token_def token_char_def)
  from request_cookie_plain [OF this plain_refresh_token [of bs], of q] assms b64url_encode_nonempty [OF assms(1)]
  show ?thesis by (simp add: read_refresh_cookie_def refresh_token_cookie_def)
qed

end
