(* ===== verification/Api_Samples.thy ===== *)
theory Api_Samples
  imports Round_Trips Samples
begin

section \<open>Concrete packages and requests\<close>

text \<open>
  Examples of the packages the API uses, with the proofs that they behave as documented, and of
  requests: what the examples of the properties of the API are evaluated on. None of this models
  code.
\<close>

subsection \<open>Examples of the packages\<close>

definition sample_uuid :: uuid_lib where
  "sample_uuid = \<lparr>ul_parse = (\<lambda>s. if s \<noteq> '''' \<and> list_all (\<lambda>c. c = CHR ''1'') s
       then Inr (of_nat (length s - 1)) else Inl (New_Error ''invalid UUID'')),
     ul_string = (\<lambda>u. replicate (Suc (unat u)) (CHR ''1'')), ul_zone = (\<lambda>t. 0)\<rparr>"

lemma sample_uuid_documented: "uuid_documented sample_uuid"
  by (simp add: uuid_documented_def sample_uuid_def ascii_def list_all_iff)

definition sample_email :: "string \<Rightarrow> bool" where
  "sample_email s \<longleftrightarrow> CHR ''@'' \<in> set s"

definition sample_validator :: validator_lib where
  "sample_validator = \<lparr>vd_struct = (\<lambda>fs. if list_all (field_ok sample_email) fs then None
     else Some (New_Error ''validation failed''))\<rparr>"

lemma sample_validator_documented: "validator_documented sample_validator sample_email"
  by (simp add: validator_documented_def sample_validator_def)

definition sample_request :: request where
  "sample_request = \<lparr>rq_method = ''GET'', rq_path = ''/'', rq_raw_query = '''', rq_header = [], rq_body = [],
     rq_body_error = None, rq_remote_addr = ''10.0.0.1:1000'', rq_ctx = [], rq_url_params = []\<rparr>"

text \<open>A bucket that lets the burst through and is not refilled.\<close>

definition sample_rate :: "nat rate_lib" where
  "sample_rate = \<lparr>rl_new = (\<lambda>rps burst. burst), rl_allow = (\<lambda>t n. (0 < n, n - 1))\<rparr>"

lemma sample_rate_run: "allow_run sample_rate n ts = replicate (min n (length ts)) True @ replicate (length ts - n) False"
proof (induction ts arbitrary: n)
  case (Cons t ts)
  then show ?case by (cases n) (simp_all add: sample_rate_def)
qed simp

lemma sample_rate_documented: "rate_documented sample_rate"
proof -
  have new: "rl_new sample_rate rps burst = burst" for rps burst by (simp add: sample_rate_def)
  have "int (length (filter id (allow_run sample_rate n ts))) * second \<le> int n * second + int rps * (last ts - hd ts)"
    if ts: "ts \<noteq> []" "sorted ts" for n rps ts
  proof -
    have "hd ts \<le> last ts" using ts by (cases ts) auto
    then have "0 \<le> int rps * (last ts - hd ts)" by simp
    moreover have "int (min n (length ts)) * second \<le> int n * second" by (simp add: second_def)
    ultimately show ?thesis by (simp add: sample_rate_run)
  qed
  then show ?thesis by (simp add: rate_documented_def new sample_rate_run list_all_iff)
qed

definition sample_packages :: "nat packages" where
  "sample_packages = \<lparr>pk_jwt = sample_jwt, pk_bcrypt = sample_bcrypt, pk_validator = sample_validator,
     pk_uuid = sample_uuid, pk_rate = sample_rate\<rparr>"

definition sample_logger :: slogger where
  "sample_logger = fst (logging_new (build_config (\<lambda>k. None)))"

definition sample_db :: db_service where
  "sample_db = \<lparr>ds_db = \<lparr>sd_dsn = [], sd_max_open = 25, sd_max_idle = 5, sd_max_lifetime = hour, sd_max_idle_time = 5 * minute\<rparr>,
     ds_logger = sample_logger\<rparr>"

definition sample_config :: config where
  "sample_config = (build_config (\<lambda>k. if k = ''JWT_SECRET'' then Some ''secret'' else None))"

definition sample_chi :: "'s chi_lib" where
  "sample_chi = \<lparr>cl_recoverer = (\<lambda>h. h), cl_request_id = (\<lambda>h. h),
     cl_cors = (\<lambda>opts h r w s. if rq_method r = ''OPTIONS'' then (write_header 200 w, s) else h r w s),
     cl_status = (\<lambda>w. case rw_status w of None \<Rightarrow> 0 | Some c \<Rightarrow> c), cl_bytes_written = (\<lambda>w. length (rw_body w)),
     cl_get_req_id = (\<lambda>r. [])\<rparr>"

lemma sample_chi_documented: "middleware_documented sample_chi"
  unfolding middleware_documented_def hands_on_def sample_chi_def Let_def
  by (auto intro: exI prod.collapse [symmetric])

definition sample_router :: "(nat server_state) chi_router" where
  "sample_router = \<lparr>cr_match = (\<lambda>rs m p. map_option (\<lambda>k. (k, [])) (find (\<lambda>k. k = (m, p)) rs)),
     cr_no_route = (\<lambda>r w s. (respond_error 404 ''not_found'' ''not found'' w, s))\<rparr>"

lemma sample_router_documented: "router_documented sample_router"
  by (auto simp: router_documented_def sample_router_def dest: find_SomeD)

subsection \<open>Tokens and requests that work\<close>

definition with_bearer :: "string \<Rightarrow> request" where
  "with_bearer t = sample_request\<lparr>rq_header := [(''Authorization'', ''Bearer '' @ t)]\<rparr>"

lemma with_bearer_token: "t \<noteq> '''' \<Longrightarrow> bearer_token (with_bearer t) = Some t"
  by (simp add: bearer_token_some with_bearer_def header_get_def first_value_def)

lemma sample_sign_nonempty: "signer_sign sample_jwt sg u c w = (Inr a, w') \<Longrightarrow> a \<noteq> ''''"
  by (auto simp: signer_sign_def sample_jwt_def sample_sign_def signing_method_hs256_def put_str_def time_now_def)

lemma sample_login:
  obtains a p w' where "auth_login sample_jwt sample_bcrypt sample_auth ''ada@example.com'' ''open sesame'' (sample_world []) = (Inr (a, p), w')"
    "a \<noteq> ''''"
proof -
  have "\<exists>a p. fst (auth_login sample_jwt sample_bcrypt sample_auth ''ada@example.com'' ''open sesame'' (sample_world [])) = Inr (a, p)"
    by (rule live_auth.login_answers(2) [where u = "user_to_model sample_user"])
      (simp_all add: sample_world_ok sample_world_quiet sample_user_def sample_bcrypt_def
        sample_can_sign sample_mint_ready [of "[]", simplified])
  then obtain a p w' where run: "auth_login sample_jwt sample_bcrypt sample_auth ''ada@example.com'' ''open sesame'' (sample_world [])
      = (Inr (a, p), w')" by (metis prod.collapse)
  moreover from run pool_auth_service_sel(2,1) have "a \<noteq> ''''"
  proof (cases rule: auth.login_cases)
    case (matched u k w2)
    from matched(6) pool_auth_service_sel(2) show ?thesis
      by (cases rule: tokens.issue_cases) (auto dest: sample_sign_nonempty)
  qed simp_all
  ultimately show thesis by (rule that)
qed

text \<open>An access token for any user, there or not.\<close>

lemma sample_access:
  obtains t cl where "t \<noteq> ''''" "c_user_id cl = u"
    "fst (verifier_verify sample_jwt (new_verifier secret issuer) t (sample_world ts)) = Inr cl"
proof -
  let ?sg = "new_signer secret issuer (15 * minute)" and ?w = "sample_world ts"
  obtain t where sign: "signer_sign sample_jwt ?sg u 0 ?w = (Inr t, next_tick ?w)"
    by (simp add: signer_sign_def time_now_def sample_jwt_def sample_sign_def signing_method_hs256_def)
  let ?cl = "sign_claims sample_jwt ?sg u 0 (100 * second)"
  have "c_not_before ?cl \<le> 100 * second" "100 * second < c_expires_at ?cl"
    by (simp_all add: sign_claims_def sample_jwt_def sample_numeric_date_def new_signer_def second_def minute_def)
  then have "fst (verifier_verify sample_jwt (new_verifier secret issuer) t ?w) = Inr ?cl"
    using verify_signed [OF sample_jwt_documented sign, of ?w] by (simp add: Let_def)
  moreover have "c_user_id ?cl = u" by (simp add: sign_claims_def)
  ultimately show thesis using sample_sign_nonempty [OF sign] by (intro that)
qed

text \<open>A registration.\<close>

definition sample_registration :: create_user_request where
  "sample_registration = \<lparr>cur_email = ''bo@example.com'', cur_password = ''open sesame'', cur_name = ''Bo''\<rparr>"

definition registration_request :: request where
  "registration_request = sample_request\<lparr>rq_method := ''POST'', rq_body := json_render (create_request_json sample_registration)\<rparr>"

lemma registration_body: "json_render (create_request_json sample_registration) =
    map of_char (''{'' @ [CHR 0x22] @ ''email'' @ [CHR 0x22] @ '':'' @ [CHR 0x22] @ ''bo@example.com'' @ [CHR 0x22]
      @ '','' @ [CHR 0x22] @ ''password'' @ [CHR 0x22] @ '':'' @ [CHR 0x22] @ ''open sesame'' @ [CHR 0x22]
      @ '','' @ [CHR 0x22] @ ''name'' @ [CHR 0x22] @ '':'' @ [CHR 0x22] @ ''Bo'' @ [CHR 0x22] @ ''}'')"
  by code_simp

lemma decode_registration:
  "decode_json store_create_request registration_request zero_create_request = Inr sample_registration"
proof -
  have "ascii (cur_email sample_registration)" "ascii (cur_password sample_registration)" "ascii (cur_name sample_registration)"
    by (simp_all add: sample_registration_def ascii_def)
  moreover have "length (rq_body registration_request) \<le> max_request_body_bytes"
    by (simp add: registration_request_def registration_body max_request_body_bytes_def)
  ultimately show ?thesis
    using decode_create_request [of registration_request sample_registration "[]"]
    by (simp add: registration_request_def sample_request_def number_end_def)
qed

lemma registration_accepted:
  assumes "user_handler_create sample_uuid (new_user_handler sample_validator (as_user_service_iface sample_bcrypt pool_user_service))
    registration_request new_writer (sample_world []) = (w', x')"
  shows "rw_status w' = Some 201"
proof -
  let ?in = "\<lparr>cui_email = cur_email sample_registration, cui_password = cur_password sample_registration,
    cui_name = cur_name sample_registration\<rparr>"
  have "decode_and_validate sample_validator store_create_request create_request_checks registration_request new_writer
      zero_create_request = Inr sample_registration"
    by (simp add: decode_and_validate_def decode_registration sample_validator_def create_request_checks_def field_ok_def
        sample_registration_def sample_email_def string_runes_def rune_count_ascii)
  moreover obtain r x1 where run: "user_service_create sample_bcrypt pool_user_service ?in (sample_world []) = (r, x1)"
    by fastforce
  moreover from live_user.user_create_live [OF run pool_user_service_sel sample_world_quiet_users]
  obtain u where "r = Inr u"
    by (auto simp: sample_bcrypt_def sample_registration_def sample_user_def)
  ultimately show ?thesis
    using assms by (auto simp: user_handler_create_def new_user_handler_def respond_json_fresh)
qed

text \<open>A time.\<close>

lemma sample_time: "format_time 0 (100 * second) = Inr ''1970-01-01T00:01:40Z''"
proof -
  have "civil_of_day 719528 = (1970, 1, 1)"
    by (simp add: civil_of_day_def year_of_day_def days_before_year_def month_lengths_def leap_year_def Let_def)
  moreover have "clock_text 100 = ''00:01:40''" by code_simp
  moreover have "four_digits 1970 = ''1970''" "two_digits 1 = ''01''"
    by code_simp+
  ultimately show ?thesis
    by (simp add: format_time_def second_def day_length_def unix_epoch_day_def fraction_text_def zone_text_def)
qed

text \<open>A login.\<close>

definition sample_auth_handler :: "world auth_handler" where
  "sample_auth_handler = new_auth_handler sample_validator (as_auth_service_iface sample_jwt sample_bcrypt sample_auth)
     (new_verifier ''secret'' ''gostart'') (15 * minute) (168 * hour) False"

definition sample_credentials :: login_request where
  "sample_credentials = \<lparr>lg_email = ''ada@example.com'', lg_password = ''open sesame''\<rparr>"

definition login_request_sample :: request where
  "login_request_sample = sample_request\<lparr>rq_method := ''POST'', rq_body := json_render (login_request_json sample_credentials)\<rparr>"

lemma login_body: "length (json_render (login_request_json sample_credentials)) = 52"
  by code_simp

lemma sample_auth_handler_sel [simp]:
  "ah_svc sample_auth_handler = as_auth_service_iface sample_jwt sample_bcrypt sample_auth"
  "ah_validator sample_auth_handler = sample_validator"
  by (simp_all add: sample_auth_handler_def new_auth_handler_def)

lemma login_accepted:
  assumes "auth_handler_login sample_auth_handler login_request_sample new_writer (sample_world []) = (w', x')"
  shows "rw_status w' = Some 200"
proof -
  have "ascii (lg_email sample_credentials)" "ascii (lg_password sample_credentials)"
    by (simp_all add: sample_credentials_def ascii_def)
  then have "decode_json store_login_request login_request_sample zero_login_request = Inr sample_credentials"
    using decode_login_request [of login_request_sample sample_credentials "[]"]
    by (simp add: login_request_sample_def sample_request_def number_end_def login_body max_request_body_bytes_def)
  then have "decode_and_validate sample_validator store_login_request login_request_checks login_request_sample new_writer
      zero_login_request = Inr sample_credentials"
    by (simp add: decode_and_validate_def sample_validator_def login_request_checks_def field_ok_def
        sample_credentials_def sample_email_def string_runes_def rune_count_ascii)
  moreover obtain a p x1 where "auth_login sample_jwt sample_bcrypt sample_auth ''ada@example.com'' ''open sesame'' (sample_world [])
      = (Inr (a, p), x1)" by (rule sample_login)
  ultimately show ?thesis
    using assms by (auto simp: auth_handler_login_def sample_credentials_def respond_tokens_def respond_json_fresh)
qed

end
