(* ===== verification/Hash_Secrecy.thy ===== *)
theory Hash_Secrecy
  imports User_Handler
begin

section \<open>Password hashes do not leave the service\<close>

text \<open>
  Noninterference for the user endpoints: two worlds that differ in nothing but the stored
  password hashes cannot be told apart by any request to them. \<open>hide\<close> blanks the hashes;
  an operation is \<open>blind\<close> when it takes worlds that are equal up to the hashes to answers that
  are equal (as far as \<open>v\<close> sees) and again to such worlds. The lemmas go up layer by layer.
\<close>

definition hide_row :: "user_row \<Rightarrow> user_row" where
  "hide_row u = u\<lparr>ur_password_hash := ''''\<rparr>"

definition hide_user :: "user \<Rightarrow> user" where
  "hide_user u = u\<lparr>u_password_hash := ''''\<rparr>"

definition hide_db :: "database \<Rightarrow> database" where
  "hide_db d = d\<lparr>users_tbl := map hide_row (users_tbl d)\<rparr>"

definition hide :: "world \<Rightarrow> world" where
  "hide w = w\<lparr>db := hide_db (db w)\<rparr>"

definition blind :: "('a \<Rightarrow> 'b) \<Rightarrow> (world \<Rightarrow> 'a \<times> world) \<Rightarrow> bool" where
  "blind v f \<longleftrightarrow> (\<forall>x y. hide x = hide y \<longrightarrow>
     v (fst (f x)) = v (fst (f y)) \<and> hide (snd (f x)) = hide (snd (f y)))"

lemma blindD:
  "blind v f \<Longrightarrow> hide x = hide y \<Longrightarrow> f x = (a, x') \<Longrightarrow> f y = (b, y') \<Longrightarrow> v a = v b \<and> hide x' = hide y'"
  unfolding blind_def by (metis fst_conv snd_conv)

lemma hide_row_sel [simp]:
  "ur_id (hide_row u) = ur_id u" "ur_email (hide_row u) = ur_email u" "ur_name (hide_row u) = ur_name u"
  "ur_created_at (hide_row u) = ur_created_at u" "ur_updated_at (hide_row u) = ur_updated_at u"
  "row_key (hide_row u) = row_key u" "before_cursor arg (hide_row u) = before_cursor arg u"
  by (simp_all add: hide_row_def row_key_def before_cursor_def)

lemma hide_row_idem [simp]: "hide_row (hide_row u) = hide_row u"
  by (simp add: hide_row_def)

lemma hide_db_sel [simp]:
  "users_tbl (hide_db d) = map hide_row (users_tbl d)" "tokens_tbl (hide_db d) = tokens_tbl d"
  by (simp_all add: hide_db_def)

lemma hide_db_eqI: "map hide_row us = map hide_row us' \<Longrightarrow> hide_db (d\<lparr>users_tbl := us\<rparr>) = hide_db ((hide_db d)\<lparr>users_tbl := us'\<rparr>)"
  by (simp add: hide_db_def)

lemma hide_db_idem [simp]: "hide_db (hide_db d) = hide_db d"
  by (simp add: hide_db_def o_def)

lemma hide_user_to_model: "hide_user (user_to_model r) = user_to_model (hide_row r)"
  by (simp add: hide_user_def user_to_model_def hide_row_def)

lemma sort_rows_hide: "sort_key row_key (map hide_row us) = map hide_row (sort_key row_key us)"
proof (induction us)
  case (Cons u us)
  have "insort_key row_key (hide_row u) (map hide_row vs) = map hide_row (insort_key row_key u vs)" for vs
    by (induction vs) auto
  with Cons show ?case by simp
qed simp

subsection \<open>Statements\<close>

definition blind_stmt :: "('a \<Rightarrow> 'b) \<Rightarrow> 'a stmt \<Rightarrow> bool" where
  "blind_stmt v st \<longleftrightarrow> (\<forall>now new d.
     map_sum id v (fst (st now new d)) = map_sum id v (fst (st now new (hide_db d)))
     \<and> hide_db (snd (st now new d)) = hide_db (snd (st now new (hide_db d))))"

lemma blind_stmts:
  "blind_stmt hide_row (sql_create_user arg)" "blind_stmt hide_row (sql_get_user_by_id i)"
  "blind_stmt (map hide_row) (sql_list_users larg)" "blind_stmt id (sql_delete_user i)"
proof -
  show "blind_stmt hide_row (sql_create_user arg)"
    by (auto simp: blind_stmt_def sql_create_user_def Let_def list_ex_iff intro!: hide_db_eqI)
  show "blind_stmt hide_row (sql_get_user_by_id i)"
    by (auto simp: blind_stmt_def sql_get_user_by_id_def find_map o_def split: option.split)
  show "blind_stmt (map hide_row) (sql_list_users larg)"
    by (auto simp: blind_stmt_def sql_list_users_def filter_map o_def sort_rows_hide rev_map take_map)
  show "blind_stmt id (sql_delete_user i)"
    by (auto simp: blind_stmt_def sql_delete_user_def list_ex_iff filter_map o_def hide_db_def)
qed

lemma blind_update: "blind_stmt hide_row (sql_update_user arg)"
  unfolding blind_stmt_def
proof (intro allI)
  fix now new d
  have ex: "list_ex (\<lambda>v. ur_id v \<noteq> i \<and> ur_email v = e) (map hide_row us) = list_ex (\<lambda>v. ur_id v \<noteq> i \<and> ur_email v = e) us" for i e us
    by (simp add: list_ex_iff)
  show "map_sum id hide_row (fst (sql_update_user arg now new d)) = map_sum id hide_row (fst (sql_update_user arg now new (hide_db d)))
    \<and> hide_db (snd (sql_update_user arg now new d)) = hide_db (snd (sql_update_user arg now new (hide_db d)))"
  proof (cases "find (\<lambda>u. ur_id u = uup_id arg) (users_tbl d)")
    case None
    then show ?thesis by (simp add: sql_update_user_def find_map o_def)
  next
    case (Some u)
    then show ?thesis
      by (auto simp: sql_update_user_def find_map o_def Let_def ex hide_row_def [of u]
          intro!: hide_db_eqI) (auto simp: hide_row_def)
  qed
qed

subsection \<open>The repository\<close>

lemma hide_eqD:
  assumes "hide x = hide y"
  shows "tick x = tick y" "fault_at x = fault_at y" "db_clock_at x = db_clock_at y"
    "db_uuid_at x = db_uuid_at y" "ts_store x = ts_store y" "hide_db (db x) = hide_db (db y)"
    "hide (next_tick x) = hide (next_tick y)"
    "hide_db d = hide_db e \<Longrightarrow> hide ((next_tick x)\<lparr>db := d\<rparr>) = hide ((next_tick y)\<lparr>db := e\<rparr>)"
proof -
  show "tick x = tick y" using arg_cong [OF assms, of tick] by (simp add: hide_def)
  show "fault_at x = fault_at y" using arg_cong [OF assms, of fault_at] by (simp add: hide_def)
  show "db_clock_at x = db_clock_at y" using arg_cong [OF assms, of db_clock_at] by (simp add: hide_def)
  show "db_uuid_at x = db_uuid_at y" using arg_cong [OF assms, of db_uuid_at] by (simp add: hide_def)
  show "ts_store x = ts_store y" using arg_cong [OF assms, of ts_store] by (simp add: hide_def)
  show "hide_db (db x) = hide_db (db y)" using arg_cong [OF assms, of db] by (simp add: hide_def)
  have commute: "hide (next_tick z) = next_tick (hide z)" for z by (simp add: hide_def next_tick_def)
  show step: "hide (next_tick x) = hide (next_tick y)" by (simp only: commute assms)
  have set_db: "hide (z\<lparr>db := d\<rparr>) = (hide z)\<lparr>db := hide_db d\<rparr>" for z d by (simp add: hide_def)
  show "hide ((next_tick x)\<lparr>db := d\<rparr>) = hide ((next_tick y)\<lparr>db := e\<rparr>)" if "hide_db d = hide_db e"
    by (simp only: set_db step that)
qed

lemma blind_run:
  assumes "blind_stmt v st"
  shows "blind (map_sum id v) (run_stmt \<lparr>q_db = On_Pool\<rparr> st)"
  unfolding blind_def
proof (intro allI impI)
  fix x y assume eq: "hide x = hide y"
  note same = hide_eqD [OF eq]
  have out: "map_sum id v (fst (stmt_out st x)) = map_sum id v (fst (stmt_out st y))
    \<and> hide_db (snd (stmt_out st x)) = hide_db (snd (stmt_out st y))"
    using assms same(6) unfolding blind_stmt_def stmt_out_def same(1,3,4) by metis
  show "map_sum id v (fst (run_stmt \<lparr>q_db = On_Pool\<rparr> st x)) = map_sum id v (fst (run_stmt \<lparr>q_db = On_Pool\<rparr> st y))
    \<and> hide (snd (run_stmt \<lparr>q_db = On_Pool\<rparr> st x)) = hide (snd (run_stmt \<lparr>q_db = On_Pool\<rparr> st y))"
    using out same(7,8) same(1,2)
    by (auto simp: run_stmt_def run_on_pool_def split: option.split fault.split)
qed

text \<open>What is done with an answer, as long as it does not look at what \<open>v\<close> hides.\<close>

lemma blind_map:
  assumes "blind v f" and "\<And>a b. v a = v b \<Longrightarrow> u (g a) = u (g b)"
  shows "blind u (\<lambda>x. case f x of (a, x') \<Rightarrow> (g a, x'))"
  unfolding blind_def
proof (intro allI impI)
  fix x y assume "hide x = hide y"
  moreover obtain a x' b y' where "f x = (a, x')" "f y = (b, y')" by fastforce
  ultimately have "v a = v b" "hide x' = hide y'" using blindD [OF assms(1)] by blast+
  then have "u (g a) = u (g b)" "hide x' = hide y'" by (blast intro: assms(2))+
  with \<open>f x = _\<close> \<open>f y = _\<close>
  show "u (fst (case f x of (a, x') \<Rightarrow> (g a, x'))) = u (fst (case f y of (a, x') \<Rightarrow> (g a, x')))
    \<and> hide (snd (case f x of (a, x') \<Rightarrow> (g a, x'))) = hide (snd (case f y of (a, x') \<Rightarrow> (g a, x')))"
    by simp
qed

text \<open>The operation after the state moved on.\<close>

lemma blind_tick:
  assumes "blind v f"
  shows "blind v (\<lambda>x. f (next_tick x))"
  using assms hide_eqD(7) unfolding blind_def by blast

lemma map_sum_same: "map_sum id v a = map_sum id v b \<Longrightarrow>
    (\<exists>e. a = Inl e \<and> b = Inl e) \<or> (\<exists>x y. a = Inr x \<and> b = Inr y \<and> v x = v y)"
  by (cases a; cases b) auto

lemma map_sum_comp: "map_sum id u (map_sum id v a) = map_sum id (\<lambda>x. u (v x)) a"
  by (cases a) auto

lemma blind_model:
  assumes "blind (map_sum id hide_row) f"
  shows "blind (map_sum id hide_user) (\<lambda>x. case f x of (a, x') \<Rightarrow> (map_sum id user_to_model a, x'))"
  using assms by (rule blind_map) (auto dest!: map_sum_same simp: hide_user_to_model)

lemma blind_repo:
  "blind (map_sum id hide_user) (user_repo_create pool_users c)"
  "blind (map_sum id hide_user) (user_repo_get_by_id pool_users i)"
  "blind (map_sum id hide_user) (user_repo_update pool_users i p)"
  "blind (map_sum id (map hide_user)) (user_repo_list pool_users inp)"
  "blind id (user_repo_delete pool_users i)"
proof -
  have eq: "(case f x of (Inl err, w1) \<Rightarrow> (Inl err, w1) | (Inr row, w1) \<Rightarrow> (Inr (g row), w1))
      = (case f x of (a, x') \<Rightarrow> (map_sum id g a, x'))" for f :: "world \<Rightarrow> (go_error + 'c) \<times> world" and g :: "'c \<Rightarrow> 'e" and x
    by (auto split: prod.split sum.split)
  show "blind (map_sum id hide_user) (user_repo_create pool_users c)"
    "blind (map_sum id hide_user) (user_repo_get_by_id pool_users i)"
    "blind (map_sum id hide_user) (user_repo_update pool_users i p)"
    unfolding user_repo_defs pool_queries eq
    by (intro blind_model blind_run blind_stmts blind_update)+
  show "blind (map_sum id (map hide_user)) (user_repo_list pool_users inp)"
  proof -
    let ?arg = "list_params inp" let ?c = "lup_cursor_created_at ?arg"
    let ?st = "\<lambda>w. sql_list_users (?arg\<lparr>lup_cursor_created_at := ?c\<lparr>nt_time := ts_store w (nt_time ?c)\<rparr>\<rparr>)"
    have model: "map_sum id (map hide_user) (map_sum id (map user_to_model) a)
        = map_sum id (map hide_user) (map_sum id (map user_to_model) b)"
      if "map_sum id (map hide_row) a = map_sum id (map hide_row) b" for a b
    proof -
      have "map hide_user (map user_to_model rs) = map user_to_model (map hide_row rs)" for rs
        by (simp add: hide_user_to_model o_def)
      with map_sum_same [OF that] show ?thesis
        by (elim disjE exE conjE) (simp_all only: map_sum.simps id_apply)
    qed
    show ?thesis
      unfolding blind_def
    proof (intro allI impI)
      fix x y assume eq: "hide x = hide y"
      have st: "?st x = ?st y" using hide_eqD(5) [OF eq] by simp
      obtain a x' b y' where runs: "run_stmt \<lparr>q_db = On_Pool\<rparr> (?st x) x = (a, x')"
          "run_stmt \<lparr>q_db = On_Pool\<rparr> (?st y) y = (b, y')" by fastforce
      have "blind (map_sum id (map hide_row)) (run_stmt \<lparr>q_db = On_Pool\<rparr> (?st y))"
        by (intro blind_run blind_stmts)
      from blindD [OF this eq runs(1) [unfolded st] runs(2)]
      have same: "map_sum id (map hide_row) a = map_sum id (map hide_row) b" "hide x' = hide y'"
        by blast+
      have "user_repo_list pool_users inp x = (map_sum id (map user_to_model) a, x')"
        "user_repo_list pool_users inp y = (map_sum id (map user_to_model) b, y')"
        using runs by (auto simp: user_repo_list_def q_list_users_def Let_def split: sum.split)
      with model [OF same(1)] same(2) show "map_sum id (map hide_user) (fst (user_repo_list pool_users inp x))
          = map_sum id (map hide_user) (fst (user_repo_list pool_users inp y))
        \<and> hide (snd (user_repo_list pool_users inp x)) = hide (snd (user_repo_list pool_users inp y))" by (simp only: fst_conv snd_conv simp_thms)
    qed
  qed
  have "(case f x of (Inl e, w1) \<Rightarrow> (Some e, w1) | (Inr u, w1) \<Rightarrow> (None, w1))
      = (case f x of (a, x') \<Rightarrow> (case a of Inl e \<Rightarrow> Some e | Inr u \<Rightarrow> None, x'))"
    for f :: "world \<Rightarrow> (go_error + unit) \<times> world" and x
    by (auto split: prod.split sum.split)
  moreover have "blind id (\<lambda>x. case run_stmt \<lparr>q_db = On_Pool\<rparr> (sql_delete_user i) x of
      (a, x') \<Rightarrow> (case a of Inl e \<Rightarrow> Some e | Inr u \<Rightarrow> None, x'))"
    by (rule blind_map [OF blind_run [OF blind_stmts(4)]]) (auto dest!: map_sum_same)
  ultimately show "blind id (user_repo_delete pool_users i)"
    unfolding user_repo_delete_def q_delete_user_def pool_queries by simp
qed

subsection \<open>The service\<close>

text \<open>\<open>bcrypt\<close> draws its salt from the state; both worlds are at the same tick.\<close>

lemma blind_service_get:
  "blind (map_sum id hide_user) (user_service_get pool_user_service i)"
proof -
  let ?err = "\<lambda>err. if errors_is err Err_No_Rows then Err_User_Not_Found else Wrapf ''get user'' err"
  have run: "user_service_get pool_user_service i = (\<lambda>w. case user_repo_get_by_id pool_users i w of
      (a, w1) \<Rightarrow> (map_sum ?err id a, w1))"
    by (rule ext) (auto simp: user_service_get_def as_user_repo_def split: prod.split sum.split)
  have seen: "map_sum id hide_user (map_sum ?err id a) = map_sum id hide_user (map_sum ?err id b)"
    if "map_sum id hide_user a = map_sum id hide_user b" for a b
    using map_sum_same [OF that] by auto
  show ?thesis unfolding run by (rule blind_map [OF blind_repo(2)]) (rule seen)
qed

lemma hide_user_sel:
  "hide_user u = hide_user v \<Longrightarrow> u_id u = u_id v \<and> u_email u = u_email v \<and> u_name u = u_name v
    \<and> u_created_at u = u_created_at v \<and> u_updated_at u = u_updated_at v"
  by (cases u; cases v) (simp add: hide_user_def)

definition hide_result :: "list_result \<Rightarrow> list_result" where
  "hide_result r = r\<lparr>lr_users := map hide_user (lr_users r)\<rparr>"

lemma blind_service_list:
  "blind (map_sum id hide_result) (user_service_list pool_user_service l c)"
proof -
  let ?lim = "clamp_limit l"
  let ?next = "\<lambda>us. if int (length us) = sint ?lim
      then let l = us ! (length us - 1) in Some \<lparr>pc_created_at = u_created_at l, pc_id = u_id l\<rparr> else None"
  let ?res = "\<lambda>us. \<lparr>lr_users = us, lr_next_cursor = ?next us\<rparr>"
  have run: "user_service_list pool_user_service l c = (\<lambda>w. case user_repo_list pool_users
      \<lparr>lui_limit = ?lim, lui_cursor = c\<rparr> w of (a, w1) \<Rightarrow> (map_sum (Wrapf ''list users'') ?res a, w1))"
    by (rule ext) (auto simp: user_service_list_def as_user_repo_def Let_def split: prod.split sum.split)
  have seen: "map_sum id hide_result (map_sum (Wrapf ''list users'') ?res a)
      = map_sum id hide_result (map_sum (Wrapf ''list users'') ?res b)"
    if eq: "map_sum id (map hide_user) a = map_sum id (map hide_user) b" for a b
  proof -
    have res: "hide_result (?res us) = hide_result (?res vs)" if us: "map hide_user us = map hide_user vs" for us vs
    proof -
      have len: "length us = length vs" using us by (rule map_eq_imp_length_eq)
      have "?next us = ?next vs"
      proof (cases "int (length us) = sint ?lim")
        case True
        then have last: "length us - 1 < length us" using clamp_limit_range [of l] by auto
        have "hide_user (us ! (length us - 1)) = hide_user (vs ! (length us - 1))"
          using us last len by (metis nth_map)
        from hide_user_sel [OF this] len show ?thesis by (simp add: Let_def)
      qed (simp add: len)
      with us show ?thesis by (simp add: hide_result_def)
    qed
    from map_sum_same [OF eq] consider e where "a = Inl e" "b = Inl e"
      | us vs where "a = Inr us" "b = Inr vs" "map hide_user us = map hide_user vs" by blast
    then show ?thesis
    proof cases
      case (2 us vs)
      from res [OF 2(3)] show ?thesis unfolding 2(1,2) map_sum.simps by (rule arg_cong)
    qed simp
  qed
  show ?thesis unfolding run by (rule blind_map [OF blind_repo(4)]) (rule seen)
qed

lemma blind_service_create:
  "blind (map_sum id hide_user) (user_service_create B pool_user_service inp)"
  unfolding blind_def
proof (intro allI impI)
  fix x y assume eq: "hide x = hide y"
  note same = hide_eqD(1,7) [OF eq]
  show "map_sum id hide_user (fst (user_service_create B pool_user_service inp x))
      = map_sum id hide_user (fst (user_service_create B pool_user_service inp y))
    \<and> hide (snd (user_service_create B pool_user_service inp x))
      = hide (snd (user_service_create B pool_user_service inp y))"
  proof (cases "bc_generate B (tick y) bcrypt_default_cost (cui_password inp)")
    case (Inl e)
    with same show ?thesis by (simp add: user_service_create_def hash_password_def)
  next
    case (Inr h)
    let ?c = "\<lparr>uc_email = cui_email inp, uc_password_hash = h, uc_name = cui_name inp\<rparr>"
    obtain a x' b y' where runs: "user_repo_create pool_users ?c (next_tick x) = (a, x')"
        "user_repo_create pool_users ?c (next_tick y) = (b, y')" by fastforce
    with blindD [OF blind_repo(1) same(2)] have out: "map_sum id hide_user a = map_sum id hide_user b" "hide x' = hide y'"
      by blast+
    from map_sum_same [OF out(1)] out(2) show ?thesis
      using Inr runs same(1)
      by (auto simp: user_service_create_def hash_password_def as_user_repo_def)
  qed
qed

lemma blind_service_update:
  "blind (map_sum id hide_user) (user_service_update B pool_user_service i inp)"
  unfolding blind_def
proof (intro allI impI)
  fix x y assume eq: "hide x = hide y"
  note same = hide_eqD(1,7) [OF eq]
  let ?err = "\<lambda>err. if errors_is err Err_No_Rows then Err_User_Not_Found
    else if is_unique_violation err then Err_Email_Already_Exists else Wrapf ''update user'' err"
  have core: "map_sum id hide_user (map_sum ?err id (fst (user_repo_update pool_users i p x1)))
      = map_sum id hide_user (map_sum ?err id (fst (user_repo_update pool_users i p y1)))
    \<and> hide (snd (user_repo_update pool_users i p x1)) = hide (snd (user_repo_update pool_users i p y1))"
    if "hide x1 = hide y1" for p x1 y1
  proof -
    obtain a x' b y' where runs: "user_repo_update pool_users i p x1 = (a, x')"
        "user_repo_update pool_users i p y1 = (b, y')" by fastforce
    with blindD [OF blind_repo(3) that] have out: "map_sum id hide_user a = map_sum id hide_user b" "hide x' = hide y'"
      by blast+
    from map_sum_same [OF out(1)] out(2) runs show ?thesis by auto
  qed
  have run: "user_service_update B pool_user_service i inp z = (case uui_password inp of
      None \<Rightarrow> apfst (map_sum ?err id) (user_repo_update pool_users i
        \<lparr>uu_email = uui_email inp, uu_password_hash = None, uu_name = uui_name inp\<rparr> z)
    | Some pw \<Rightarrow> (case bc_generate B (tick z) bcrypt_default_cost pw of
        Inl e \<Rightarrow> (Inl (Wrapf ''hash password'' e), next_tick z)
      | Inr h \<Rightarrow> apfst (map_sum ?err id) (user_repo_update pool_users i
          \<lparr>uu_email = uui_email inp, uu_password_hash = Some h, uu_name = uui_name inp\<rparr> (next_tick z))))" for z
    by (auto simp: user_service_update_def hash_password_def as_user_repo_def split: option.split sum.split prod.split)
  show "map_sum id hide_user (fst (user_service_update B pool_user_service i inp x))
      = map_sum id hide_user (fst (user_service_update B pool_user_service i inp y))
    \<and> hide (snd (user_service_update B pool_user_service i inp x))
      = hide (snd (user_service_update B pool_user_service i inp y))"
    unfolding run same(1)
    using core [OF eq] core [OF same(2)] same(2)
    by (simp split: option.split sum.split)
qed

lemma blind_service_delete: "blind id (user_service_delete pool_user_service i)"
proof -
  have run: "user_service_delete pool_user_service i = (\<lambda>w. case user_repo_delete pool_users i w of
      (a, w1) \<Rightarrow> (map_option (Wrapf ''delete user'') a, w1))"
    by (rule ext) (auto simp: user_service_delete_def as_user_repo_def split: prod.split option.split)
  show ?thesis unfolding run by (rule blind_map [OF blind_repo(5)]) simp
qed

subsection \<open>The endpoints\<close>

text \<open>A response is made from what \<open>toUserResponse\<close> copies, and it does not copy the hash.\<close>

lemma to_user_response_hide: "hide_user u = hide_user v \<Longrightarrow> to_user_response u = to_user_response v"
  using hide_user_sel [of u v] by (simp add: to_user_response_def)

lemma list_response_hide:
  assumes "hide_result a = hide_result b"
  shows "list_response a = list_response b"
proof -
  have users: "map hide_user (lr_users a) = map hide_user (lr_users b)" and "lr_next_cursor a = lr_next_cursor b"
    using arg_cong [OF assms, of lr_users] arg_cong [OF assms, of lr_next_cursor] by (simp_all add: hide_result_def)
  moreover have "map to_user_response (lr_users a) = map to_user_response (lr_users b)"
  proof (rule nth_equalityI)
    show len: "length (map to_user_response (lr_users a)) = length (map to_user_response (lr_users b))"
      using map_eq_imp_length_eq [OF users] by simp
    fix k assume k: "k < length (map to_user_response (lr_users a))"
    then have "hide_user (lr_users a ! k) = hide_user (lr_users b ! k)"
      using arg_cong [OF users, of "\<lambda>l. l ! k"] len by simp
    from to_user_response_hide [OF this] k len
    show "map to_user_response (lr_users a) ! k = map to_user_response (lr_users b) ! k" by simp
  qed
  ultimately show ?thesis by (simp add: list_response_def)
qed

lemma blind_const: "blind id (\<lambda>s. (w, s))"
  by (simp add: blind_def)

lemma blind_answer:
  fixes f :: "world \<Rightarrow> (go_error + 'c) \<times> world"
  assumes "blind (map_sum id v) f" and "\<And>a b. v a = v b \<Longrightarrow> good a = good b"
  shows "blind id (\<lambda>s. case f s of (Inl err, s1) \<Rightarrow> (bad err, s1) | (Inr u, s1) \<Rightarrow> (good u, s1))"
proof -
  have run: "(\<lambda>s. case f s of (Inl err, s1) \<Rightarrow> (bad err, s1) | (Inr u, s1) \<Rightarrow> (good u, s1))
      = (\<lambda>s. case f s of (a, s1) \<Rightarrow> (case_sum bad good a, s1))"
    by (auto split: prod.split sum.split)
  show ?thesis
    unfolding run
  proof (rule blind_map [OF assms(1)])
    fix a b :: "go_error + 'c" assume "map_sum id v a = map_sum id v b"
    from map_sum_same [OF this] consider e where "a = Inl e" "b = Inl e"
      | x y where "a = Inr x" "b = Inr y" "v x = v y" by blast
    then show "id (case_sum bad good a) = id (case_sum bad good b)"
    proof cases
      case (2 x y)
      from assms(2) [OF 2(3)] show ?thesis unfolding 2(1,2) by simp
    qed simp
  qed
qed

lemma blind_endpoints:
  assumes "uh_svc h = as_user_service_iface B pool_user_service"
  shows "blind id (user_handler_create L h r w)" "blind id (user_handler_get L h r w)"
    "blind id (user_handler_list L h r w)" "blind id (user_handler_update L h r w)"
    "blind id (user_handler_delete L h r w)"
proof -
  note svc = assms user_iface_sel
  have delete: "(\<lambda>s. case f s of (Some err, s1) \<Rightarrow> (bad err, s1) | (None, s1) \<Rightarrow> (good, s1))
      = (\<lambda>s. case f s of (a, s1) \<Rightarrow> (case a of Some err \<Rightarrow> bad err | None \<Rightarrow> good, s1))"
    for f :: "world \<Rightarrow> go_error option \<times> world" and bad and good :: response_writer
    by (auto split: prod.split option.split)
  show "blind id (user_handler_create L h r w)"
    unfolding user_handler_create_def [abs_def] svc
    by (cases "decode_and_validate (uh_validator h) store_create_request create_request_checks r w zero_create_request")
      (auto simp: blind_const intro!: blind_answer [OF blind_service_create] dest: to_user_response_hide)
  show "blind id (user_handler_get L h r w)"
    unfolding user_handler_get_def [abs_def] svc
    by (cases "parse_user_id L r w")
      (auto simp: blind_const intro!: blind_answer [OF blind_service_get] dest: to_user_response_hide)
  show "blind id (user_handler_list L h r w)"
    unfolding user_handler_list_def [abs_def] svc
    by (intro blind_answer [OF blind_service_list]) (auto dest: list_response_hide)
  show "blind id (user_handler_update L h r w)"
    unfolding user_handler_update_def [abs_def] svc
    by (cases "parse_user_id L r w";
        cases "decode_and_validate (uh_validator h) store_update_request update_request_checks r w zero_update_request")
      (auto simp: blind_const intro!: blind_answer [OF blind_service_update] dest: to_user_response_hide)
  show "blind id (user_handler_delete L h r w)"
    unfolding user_handler_delete_def [abs_def] svc
    by (cases "parse_user_id L r w") (auto simp: blind_const delete intro!: blind_map [OF blind_service_delete])
qed

end
