(* ===== verification/Api_User_Claims.thy ===== *)
theory Api_User_Claims
  imports Api_Samples Hash_Secrecy
begin

section \<open>Properties of the user endpoints\<close>

text \<open>
  What the endpoints of \<open>UserHandler\<close> reveal, accept and answer, over the service and the
  tables behind them.
\<close>

text \<open>C11. Nothing the user endpoints answer depends on a stored password hash, and neither does what
  they store apart from the hashes: from two states that differ only in password hashes, every
  request gets the same response, and the states differ only in hashes again.\<close>

theorem responses_hide_password_hashes:
  assumes "hide x = hide y" and "uh_svc uh = as_user_service_iface B pool_user_service"
    and "h \<in> {user_handler_create L uh, user_handler_get L uh, user_handler_list L uh,
      user_handler_update L uh, user_handler_delete L uh}"
  shows "fst (h r w x) = fst (h r w y) \<and> hide (snd (h r w x)) = hide (snd (h r w y))"
proof -
  from assms(3) have "blind id (h r w)" using blind_endpoints [OF assms(2)] by auto
  from this [unfolded blind_def id_apply] assms(1) show ?thesis by blast
qed

definition other_hash_world :: world where
  "other_hash_world = (sample_world [])\<lparr>db := \<lparr>users_tbl = [sample_user\<lparr>ur_password_hash := ''hash:other''\<rparr>], tokens_tbl = []\<rparr>\<rparr>"

theorem responses_hide_password_hashes_witness:
  "world_users other_hash_world \<noteq> world_users (sample_world [])
   \<and> fst (user_handler_list sample_uuid (new_user_handler sample_validator (as_user_service_iface sample_bcrypt pool_user_service))
        sample_request new_writer (sample_world []))
     = fst (user_handler_list sample_uuid (new_user_handler sample_validator (as_user_service_iface sample_bcrypt pool_user_service))
        sample_request new_writer other_hash_world)"
proof -
  let ?uh = "new_user_handler sample_validator (as_user_service_iface sample_bcrypt pool_user_service)"
  have "hide (sample_world []) = hide other_hash_world"
    by (simp add: hide_def hide_db_def hide_row_def other_hash_world_def sample_world_def)
  from responses_hide_password_hashes [OF this, of ?uh sample_bcrypt "user_handler_list sample_uuid ?uh" sample_uuid
      sample_request new_writer]
  have "fst (user_handler_list sample_uuid ?uh sample_request new_writer (sample_world []))
      = fst (user_handler_list sample_uuid ?uh sample_request new_writer other_hash_world)"
    by (simp add: new_user_handler_def)
  moreover have "world_users other_hash_world \<noteq> world_users (sample_world [])"
    by (simp add: other_hash_world_def world_users_def user_to_model_def sample_user_def)
  ultimately show ?thesis by simp
qed

text \<open>C12. Registration admits only what the rules admit: a 201 means that the body was a JSON object
  whose fields keep the rules of \<open>createUserRequest\<close>, that exactly one user with these fields was
  added, and that the response describes that user.\<close>

theorem registration_checks_input:
  assumes "validator_documented (uh_validator uh) is_email"
    and "uh_svc uh = as_user_service_iface B pool_user_service" and "rw_status w = None"
    and "user_handler_create L uh r w x = (w', x')" and "rw_status w' = Some 201"
  shows "\<exists>req u. decode_json store_create_request r zero_create_request = Inr req
    \<and> is_email (cur_email req) \<and> string_runes (cur_email req) \<le> 254
    \<and> string_runes (cur_password req) \<in> {8..72} \<and> string_runes (cur_name req) \<in> {1..100}
    \<and> world_users x' = world_users x @ [u] \<and> u_email u = cur_email req \<and> u_name u = cur_name req
    \<and> w' = respond_json 201 (Some (marshal_user_response L (to_user_response u))) w"
  using assms(4,2)
proof (cases rule: users_served.create_endpoint)
  case (invalid code msg)
  with assms(3,5) show ?thesis by simp
next
  case (created req u)
  from decode_and_validate_Inr [OF created(1) assms(1)] created show ?thesis
    by (intro exI [of _ req] exI [of _ u]) (simp add: create_request_checks_def field_ok_def)
next
  case (failed req e)
  with assms(3,5) show ?thesis by (simp add: respond_service_error_def split: if_split_asm)
qed

theorem registration_checks_input_witness:
  "\<exists>w' x' u. user_handler_create sample_uuid (new_user_handler sample_validator (as_user_service_iface sample_bcrypt pool_user_service))
       registration_request new_writer (sample_world []) = (w', x')
     \<and> world_users x' = [user_to_model sample_user, u] \<and> u_email u = ''bo@example.com'' \<and> rw_status w' = Some 201"
proof -
  let ?uh = "new_user_handler sample_validator (as_user_service_iface sample_bcrypt pool_user_service)"
  obtain w' x' where run: "user_handler_create sample_uuid ?uh registration_request new_writer (sample_world []) = (w', x')"
    by fastforce
  have created: "rw_status w' = Some 201"
    using run by (rule registration_accepted)
  from registration_checks_input [OF _ _ _ run created, of sample_email sample_bcrypt]
  obtain u where "world_users x' = [user_to_model sample_user, u]" "u_email u = ''bo@example.com''"
    by (auto simp: decode_registration sample_validator_documented new_user_handler_def sample_registration_def)
  with run created show ?thesis by blast
qed

text \<open>C28. A client that marshals the fields of \<open>createUserRequest\<close> is understood: the body
  decodes to exactly these fields, up to the replacement of bytes that are not UTF-8, whatever
  may follow it.\<close>

theorem create_request_decodes:
  assumes "rq_body r = json_render (create_request_json q) @ t" and "rq_body_error r = None"
    and "number_end t" and "length (rq_body r) \<le> max_request_body_bytes"
  shows "decode_json store_create_request r zero_create_request = Inr \<lparr>cur_email = clean_string (cur_email q),
    cur_password = clean_string (cur_password q), cur_name = clean_string (cur_name q)\<rparr>"
  using assms by (rule decode_create_request)

theorem create_request_decodes_witness:
  "decode_json store_create_request registration_request zero_create_request
    = Inr \<lparr>cur_email = ''bo@example.com'', cur_password = ''open sesame'', cur_name = ''Bo''\<rparr>"
proof -
  have "ascii (cur_email sample_registration)" "ascii (cur_password sample_registration)" "ascii (cur_name sample_registration)"
    by (simp_all add: sample_registration_def ascii_def)
  then show ?thesis
    using create_request_decodes [of registration_request sample_registration "[]"]
    by (simp add: registration_request_def sample_request_def number_end_def registration_body max_request_body_bytes_def)
      (simp add: sample_registration_def)
qed

subsection \<open>The list\<close>

text \<open>The abstract page: the users after the cursor, newest first, cut at the limit, and the key of
  the last one if the page is full.\<close>

definition page_spec :: "user list \<Rightarrow> nat \<Rightarrow> page_cursor option \<Rightarrow> list_result" where
  "page_spec us n c =
     (let p = user_page n c us
      in \<lparr>lr_users = p, lr_next_cursor = (if length p = n then Some (cursor_of (last p)) else None)\<rparr>)"

lemma parse_limit_range: "1 \<le> sint (parse_limit r) \<and> sint (parse_limit r) \<le> 100"
proof -
  have "sint (word_of_int n :: int32) = n" if "0 < n" "n \<le> 100" for n
    using that by (simp add: sint_sbintrunc' signed_take_bit_int_eq_self)
  then show ?thesis by (auto simp: parse_limit_def Let_def split: option.split)
qed

text \<open>C13. The list endpoint implements the abstract page: while the database answers, its response is
  the JSON of \<open>page_spec\<close> for the limit and the cursor of the query (20 and none when they are
  missing or malformed), and nothing changes.\<close>

theorem list_endpoint_refines_page:
  assumes "uh_svc uh = as_user_service_iface B pool_user_service" and "world_quiet_users x"
    and "\<And>k. parse_cursor L r = Some k \<Longrightarrow> ts_store x (pc_created_at k) = pc_created_at k"
    and "user_handler_list L uh r w x = (w', x')"
  shows "w' = respond_json 200 (Some (marshal_list_response L (list_response
      (page_spec (world_users x) (nat (sint (parse_limit r))) (parse_cursor L r))))) w
    \<and> world_users x' = world_users x"
proof -
  obtain res x1 where run: "user_service_list pool_user_service (parse_limit r) (parse_cursor L r) x = (Inr res, x1)"
    using live_user.user_list_live [OF pool_user_service_sel assms(2)] by blast
  have "clamp_limit (parse_limit r) = parse_limit r" using parse_limit_range by (intro clamp_limit_id) simp_all
  with users.user_list_bound [OF run pool_user_service_sel assms(3)]
  have "res = page_spec (world_users x) (nat (sint (parse_limit r))) (parse_cursor L r)" "world_users x1 = world_users x"
    by (auto simp: page_spec_def Let_def intro: list_result.equality)
  with assms(4) run show ?thesis by (simp add: user_handler_list_def assms(1))
qed

theorem list_endpoint_refines_page_witness:
  "\<exists>x'. user_handler_list sample_uuid (new_user_handler sample_validator (as_user_service_iface sample_bcrypt pool_user_service))
      sample_request new_writer (sample_world []) =
    (respond_json 200 (Some (marshal_list_response sample_uuid
       \<lparr>lur_users = [to_user_response (user_to_model sample_user)], lur_next_cursor = None\<rparr>)) new_writer, x')"
proof -
  let ?uh = "new_user_handler sample_validator (as_user_service_iface sample_bcrypt pool_user_service)"
  obtain w' x' where run: "user_handler_list sample_uuid ?uh sample_request new_writer (sample_world []) = (w', x')"
    by fastforce
  have query: "query_get sample_request k = ''''" for k
    by (simp add: query_get_def sample_request_def parse_query_def query_pair_def first_value_def)
  then have "parse_limit sample_request = 20" "parse_cursor sample_uuid sample_request = None"
    by (simp_all add: parse_limit_def parse_cursor_def)
  with list_endpoint_refines_page [OF _ sample_world_quiet_users _ run, of sample_bcrypt] run show ?thesis
    by (simp add: new_user_handler_def page_spec_def user_page_def after_cursor_def ordered_users_def list_response_def)
qed

text \<open>C27. The cursor of a page leads to the next one: a client that takes \<open>next_cursor\<close> from a
  response and sends its two members back, query-escaped, is answered for exactly the cursor the
  service returned (in a time zone of whole minutes; RFC 3339 has no seconds in offsets).\<close>

theorem next_cursor_round_trips:
  assumes "uuid_documented L" and "60 dvd ul_zone L (cr_created_at c)"
    and "marshal_cursor_response L c = Inr v" and "rq_raw_query r = cursor_query v"
  shows "parse_cursor L r = Some \<lparr>pc_created_at = cr_created_at c, pc_id = cr_id c\<rparr>"
  using assms by (rule cursor_round_trip)

theorem next_cursor_round_trips_witness:
  "parse_cursor sample_uuid (sample_request\<lparr>rq_raw_query :=
      ''cursor_created_at=1970-01-01T00%3A01%3A40Z&cursor_id=11''\<rparr>)
    = Some \<lparr>pc_created_at = 100 * second, pc_id = 1\<rparr>"
proof -
  let ?c = "\<lparr>cr_created_at = 100 * second, cr_id = 1\<rparr>"
  have v: "marshal_cursor_response sample_uuid ?c
      = Inr (J_Obj [(''created_at'', J_Str ''1970-01-01T00:01:40Z''), (''id'', J_Str ''11'')])"
    by (simp add: marshal_cursor_response_def marshal_time_def marshal_uuid_def as_object_def sample_uuid_def
        sample_time)
  have q: "cursor_query (J_Obj [(''created_at'', J_Str ''1970-01-01T00:01:40Z''), (''id'', J_Str ''11'')])
      = ''cursor_created_at=1970-01-01T00%3A01%3A40Z&cursor_id=11''"
    by code_simp
  have "60 dvd ul_zone sample_uuid (cr_created_at ?c)" by (simp add: sample_uuid_def)
  from next_cursor_round_trips [OF sample_uuid_documented this v, unfolded q] show ?thesis by simp
qed

end
