(* ===== verification/Api_Session_Claims.thy ===== *)
theory Api_Session_Claims
  imports Api_Samples
begin

section \<open>Properties of the session endpoints\<close>

text \<open>
  \<open>Login\<close>, \<open>Refresh\<close> and \<open>Logout\<close> as a browser sees them: what becomes of the refresh
  token in its cookie, what a refresh demands, and what a logout does not tell.
\<close>

lemma sent_headers:
  "rw_status w = None \<Longrightarrow> kv \<in> set (rw_sent_header (respond_json c d w)) \<longleftrightarrow>
     kv \<in> set (rw_header w) \<and> fst kv \<noteq> ''Content-Type'' \<or> kv = (''Content-Type'', ''application/json'')"
  by (cases kv) (auto simp: respond_json_fresh header_set_def)

lemma cookie_sent:
  assumes "rw_status w = None" "plain_cookie_value v"
  shows "\<exists>attrs. (''Set-Cookie'', ''refresh_token='' @ v @ '';'' @ attrs) \<in> set (rw_sent_header (respond_tokens h a v w))"
  using assms by (auto simp: respond_tokens_def sent_headers set_refresh_cookie_header)

text \<open>The errors the endpoints report as 401.\<close>

definition session_errors :: "go_error list" where
  "session_errors = [Err_Invalid_Credentials, Err_Refresh_Token_Revoked, Err_Refresh_Token_Reuse,
     Err_Refresh_Token_Expired, Err_User_Not_Found]"

lemma respond_auth_error_status:
  "rw_status w = None \<Longrightarrow> rw_status (respond_auth_error w e) = Some (if list_ex (errors_is e) session_errors then 401 else 500)"
  by (simp add: respond_auth_error_def session_errors_def)

lemma respond_auth_error_cookie:
  "rw_status w = None \<Longrightarrow> rw_header w = [] \<Longrightarrow> ''Set-Cookie'' \<notin> fst ` set (rw_sent_header (respond_auth_error w e))"
  by (auto simp: respond_auth_error_def respond_error_def sent_headers)

text \<open>C26. The refresh token of a login survives the browser: the response to a successful login sets
  the cookie to the plaintext of the new session's token, whose digest was stored, and a request
  that brings this cookie back presents exactly this plaintext.\<close>

theorem login_cookie_round_trips:
  assumes "ah_svc h = as_auth_service_iface J B (pool_auth_service sg ttl)" and "rw_status w = None"
    and "auth_handler_login h r w x = (w', x')" and "rw_status w' = Some 200"
  shows "\<exists>plain t attrs. (''Set-Cookie'', ''refresh_token='' @ plain @ '';'' @ attrs) \<in> set (rw_sent_header w')
    \<and> world_tokens x' = world_tokens x @ [t] \<and> active t \<and> t_token_hash t = hash_refresh_token plain
    \<and> (\<forall>q. rq_header q = [(''Cookie'', ''refresh_token='' @ plain)] \<longrightarrow> read_refresh_cookie q = Some plain)"
proof -
  obtain req where req: "decode_and_validate (ah_validator h) store_login_request login_request_checks r w
      zero_login_request = Inr req"
    using assms(2-4) by (cases "decode_and_validate (ah_validator h) store_login_request login_request_checks r w
      zero_login_request") (auto simp: auth_handler_login_def dest: decode_and_validate_Inl)
  obtain res x1 where res: "auth_login J B (pool_auth_service sg ttl) (lg_email req) (lg_password req) x = (res, x1)"
    by fastforce
  obtain access plain where pair: "res = Inr (access, plain)"
    using assms(1-4) req res by (cases res) (auto simp: auth_handler_login_def respond_auth_error_status split: if_split_asm)
  have run: "auth_login J B (pool_auth_service sg ttl) (lg_email req) (lg_password req) x = (Inr (access, plain), x')"
    and w': "w' = respond_tokens h access plain w"
    using assms(1,3) req res pair by (simp_all add: auth_handler_login_def)
  from run pool_auth_service_sel(2,1) show ?thesis
  proof (cases rule: auth.login_cases)
    case (matched u k w2)
    from matched(6) pool_auth_service_sel(2) show ?thesis
    proof (cases rule: tokens.issue_cases)
      case (issued t a pl w4)
      let ?bs = "map (entropy_at w2 (tick w2)) [0..<32]"
      have plain: "plain = b64url_encode ?bs" using issued by simp
      obtain attrs where "(''Set-Cookie'', ''refresh_token='' @ plain @ '';'' @ attrs) \<in> set (rw_sent_header w')"
        using cookie_sent [OF assms(2) plain_refresh_token] unfolding w' plain by blast
      moreover have "read_refresh_cookie q = Some plain" if "rq_header q = [(''Cookie'', ''refresh_token='' @ plain)]" for q
        using that unfolding plain by (intro refresh_cookie_read_back) simp_all
      moreover have "world_tokens x' = world_tokens x @ [t]" "active t" "t_token_hash t = hash_refresh_token plain"
        using issued matched by simp_all
      ultimately show ?thesis by blast
    qed simp_all
  qed simp_all
qed

theorem login_cookie_round_trips_witness:
  "\<exists>w' x' plain. auth_handler_login sample_auth_handler login_request_sample new_writer (sample_world []) = (w', x')
     \<and> map t_token_hash (world_tokens x') = [hash_refresh_token plain]
     \<and> read_refresh_cookie (sample_request\<lparr>rq_header := [(''Cookie'', ''refresh_token='' @ plain)]\<rparr>) = Some plain"
proof -
  obtain w' x' where run: "auth_handler_login sample_auth_handler login_request_sample new_writer (sample_world []) = (w', x')"
    by fastforce
  from login_cookie_round_trips [OF sample_auth_handler_sel(1) _ run login_accepted [OF run]]
  obtain plain t where "world_tokens x' = [t]" "t_token_hash t = hash_refresh_token plain"
    "\<forall>q. rq_header q = [(''Cookie'', ''refresh_token='' @ plain)] \<longrightarrow> read_refresh_cookie q = Some plain"
    by auto
  with run show ?thesis by fastforce
qed

lemma refresh_plain:
  assumes "auth_refresh J (pool_auth_service sg ttl) p x = (Inr (access, plain), x')"
  shows "plain_cookie_value plain"
  using assms pool_auth_service_sel(2)
proof (cases rule: tokens.refresh_cases)
  case (revoked row k now w3)
  from revoked(8) pool_auth_service_sel(2) show ?thesis
    by (cases rule: tokens.issue_cases) (simp_all add: plain_refresh_token)
qed simp_all

text \<open>C4. A refresh over HTTP, whatever fails: without the cookie or without a bearer header it is
  refused with 401 before anything happens; otherwise the service decides. Its success is a 200
  that sets the new token's cookie; its failure is a 401 if the error is about the session (unknown,
  revoked, reused, expired), a 500 otherwise, and sets no cookie.\<close>

theorem refresh_endpoint_answers:
  assumes "ah_svc h = as_auth_service_iface J B (pool_auth_service sg ttl)"
    and "rw_status w = None" and "rw_header w = []" and "auth_handler_refresh h r w x = (w', x')"
  shows "(case (read_refresh_cookie r, bearer_token r) of
      (Some presented, Some _) \<Rightarrow>
        (case auth_refresh J (pool_auth_service sg ttl) presented x of
           (Inr (access, plain), x1) \<Rightarrow> x' = x1 \<and> rw_status w' = Some 200
             \<and> (\<exists>attrs. (''Set-Cookie'', ''refresh_token='' @ plain @ '';'' @ attrs) \<in> set (rw_sent_header w'))
         | (Inl e, x1) \<Rightarrow> x' = x1 \<and> ''Set-Cookie'' \<notin> fst ` set (rw_sent_header w')
             \<and> rw_status w' = Some (if list_ex (errors_is e) session_errors then 401 else 500))
    | _ \<Rightarrow> x' = x \<and> rw_status w' = Some 401 \<and> ''Set-Cookie'' \<notin> fst ` set (rw_sent_header w'))"
proof -
  have no_cookie: "''Set-Cookie'' \<notin> fst ` set (rw_sent_header (respond_error c code msg w))" for c code msg
    using assms(2,3) by (auto simp: respond_error_def sent_headers)
  show ?thesis
  proof (cases "read_refresh_cookie r")
    case None
    with assms(2,4) no_cookie show ?thesis by (auto simp: auth_handler_refresh_def)
  next
    case presented: (Some p)
    show ?thesis
    proof (cases "bearer_token r")
      case None
      with presented assms(2,4) no_cookie show ?thesis by (auto simp: auth_handler_refresh_def)
    next
      case (Some t)
      obtain res x1 where run: "auth_refresh J (pool_auth_service sg ttl) p x = (res, x1)" by fastforce
      show ?thesis
      proof (cases res)
        case (Inl e)
        with presented Some run assms show ?thesis
          by (auto simp: auth_handler_refresh_def respond_auth_error_status dest: respond_auth_error_cookie [THEN notE, rotated])
      next
        case (Inr pair)
        obtain access plain where pair: "pair = (access, plain)" by fastforce
        have "w' = respond_tokens h access plain w" "x' = x1"
          using presented Some run Inr pair assms by (auto simp: auth_handler_refresh_def)
        moreover have "plain_cookie_value plain" using refresh_plain [OF run [unfolded Inr pair]] .
        ultimately show ?thesis
          using presented Some run Inr pair cookie_sent [OF assms(2)] assms(2)
          by (auto simp: respond_tokens_def respond_json_fresh)
      qed
    qed
  qed
qed

theorem refresh_endpoint_answers_witness:
  "rw_status (fst (auth_handler_refresh sample_auth_handler sample_request new_writer (sample_world []))) = Some 401
   \<and> rw_status (fst (auth_handler_refresh sample_auth_handler (sample_request\<lparr>rq_header :=
        [(''Authorization'', ''Bearer x''), (''Cookie'', ''refresh_token=abc'')]\<rparr>) new_writer (sample_world []))) = Some 401"
proof -
  let ?r = "sample_request\<lparr>rq_header := [(''Authorization'', ''Bearer x''), (''Cookie'', ''refresh_token=abc'')]\<rparr>"
  note rule = refresh_endpoint_answers [OF sample_auth_handler_sel(1), of new_writer, OF _ _ prod.collapse [symmetric]]
  have none: "read_refresh_cookie sample_request = None"
    by (simp add: read_refresh_cookie_def request_cookie_def read_cookies_def sample_request_def)
  have some: "read_refresh_cookie ?r = Some ''abc''" by code_simp
  have bearer: "bearer_token ?r = Some ''x''" by code_simp
  have "fst (auth_refresh sample_jwt sample_auth ''abc'' (sample_world [])) = Inl Err_Refresh_Token_Revoked"
    by (simp add: auth_refresh_def sample_eval)
  then obtain x1 where "auth_refresh sample_jwt sample_auth ''abc'' (sample_world []) = (Inl Err_Refresh_Token_Revoked, x1)"
    by (metis prod.collapse)
  with rule [of sample_request "sample_world []"] rule [of ?r "sample_world []"] show ?thesis
    by (simp add: none some bearer session_errors_def)
qed

text \<open>A token that bought a new pair is revoked.\<close>

lemma refresh_success_revokes:
  assumes "auth_refresh J (pool_auth_service sg ttl) p x = (Inr pair, x')"
  obtains row row' where "row \<in> set (world_tokens x)" "active row" "t_token_hash row = hash_refresh_token p"
    "row' \<in> set (world_tokens x')" "\<not> active row'" "t_token_hash row' = hash_refresh_token p"
    "t_chain_id row' = t_chain_id row"
  using assms pool_auth_service_sel(2)
proof (cases rule: tokens.refresh_cases)
  case (revoked row k now w3)
  let ?row' = "row\<lparr>t_revoked_at := Some now, t_updated_at := now\<rparr>"
  have "?row' \<in> set (world_tokens w3)" using revoked by (auto simp: in_revoke_tokens)
  moreover have "set (world_tokens w3) \<subseteq> set (world_tokens x')"
    using tokens.issue_step [OF revoked(8) pool_auth_service_sel(2)] by auto
  ultimately show ?thesis using revoked(1-3) by (intro that [of row ?row']) auto
qed simp_all

lemma refresh_endpoint_success:
  assumes "ah_svc h = as_auth_service_iface J B (pool_auth_service sg ttl)" and "rw_status w = None"
    and "auth_handler_refresh h r w x = (w', x')" and "rw_status w' = Some 200"
  obtains p t pair where "read_refresh_cookie r = Some p" "bearer_token r = Some t"
    "auth_refresh J (pool_auth_service sg ttl) p x = (Inr pair, x')"
  using assms
  by (cases "fst (auth_refresh J (pool_auth_service sg ttl) (the (read_refresh_cookie r)) x)")
    (auto simp: auth_handler_refresh_def respond_auth_error_status split: option.splits sum.splits prod.splits if_split_asm)

text \<open>C6. A copied cookie does not survive its use: once a request with a refresh cookie has been
  answered with new tokens, the same request sent again, whatever logins, refreshes and logouts
  happened in between, is answered 401 as long as the database answers, and ends the whole
  session, the tokens of the copy's owner included.\<close>

theorem replayed_cookie_ends_session:
  assumes "ah_svc h = as_auth_service_iface J B (pool_auth_service sg ttl)" and "world_ok x"
    and "rw_status w = None" and "auth_handler_refresh h r w x = (w1, x1)" and "rw_status w1 = Some 200"
    and "x2 = run_ops J B (pool_auth_service sg ttl) ops x1" and "world_quiet x2"
    and "rw_status v = None" and "auth_handler_refresh h r v x2 = (w3, x3)"
  shows "rw_status w3 = Some 401 \<and> (\<exists>p. \<exists>row\<in>set (world_tokens x). read_refresh_cookie r = Some p
    \<and> t_token_hash row = hash_refresh_token p \<and> active row
    \<and> (\<forall>t\<in>set (world_tokens x3). t_chain_id t = t_chain_id row \<longrightarrow> \<not> active t))"
proof -
  let ?s = "pool_auth_service sg ttl"
  obtain p t pair where p: "read_refresh_cookie r = Some p" "bearer_token r = Some t" "auth_refresh J ?s p x = (Inr pair, x1)"
    using refresh_endpoint_success [OF assms(1,3-5)] by metis
  obtain row row' where row: "row \<in> set (world_tokens x)" "active row" "t_token_hash row = hash_refresh_token p"
      "row' \<in> set (world_tokens x1)" "\<not> active row'" "t_token_hash row' = hash_refresh_token p" "t_chain_id row' = t_chain_id row"
    using refresh_success_revokes [OF p(3)] by metis
  have "world_ok x1" using tokens.refresh_step [OF p(3) pool_auth_service_sel(2)] assms(2) by blast
  then have ok: "world_ok x2" using auth.run_ok [OF pool_auth_service_sel(2,1)] assms(6) by simp
  have stays: "row' \<in> set (world_tokens x2)"
    using auth.run_rows_stay [OF pool_auth_service_sel(2,1) row(4)] row(5) assms(6) by (fastforce simp: same_token_def)
  obtain res x4 where run: "auth_refresh J ?s p x2 = (res, x4)" by fastforce
  obtain now where reuse: "res = Inl Err_Refresh_Token_Reuse"
      "world_tokens x4 = revoke_tokens (\<lambda>t. t_chain_id t = t_chain_id row) now (world_tokens x2)"
    using live.reuse_ends_chain [OF pool_auth_service_sel(2) ok assms(7) stays row(6,5) run] row(7) by auto
  have "w3 = respond_auth_error v Err_Refresh_Token_Reuse" "x3 = x4"
    using assms(1,9) p run reuse(1) by (simp_all add: auth_handler_refresh_def)
  then show ?thesis
    using p(1) row reuse(2) revoke_tokens_inactive [where P = "\<lambda>t. t_chain_id t = t_chain_id row"] assms(8)
    by (auto simp: respond_auth_error_status session_errors_def)
qed

text \<open>The sample state with ids for later rows that do not repeat the first.\<close>

definition replay_world :: world where
  "replay_world = (sample_world [sample_token 7 ''abc'' None])\<lparr>db_uuid_at := \<lambda>k. if k < 8 then 900 else 901\<rparr>"

lemma replay_refresh:
  assumes "auth_refresh sample_jwt sample_auth ''abc'' replay_world = (res, x)"
  shows "(\<exists>pair. res = Inr pair) \<and> world_quiet x"
  using assms hashes_distinct(1)
  by (auto simp: replay_world_def auth_refresh_def issue_refresh_and_access_def world_tokens_def world_quiet_def sample_eval)

theorem replayed_cookie_ends_session_witness:
  "\<exists>w1 x1 w3 x3. let r = sample_request\<lparr>rq_header := [(''Authorization'', ''Bearer x''), (''Cookie'', ''refresh_token=abc'')]\<rparr> in
     auth_handler_refresh sample_auth_handler r new_writer replay_world = (w1, x1) \<and> rw_status w1 = Some 200
     \<and> auth_handler_refresh sample_auth_handler r new_writer x1 = (w3, x3) \<and> rw_status w3 = Some 401"
proof -
  let ?r = "sample_request\<lparr>rq_header := [(''Authorization'', ''Bearer x''), (''Cookie'', ''refresh_token=abc'')]\<rparr>"
  have some: "read_refresh_cookie ?r = Some ''abc''" by code_simp
  have bearer: "bearer_token ?r = Some ''x''" by code_simp
  obtain res x1 where run: "auth_refresh sample_jwt sample_auth ''abc'' replay_world = (res, x1)" by fastforce
  obtain a b where pair: "res = Inr (a, b)" "world_quiet x1" using replay_refresh [OF run] by auto
  have first: "auth_handler_refresh sample_auth_handler ?r new_writer replay_world
      = (respond_tokens sample_auth_handler a b new_writer, x1)"
    using run pair(1) by (simp add: auth_handler_refresh_def some bearer)
  obtain w3 x3 where second: "auth_handler_refresh sample_auth_handler ?r new_writer x1 = (w3, x3)" by fastforce
  have "world_ok replay_world" using sample_world_ok [of "[sample_token 7 ''abc'' None]"] by (simp add: replay_world_def world_ok_def)
  from replayed_cookie_ends_session [OF sample_auth_handler_sel(1) this _ first _ _ pair(2) _ second, where ops = "[]"] first second
  show ?thesis by (auto simp: Let_def respond_tokens_def respond_json_fresh)
qed

text \<open>C39. Logout does not tell a failure: when the database cannot be reached, the endpoint still
  answers 204 and has the browser forget the cookie, while the session stays as it was and its
  token, which the client no longer has, keeps its validity. (The service reports the error; the
  handler drops it.)\<close>

theorem logout_hides_failure:
  assumes "ah_svc h = as_auth_service_iface J B (pool_auth_service sg ttl)" and "rw_status w = None"
    and "fault_at x (tick x) = Some (Lost_Before m)" and "auth_handler_logout h r w x = (w', x')"
  shows "rw_status w' = Some 204
    \<and> (''Set-Cookie'', cookie_text (refresh_cookie h '''' (-1))) \<in> set (rw_sent_header w')
    \<and> world_tokens x' = world_tokens x
    \<and> (\<forall>presented. fst (auth_logout (pool_auth_service sg ttl) presented x) \<noteq> None)"
proof -
  have fails: "auth_logout (pool_auth_service sg ttl) p x
      = (Some (Wrapf ''get refresh token'' (Foreign_Error m)), next_tick x)" for p
    using assms(3) by (simp add: auth_logout_def token_repo_defs run_stmt_def run_on_pool_def)
  have "w' = respond_no_content (clear_refresh_cookie h w)" "x' = x \<or> x' = next_tick x"
    using assms(1,4) fails by (auto simp: auth_handler_logout_def Let_def split: option.splits)
  with assms(2) fails show ?thesis
    by (auto simp: clear_refresh_cookie_def set_cookie_header)
qed

theorem logout_hides_failure_witness:
  "\<exists>w' x'. auth_handler_logout sample_auth_handler (sample_request\<lparr>rq_header := [(''Cookie'', ''refresh_token=abc'')]\<rparr>)
       new_writer ((sample_world [sample_token 7 ''abc'' None])\<lparr>fault_at := \<lambda>k. Some (Lost_Before ''connection refused'')\<rparr>) = (w', x')
     \<and> rw_status w' = Some 204 \<and> (\<exists>t\<in>set (world_tokens x'). t_token_hash t = hash_refresh_token ''abc'' \<and> active t)"
proof -
  let ?x = "(sample_world [sample_token 7 ''abc'' None])\<lparr>fault_at := \<lambda>k. Some (Lost_Before ''connection refused'')\<rparr>"
  let ?r = "sample_request\<lparr>rq_header := [(''Cookie'', ''refresh_token=abc'')]\<rparr>"
  obtain w' x' where run: "auth_handler_logout sample_auth_handler ?r new_writer ?x = (w', x')" by fastforce
  have "world_tokens ?x = [refresh_token_to_model (sample_token 7 ''abc'' None)]" by (simp add: world_tokens_def)
  with logout_hides_failure [OF sample_auth_handler_sel(1) _ _ run] run show ?thesis
    by (auto simp: active_def)
qed

end
