(* ===== verification/Rate_Claims.thy ===== *)
theory Rate_Claims
  imports Api_Samples
begin

section \<open>Properties of the rate limits\<close>

text \<open>
  What \<open>RateLimit\<close> lets through, for the documented token bucket: a bound per remote address,
  and how little an address binds. A run is a sequence of times and client keys.
\<close>

fun allow_all :: "'l rate_lib \<Rightarrow> (instant \<times> string) list \<Rightarrow> 'l rate_limiter \<Rightarrow> bool list" where
  "allow_all K [] rl = []"
| "allow_all K ((now, ip) # es) rl = (case rate_allow K now ip rl of (ok, rl') \<Rightarrow> ok # allow_all K es rl')"

definition bucket :: "'l rate_lib \<Rightarrow> 'l rate_limiter \<Rightarrow> string \<Rightarrow> 'l" where
  "bucket K rl ip = fst (rate_limiter_get K ip rl)"

text \<open>The answers one client gets, and the times it asked.\<close>

definition times_of :: "string \<Rightarrow> (instant \<times> string) list \<Rightarrow> instant list" where
  "times_of ip es = map fst (filter (\<lambda>e. snd e = ip) es)"

definition answers_of :: "string \<Rightarrow> (instant \<times> string) list \<Rightarrow> bool list \<Rightarrow> bool list" where
  "answers_of ip es oks = map snd (filter (\<lambda>e. snd (fst e) = ip) (zip es oks))"

lemma rate_allow_bucket:
  assumes "rate_allow K now ip rl = (ok, rl')"
  shows "rl_allow K now (bucket K rl ip) = (ok, bucket K rl' ip)" and "k \<noteq> ip \<Longrightarrow> bucket K rl' k = bucket K rl k"
  using assms
  by (auto simp: rate_allow_def rate_limiter_get_def bucket_def Let_def split: prod.splits option.splits)

text \<open>Clients do not see one another: each one's answers are those of a bucket of its own.\<close>

lemma answers_own_bucket:
  "answers_of ip es (allow_all K es rl) = allow_run K (bucket K rl ip) (times_of ip es)"
proof (induction es arbitrary: rl)
  case (Cons e es)
  obtain now k where e: "e = (now, k)" by fastforce
  obtain ok rl' where a: "rate_allow K now k rl = (ok, rl')" by fastforce
  note bucket = rate_allow_bucket [OF a]
  have step: "allow_all K (e # es) rl = ok # allow_all K es rl'" by (simp add: e a)
  have IH: "map snd (filter (\<lambda>e. snd (fst e) = ip) (zip es (allow_all K es rl'))) =
      allow_run K (bucket K rl' ip) (map fst (filter (\<lambda>e. snd e = ip) es))"
    using Cons.IH [of rl'] by (simp add: answers_of_def times_of_def)
  show ?case
    using bucket unfolding step answers_of_def times_of_def
    by (cases "k = ip") (simp_all add: e IH)
qed (simp add: answers_of_def times_of_def)

lemma length_allow_all [simp]: "length (allow_all K es rl) = length es"
  by (induction es arbitrary: rl) (auto split: prod.split)

lemma bucket_new [simp]: "bucket K (new_rate_limiter rps burst) ip = rl_new K rps burst"
  by (simp add: bucket_def rate_limiter_get_def new_rate_limiter_def Let_def)

lemma sorted_times_of: "sorted (map fst es) \<Longrightarrow> sorted (times_of ip es)"
  unfolding times_of_def by (induction es) auto

text \<open>C32. A remote address is held to its rate: whatever the other clients do, of the requests an
  address sends no more are let through than the burst and the refill between its first and its
  last request allow, and up to the burst none is refused.\<close>

theorem rate_limit_bounds_client:
  assumes "rate_documented K" and "sorted (map fst es)" and "times_of ip es \<noteq> []"
  shows "int (length (filter id (answers_of ip es (allow_all K es (new_rate_limiter rps burst))))) * second
      \<le> int burst * second + int rps * (last (times_of ip es) - hd (times_of ip es))
    \<and> (length (times_of ip es) \<le> burst \<longrightarrow>
        list_all id (answers_of ip es (allow_all K es (new_rate_limiter rps burst))))"
proof -
  have sorted: "sorted (times_of ip es)" using assms(2) by (rule sorted_times_of)
  then show ?thesis
    using assms(1,3) unfolding rate_documented_def answers_own_bucket bucket_new by blast
qed

text \<open>A client that asks once is let through.\<close>

lemma distinct_clients_pass:
  assumes "rate_documented K" "0 < burst" "distinct (map snd es)"
  shows "list_all id (allow_all K es (new_rate_limiter rps burst))"
  unfolding list_all_iff
proof
  let ?oks = "allow_all K es (new_rate_limiter rps burst)"
  fix ok assume "ok \<in> set ?oks"
  then obtain i where i: "i < length es" "ok = ?oks ! i" by (auto simp: in_set_conv_nth)
  let ?e = "es ! i"
  have "(?e, ok) \<in> set (zip es ?oks)" using i by (auto simp: set_zip)
  then have ok: "ok \<in> set (answers_of (snd ?e) es ?oks)" by (force simp: answers_of_def)
  have "distinct (map snd (filter (\<lambda>e. snd e = k) es)) \<and> set (map snd (filter (\<lambda>e. snd e = k) es)) \<subseteq> {k}" for k
    using assms(3) by (auto intro: distinct_map_filter)
  then have "length (map snd (filter (\<lambda>e. snd e = k) es)) \<le> card {k}" for k
    by (metis distinct_card card_mono finite.emptyI finite.insertI)
  then have one: "length (times_of (snd ?e) es) \<le> 1" by (simp add: times_of_def)
  then have "sorted (times_of (snd ?e) es)"
    by (cases "times_of (snd ?e) es" rule: remdups_adj.cases) simp_all
  with one assms(1,2) have "list_all id (answers_of (snd ?e) es ?oks)"
    unfolding answers_own_bucket bucket_new rate_documented_def by simp
  with ok show "id ok" unfolding list_all_iff by blast
qed

theorem rate_limit_bounds_client_witness:
  "let es = replicate 4 (0, ''10.0.0.1:1'') @ [(1, ''10.0.0.2:1'')]
   in length (filter id (answers_of ''10.0.0.1:1'' es (allow_all sample_rate es (new_rate_limiter 0 3)))) \<le> 3"
proof -
  let ?es = "replicate 4 (0, ''10.0.0.1:1'') @ [(1 :: int, ''10.0.0.2:1'')]"
  have times: "times_of ''10.0.0.1:1'' ?es = [0, 0, 0, 0]" by (simp add: times_of_def numeral_eq_Suc)
  have "sorted (map fst ?es)" by (simp add: numeral_eq_Suc)
  from rate_limit_bounds_client [OF sample_rate_documented this, of "''10.0.0.1:1''" 0 3, unfolded times]
  show ?thesis by (simp add: second_def Let_def)
qed

text \<open>C40. The limit is per connection, not per host: a client that opens a connection from another
  port for every request is never refused. (The comment on \<open>RateLimit\<close> promises a limit for
  each client IP; the key is \<open>RemoteAddr\<close>, which contains the port.)\<close>

theorem rate_limit_misses_ports:
  assumes "rate_documented K" and "0 < burst" and "distinct (map snd tps)"
  shows "list_all id (allow_all K (map (\<lambda>(t, p). (t, client_key (r\<lparr>rq_remote_addr := host @ CHR '':'' # nat_text p\<rparr>))) tps)
    (new_rate_limiter rps burst))"
proof -
  let ?f = "\<lambda>p. client_key (r\<lparr>rq_remote_addr := host @ CHR '':'' # nat_text p\<rparr>)"
  have "inj ?f" by (rule injI) (simp add: client_key_def, metis read_nat_text)
  then have "inj_on ?f A" for A by (rule inj_on_subset) simp
  moreover have "map snd (map (\<lambda>(t, p). (t, ?f p)) tps) = map ?f (map snd tps)" by (simp add: case_prod_beta comp_def)
  ultimately have "distinct (map snd (map (\<lambda>(t, p). (t, ?f p)) tps))"
    using assms(3) by (metis distinct_map)
  with assms(1,2) show ?thesis by (rule distinct_clients_pass)
qed

theorem rate_limit_misses_ports_witness:
  "list_all id (allow_all sample_rate [(0, ''10.0.0.1:1''), (0, ''10.0.0.1:2''), (0, ''10.0.0.1:3'')] (new_rate_limiter 0 1))"
proof -
  have digits: "nat_text (Suc 0) = ''1''" "nat_text 2 = ''2''" "nat_text 3 = ''3''" by code_simp+
  show ?thesis
    using rate_limit_misses_ports [OF sample_rate_documented, where burst = 1 and rps = 0 and r = sample_request
        and host = "''10.0.0.1''" and tps = "[(0, 1), (0, 2), (0, 3)]"]
    by (simp add: client_key_def digits)
qed

end
