(* ===== verification/Config_Claims.thy ===== *)
theory Config_Claims
  imports Config
begin

section \<open>Properties of the configuration\<close>

text \<open>What a configuration that \<open>Load\<close> returned guarantees, when there is none, and what the check
  of the CORS origins misses. \<open>wildcard_env\<close> is a production environment that allows every
  origin and loads.\<close>

definition sample_env :: "(string \<times> string) list \<Rightarrow> environment" where
  "sample_env = map_of"

definition wildcard_env :: environment where
  "wildcard_env = sample_env [(''APP_ENV'', ''production''), (''JWT_SECRET'', ''0123456789abcdef''),
     (''CORS_ALLOWED_ORIGINS'', ''*,https://app.example.com'')]"

lemma wildcard_env_values:
  "wildcard_env ''APP_ENV'' = Some ''production''" "os_getenv wildcard_env ''JWT_SECRET'' = ''0123456789abcdef''"
  "cc_allowed_origins (cfg_cors (build_config wildcard_env)) = [''*'', ''https://app.example.com'']"
proof -
  show env: "wildcard_env ''APP_ENV'' = Some ''production''"
    "os_getenv wildcard_env ''JWT_SECRET'' = ''0123456789abcdef''"
    by (simp_all add: wildcard_env_def sample_env_def os_getenv_def)
  have "map trim_space (split_on (CHR '','') ''*,https://app.example.com'') = [''*'', ''https://app.example.com'']"
    by code_simp
  moreover have "os_getenv wildcard_env ''CORS_ALLOWED_ORIGINS'' = ''*,https://app.example.com''"
    by (simp add: wildcard_env_def sample_env_def os_getenv_def)
  ultimately show "cc_allowed_origins (cfg_cors (build_config wildcard_env)) = [''*'', ''https://app.example.com'']"
    by (simp add: build_config_def Let_def getenv_slice_def)
qed

text \<open>C33. \<open>Load\<close> fails exactly in production, and there exactly when the list of CORS origins is
  the wildcard and nothing else, or the JWT secret has fewer than 16 bytes; otherwise it returns
  the values of the environment with the defaults in place of what is missing or malformed. So
  the wildcard as such is not kept out of production: with a long enough secret, a list that has
  an entry beside the wildcard loads, and the CORS middleware is configured with the wildcard.
  (The comments on \<open>CORSConfig\<close> and \<open>Validate\<close>, \<open>.env.example\<close> and the README
  say that the wildcard is forbidden in production.)\<close>

theorem load_config_guards_production:
  assumes "dotenv e = e1"
  shows "(case load_config dotenv e of
      Inl err \<Rightarrow> e1 ''APP_ENV'' = Some ''production''
        \<and> (cc_allowed_origins (cfg_cors (build_config e1)) = [''*''] \<or> length (os_getenv e1 ''JWT_SECRET'') < 16)
    | Inr cfg \<Rightarrow> cfg = build_config e1
        \<and> (e1 ''APP_ENV'' = Some ''production'' \<longrightarrow>
            cc_allowed_origins (cfg_cors cfg) \<noteq> [''*''] \<and> 16 \<le> length (jwc_secret (cfg_jwt cfg))))
    \<and> (''*'' \<in> set (cc_allowed_origins (cfg_cors (build_config e1))) \<and>
        2 \<le> length (cc_allowed_origins (cfg_cors (build_config e1))) \<and>
        16 \<le> length (os_getenv e1 ''JWT_SECRET'') \<longrightarrow>
        (\<exists>cfg. load_config dotenv e = Inr cfg \<and> ''*'' \<in> set (cc_allowed_origins (cfg_cors cfg))))"
  using assms by (auto simp: load_config_def Let_def validate_built split: option.split)

theorem load_config_guards_production_witness:
  "\<exists>err cfg prod. load_config (\<lambda>e. e) (sample_env [(''APP_ENV'', ''production'')]) = Inl err
     \<and> load_config (\<lambda>e. e) (sample_env []) = Inr cfg \<and> jwc_secret (cfg_jwt cfg) = ''''
     \<and> load_config (\<lambda>e. e) wildcard_env = Inr prod \<and> cfg_is_prod prod
     \<and> ''*'' \<in> set (cc_allowed_origins (cfg_cors prod))"
proof -
  let ?bad = "sample_env [(''APP_ENV'', ''production'')]" and ?dev = "sample_env []"
  note rule = load_config_guards_production [where dotenv = "\<lambda>e. e", OF refl]
  have "\<not> (\<exists>cfg. load_config (\<lambda>e. e) ?bad = Inr cfg)"
    using rule [of ?bad] by (auto simp: sample_env_def os_getenv_def)
  then obtain err where "load_config (\<lambda>e. e) ?bad = Inl err" by (metis sum.exhaust)
  moreover have "\<not> (\<exists>err. load_config (\<lambda>e. e) ?dev = Inl err)"
    using rule [of ?dev] by (auto simp: sample_env_def)
  then obtain cfg where dev: "load_config (\<lambda>e. e) ?dev = Inr cfg" by (metis sum.exhaust)
  with rule [of ?dev] have "jwc_secret (cfg_jwt cfg) = ''''" by (simp add: sample_env_def os_getenv_def)
  moreover obtain prod where "load_config (\<lambda>e. e) wildcard_env = Inr prod"
    "''*'' \<in> set (cc_allowed_origins (cfg_cors prod))"
    using rule [of wildcard_env] by (auto simp: wildcard_env_values)
  moreover from this rule [of wildcard_env] have "cfg_is_prod prod"
    by (simp add: is_prod_built wildcard_env_values)
  ultimately show ?thesis using dev by blast
qed

end
