(* ===== verification/Response_Laws.thy ===== *)
theory Response_Laws
  imports Server
begin

section \<open>The shape of every response\<close>

text \<open>
  What a client can rely on whatever it sends: every handler of the table writes exactly one
  status, one the API uses, with a JSON body of the documented shape. The lemmas go handler by
  handler, for any service behind it; the property is in \<open>Spec2Isabelle\<close>.
\<close>

subsection \<open>Decimal numbers are JSON numbers\<close>

lemma nat_text_no_zero: "0 < n \<Longrightarrow> hd (nat_text n) \<noteq> CHR ''0''"
proof (induction n rule: nat_text.induct)
  case (1 n)
  show ?case
  proof (cases "n < 10")
    case True
    have "digit_of (digit_char n) = Some n" "digit_of (CHR ''0'') = Some 0"
      using True by (simp_all add: digit_of_def [of "CHR ''0''"])
    then have "digit_char n \<noteq> CHR ''0''" using "1.prems" by auto
    with True show ?thesis by (subst nat_text.simps) simp
  next
    case False
    then have "0 < n div 10" by (simp add: div_greater_zero_iff)
    with 1 False show ?thesis by (subst nat_text.simps) simp
  qed
qed

lemma nat_text_bytes: "\<forall>b\<in>set (bytes_of_string (nat_text n)). is_digit b"
  using nat_text_digits [of n]
  by (auto simp: list_all_iff bytes_of_string_def is_digit_char_def digit_of_def is_digit_def Let_def split: if_splits)

lemma scan_int_nat_text: "scan_int (bytes_of_string (nat_text n)) = Scanned (bytes_of_string (nat_text n)) []"
proof (cases "n = 0")
  case True
  then show ?thesis by (subst (1 2) nat_text.simps) (simp add: digit_char_def scan_int_def bytes_of_string_def)
next
  case False
  let ?b = "bytes_of_string (nat_text n)"
  have ne: "?b \<noteq> []" by (simp add: bytes_of_string_def)
  have "hd ?b \<noteq> 48"
  proof
    assume "hd ?b = 48"
    then have "of_char (hd (nat_text n)) = (of_char (CHR ''0'') :: nat)"
      by (simp add: bytes_of_string_def hd_map)
    then have "hd (nat_text n) = CHR ''0''" by (simp only: of_char_eq_iff)
    with nat_text_no_zero False show False by blast
  qed
  moreover have "takeWhile is_digit ?b = ?b" "dropWhile is_digit ?b = []"
    using nat_text_bytes [of n] by (simp_all add: takeWhile_eq_all_conv dropWhile_eq_Nil_conv)
  moreover have "is_digit (hd ?b)" using nat_text_bytes ne by (meson hd_in_set)
  ultimately show ?thesis
    using ne by (cases ?b) (auto simp: scan_int_def scan_digits_def)
qed

lemma number_text_itoa: "number_text (itoa i)"
proof -
  have plain: "number_text (nat_text n)" for n
  proof -
    have "hd (bytes_of_string (nat_text n)) \<noteq> 45"
      using nat_text_bytes [of n] nat_text_not_Nil [of n]
      by (cases "nat_text n") (auto simp: is_digit_def bytes_of_string_def)
    then show ?thesis
      by (simp add: number_text_def scan_number_def scan_then_def scan_int_nat_text scan_frac_def scan_exp_def)
  qed
  have "number_text (CHR ''-'' # nat_text n)" for n
    by (simp add: number_text_def scan_number_def scan_then_def bytes_of_string_def)
      (simp add: scan_int_nat_text [unfolded bytes_of_string_def] scan_frac_def scan_exp_def)
  with plain show ?thesis by (simp add: itoa_def)
qed

subsection \<open>Well-formed responses\<close>

definition fresh_writer :: "response_writer \<Rightarrow> bool" where
  "fresh_writer w \<longleftrightarrow> rw_status w = None \<and> rw_body w = []"

text \<open>A success carries one JSON value, unless marshalling it fails (a time outside the years 0
  to 9999); a 204 has no body; an error carries the envelope.\<close>

definition well_formed :: "response_writer \<Rightarrow> bool" where
  "well_formed w \<longleftrightarrow>
     (case rw_status w of
        None \<Rightarrow> False
      | Some c \<Rightarrow>
          if c = 204 then rw_body w = []
          else if c \<in> {200, 201}
          then rw_body w = [] \<or> (\<exists>v. json_parse (rw_body w) = Scanned v [10])
          else c \<in> {400, 401, 404, 409, 429, 500, 503}
            \<and> (\<exists>code msg. json_parse (rw_body w)
                 = Scanned (error_envelope_json \<lparr>ee_error = \<lparr>eb_code = code, eb_message = msg\<rparr>\<rparr>) [10]))"

definition answers :: "'s handler \<Rightarrow> bool" where
  "answers h \<longleftrightarrow> (\<forall>r w s. fresh_writer w \<longrightarrow> well_formed (fst (h r w s)))"

lemma answersI: "(\<And>r w s. fresh_writer w \<Longrightarrow> well_formed (fst (h r w s))) \<Longrightarrow> answers h"
  by (simp add: answers_def)

lemma answersD: "answers h \<Longrightarrow> fresh_writer w \<Longrightarrow> h r w s = (w', s') \<Longrightarrow> well_formed w'"
  by (metis answers_def fst_conv)

lemma fresh_cookies [simp]:
  "fresh_writer (set_refresh_cookie h v w) = fresh_writer w" "fresh_writer (clear_refresh_cookie h w) = fresh_writer w"
  by (simp_all add: fresh_writer_def)

lemma well_formed_error:
  "fresh_writer w \<Longrightarrow> c \<in> {400, 401, 404, 409, 429, 500, 503} \<Longrightarrow> well_formed (respond_error c code msg w)"
  by (auto simp: well_formed_def fresh_writer_def error_body_parses)

lemma well_formed_no_content: "fresh_writer w \<Longrightarrow> well_formed (respond_no_content w)"
  by (simp add: well_formed_def fresh_writer_def)

text \<open>The values the handlers send.\<close>

definition sendable :: "marshalled \<Rightarrow> bool" where
  "sendable m \<longleftrightarrow> (case m of Inl e \<Rightarrow> True | Inr v \<Rightarrow> json_ok v \<and> json_depth v \<le> 3)"

lemma well_formed_json:
  assumes "fresh_writer w" "c \<in> {200, 201}" "sendable m"
  shows "well_formed (respond_json c (Some m) w)"
proof (cases m)
  case (Inl e)
  with assms show ?thesis by (auto simp: well_formed_def fresh_writer_def respond_json_fresh)
next
  case (Inr v)
  with assms(3) have "json_ok v" "json_depth v \<le> max_nesting" by (simp_all add: sendable_def max_nesting_def)
  then have "json_parse (json_render v @ [10]) = Scanned (json_clean v) [10]" by (rule parse_render) simp
  with assms Inr show ?thesis by (auto simp: well_formed_def fresh_writer_def respond_json_fresh)
qed

lemmas well_formed_intros = well_formed_error well_formed_no_content well_formed_json

text \<open>A user is an object of strings.\<close>

definition flat :: "json \<Rightarrow> bool" where
  "flat v \<longleftrightarrow> json_ok v \<and> json_depth v = 0"

lemma flat_Str [simp]: "flat (J_Str s)" by (simp add: flat_def)

lemma marshal_object_flat:
  "list_all (\<lambda>(k, m). case m of Inl e \<Rightarrow> True | Inr v \<Rightarrow> flat v) kms \<Longrightarrow> marshal_object kms = Inr kvs \<Longrightarrow>
     list_all (\<lambda>(k, v). flat v) kvs"
  by (induction kms arbitrary: kvs) (auto split: sum.splits)

lemma flat_object: "list_all (\<lambda>(k, v). flat v) kvs \<Longrightarrow> json_ok (J_Obj kvs) \<and> json_depth (J_Obj kvs) \<le> 1"
proof -
  assume kvs: "list_all (\<lambda>(k, v). flat v) kvs"
  have "fold max (map (\<lambda>(k, v). json_depth v) kvs) 0 \<le> 0"
    using kvs by (subst fold_max_le) (auto simp: list_all_iff flat_def)
  with kvs show ?thesis by (auto simp: list_all_iff flat_def)
qed

lemma user_response_flat:
  "marshal_user_response L u = Inr v \<Longrightarrow> json_ok v \<and> json_depth v \<le> 1"
  "marshal_cursor_response L c = Inr v \<Longrightarrow> json_ok v \<and> json_depth v \<le> 1"
  by (auto simp: marshal_user_response_def marshal_cursor_response_def as_object_def marshal_uuid_def
      marshal_time_def split: sum.splits intro!: flat_object dest!: marshal_object_flat [rotated])

lemma marshal_array_elems:
  "marshal_array ms = Inr vs \<Longrightarrow> v \<in> set vs \<Longrightarrow> Inr v \<in> set ms"
  by (induction ms arbitrary: vs) (auto split: sum.splits)

lemma marshal_object_elems:
  "marshal_object kms = Inr kvs \<Longrightarrow> (k, v) \<in> set kvs \<Longrightarrow> (k, Inr v) \<in> set kms"
  by (induction kms arbitrary: kvs) (auto split: sum.splits)

lemma json_array_depth:
  "\<forall>v\<in>set vs. json_ok v \<and> json_depth v \<le> n \<Longrightarrow> json_ok (J_Arr vs) \<and> json_depth (J_Arr vs) \<le> Suc n"
  by (auto simp: list_all_iff)

lemma json_object_depth:
  "\<forall>(k, v)\<in>set kvs. json_ok v \<and> json_depth v \<le> n \<Longrightarrow> json_ok (J_Obj kvs) \<and> json_depth (J_Obj kvs) \<le> Suc n"
  by (auto simp: list_all_iff)

lemma list_response_ok:
  assumes "marshal_list_response L l = Inr v"
  shows "json_ok v \<and> json_depth v \<le> 3"
proof -
  have users: "json_ok u \<and> json_depth u \<le> 2" if run: "as_array (marshal_array (map (marshal_user_response L) us)) = Inr u" for us u
  proof -
    obtain vs where vs: "marshal_array (map (marshal_user_response L) us) = Inr vs" "u = J_Arr vs"
      using run by (auto simp: as_array_def split: sum.splits)
    have "\<forall>v\<in>set vs. json_ok v \<and> json_depth v \<le> 1"
      using marshal_array_elems [OF vs(1)] user_response_flat(1) by fastforce
    from json_array_depth [OF this] vs(2) show ?thesis by (simp add: numeral_2_eq_2)
  qed
  obtain kvs where kvs: "v = J_Obj kvs" "marshal_object
       ((''users'', as_array (marshal_array (map (marshal_user_response L) (lur_users l)))) #
        (case lur_next_cursor l of None \<Rightarrow> [] | Some c \<Rightarrow> [(''next_cursor'', marshal_cursor_response L c)])) = Inr kvs"
    using assms by (auto simp: marshal_list_response_def as_object_def split: sum.splits)
  have member: "json_ok x \<and> json_depth x \<le> 2" if "(k, x) \<in> set kvs" for k x
  proof -
    from marshal_object_elems [OF kvs(2) that] consider
        "as_array (marshal_array (map (marshal_user_response L) (lur_users l))) = Inr x"
      | c where "marshal_cursor_response L c = Inr x"
      by (auto split: option.splits)
    then show ?thesis by cases (use users user_response_flat(2) in fastforce)+
  qed
  then have "\<forall>(k, x)\<in>set kvs. json_ok x \<and> json_depth x \<le> 2" by blast
  from json_object_depth [OF this] kvs(1) show ?thesis by simp
qed

lemma token_response_ok: "json_ok (token_response_json t) \<and> json_depth (token_response_json t) \<le> 1"
proof -
  have "json_ok (token_response_json t)" by (simp add: token_response_json_def number_text_itoa)
  moreover have "json_depth (token_response_json t) \<le> 1" by (simp add: token_response_json_def)
  ultimately show ?thesis ..
qed

lemma sendable_responses [simp]:
  "sendable (marshal_user_response L u)" "sendable (marshal_list_response L l)"
  "sendable (Inr (token_response_json t))" "sendable (Inr (J_Obj [(k, J_Str s)]))"
  using user_response_flat(1) [of L u] list_response_ok [of L l] token_response_ok [of t]
  by (fastforce simp: sendable_def split: sum.split)+

subsection \<open>Handler by handler\<close>

lemma service_error_answers:
  "fresh_writer w \<Longrightarrow> well_formed (respond_service_error w e)"
  "fresh_writer w \<Longrightarrow> well_formed (respond_auth_error w e)"
  "fresh_writer w \<Longrightarrow> well_formed (respond_verify_error w e)"
  by (simp_all add: respond_service_error_def respond_auth_error_def respond_verify_error_def well_formed_error)

lemma decode_and_validate_answers:
  "decode_and_validate V st checks r w dst = Inl w' \<Longrightarrow> fresh_writer w \<Longrightarrow> well_formed w'"
  by (auto dest!: decode_and_validate_Inl intro!: well_formed_error)

lemma parse_user_id_answers: "parse_user_id L r w = Inl w' \<Longrightarrow> fresh_writer w \<Longrightarrow> well_formed w'"
  by (auto simp: parse_user_id_def intro!: well_formed_error split: sum.splits)

lemmas answer_rules = well_formed_intros service_error_answers decode_and_validate_answers parse_user_id_answers

lemma user_endpoints_answer:
  "answers (user_handler_create L h)" "answers (user_handler_get L h)" "answers (user_handler_list L h)"
  "answers (user_handler_update L h)" "answers (user_handler_delete L h)"
  unfolding user_handler_create_def user_handler_get_def user_handler_list_def user_handler_update_def
    user_handler_delete_def answers_def
  by (auto split: sum.split prod.split option.split intro: answer_rules)

lemma auth_endpoints_answer:
  "answers (auth_handler_login h)" "answers (auth_handler_refresh h)" "answers (auth_handler_logout h)"
  "answers (auth_handler_logout_all h)"
  unfolding auth_handler_login_def auth_handler_refresh_def auth_handler_logout_def auth_handler_logout_all_def
    respond_tokens_def Let_def answers_def
  by (auto split: sum.split prod.split option.split intro: answer_rules)

lemma server_handlers_answer:
  "answers hello_handler" "answers health_handler" "answers ready_handler"
  unfolding hello_handler_def health_handler_def ready_handler_def answers_def
  by (auto split: prod.split intro: answer_rules)

lemma wrapped_answers:
  "answers h \<Longrightarrow> answers (on_world h)"
  "answers h \<Longrightarrow> answers (auth_middleware v h)"
  "answers g \<Longrightarrow> answers (rate_limit K clock rlv g)"
  unfolding on_world_def auth_middleware_def rate_limit_def Let_def answers_def case_prod_beta
  by (auto split: sum.split option.split intro: answer_rules)

lemma routes_answer: "\<forall>rt\<in>set (register_routes P srv). answers (snd rt)"
  unfolding register_routes_def Let_def
  by (auto intro!: wrapped_answers user_endpoints_answer auth_endpoints_answer server_handlers_answer)

end
