(* ===== verification/Commands.thy ===== *)
theory Commands
  imports Server
begin

section \<open>The commands (cmd/api, cmd/migrate)\<close>

text \<open>
  \<open>main\<close> of the API server as a function of what its calls answer: it either panics with a
  message or exits after a shutdown, having logged some lines. Signals and the goroutine that
  waits for them are left out: \<open>gracefulShutdown\<close> is the work it does once a signal came.
  \<open>run\<close> of the migration command with goose as a parameter.
\<close>

subsection \<open>cmd/api\<close>

datatype serve_result = Server_Closed | Serve_Error go_error

datatype exit_status = Panicked string | Exited

text \<open>The arguments: what \<open>Shutdown\<close> and the \<open>Close\<close> of the pool answer, and the database
  service, which may be nil.\<close>

definition graceful_shutdown :: "go_error option \<Rightarrow> go_error option \<Rightarrow> db_service option \<Rightarrow> log_text list" where
  "graceful_shutdown shutdown_err close_err dbs =
     [(''shutting down gracefully, press Ctrl+C again to force'', None)] @
     (case shutdown_err of None \<Rightarrow> [] | Some err \<Rightarrow> [(''server forced to shutdown'', Some err)]) @
     (case dbs of
        None \<Rightarrow> []
      | Some s \<Rightarrow>
          (case db_close close_err s of
             (log, None) \<Rightarrow> log
           | (log, Some err) \<Rightarrow> log @ [(''database close error'', Some err)])) @
     [(''server exiting'', None)]"

definition api_main ::
    "(environment \<Rightarrow> environment) \<Rightarrow> (string \<Rightarrow> string \<Rightarrow> go_error option) \<Rightarrow> (http_server \<Rightarrow> serve_result)
      \<Rightarrow> go_error option \<Rightarrow> go_error option \<Rightarrow> environment \<Rightarrow> log_text list \<times> exit_status" where
  "api_main dotenv driver listen shutdown_err close_err e =
     (case load_config dotenv e of
        Inl err \<Rightarrow> ([], Panicked (''load config: '' @ error_string err))
      | Inr cfg \<Rightarrow>
          (case database_new driver (cfg_db cfg) (fst (logging_new cfg)) of
             Inl err \<Rightarrow> ([], Panicked (''connect to database: '' @ error_string err))
           | Inr dbs \<Rightarrow>
               (let started = [(''starting server'', None)] in
                case listen (http_server_of cfg) of
                  Serve_Error err \<Rightarrow> (started, Panicked (''http server error: '' @ error_string err))
                | Server_Closed \<Rightarrow>
                    (started @ graceful_shutdown shutdown_err close_err (Some dbs)
                       @ [(''graceful shutdown complete'', None)], Exited))))"

text \<open>The server only starts with a configuration that \<open>Load\<close> accepted.\<close>

lemma api_main_starts:
  assumes "api_main dotenv driver listen se ce e = (log, st)" and "log \<noteq> []"
  shows "\<exists>cfg. load_config dotenv e = Inr cfg \<and> hd log = (''starting server'', None)
    \<and> (st = Exited \<longleftrightarrow> listen (http_server_of cfg) = Server_Closed)"
  using assms by (auto simp: api_main_def Let_def split: sum.splits serve_result.splits)

subsection \<open>cmd/migrate\<close>

text \<open>goose on the state \<open>'d\<close> of the schema.\<close>

record 'd goose_lib =
  gs_set_dialect :: "string \<Rightarrow> go_error option"
  gs_up :: "sql_db \<Rightarrow> string \<Rightarrow> 'd \<Rightarrow> go_error option \<times> 'd"
  gs_down :: "sql_db \<Rightarrow> string \<Rightarrow> 'd \<Rightarrow> go_error option \<times> 'd"
  gs_status :: "sql_db \<Rightarrow> string \<Rightarrow> 'd \<Rightarrow> go_error option \<times> 'd"
  gs_reset :: "sql_db \<Rightarrow> string \<Rightarrow> 'd \<Rightarrow> go_error option \<times> 'd"
  gs_redo :: "sql_db \<Rightarrow> string \<Rightarrow> 'd \<Rightarrow> go_error option \<times> 'd"

definition wrap_goose_err :: "string \<Rightarrow> go_error option \<Rightarrow> go_error option" where
  "wrap_goose_err cmd err = (case err of Some e \<Rightarrow> Some (Wrapf cmd e) | None \<Rightarrow> None)"

text \<open>
  \<open>quote\<close> is the verb \<open>%q\<close>, which needs the Unicode tables. The migrations embedded in the binary
  (\<open>SetBaseFS\<close>) are part of what goose does. \<open>run\<close> answers with its error, the lines its deferred
  \<open>Close\<close> logs, and the schema.
\<close>

definition run_command ::
    "(string \<Rightarrow> string) \<Rightarrow> 'd goose_lib \<Rightarrow> sql_db \<Rightarrow> string \<Rightarrow> 'd \<Rightarrow> go_error option \<times> 'd" where
  "run_command quote G conn cmd s =
     (let dir = ''.'' in
      if cmd = ''up'' then apfst (wrap_goose_err ''up'') (gs_up G conn dir s)
      else if cmd = ''down'' then apfst (wrap_goose_err ''down'') (gs_down G conn dir s)
      else if cmd = ''status'' then apfst (wrap_goose_err ''status'') (gs_status G conn dir s)
      else if cmd = ''reset'' then apfst (wrap_goose_err ''reset'') (gs_reset G conn dir s)
      else if cmd = ''redo'' then apfst (wrap_goose_err ''redo'') (gs_redo G conn dir s)
      else (Some (New_Error (''unknown command '' @ quote cmd
              @ ''; expected one of: up, down, status, reset, redo'')), s))"

definition migrate_run ::
    "(string \<Rightarrow> string) \<Rightarrow> (environment \<Rightarrow> environment) \<Rightarrow> (string \<Rightarrow> string \<Rightarrow> go_error option) \<Rightarrow> 'd goose_lib
      \<Rightarrow> go_error option \<Rightarrow> environment \<Rightarrow> string list \<Rightarrow> 'd \<Rightarrow> go_error option \<times> log_text list \<times> 'd" where
  "migrate_run quote dotenv driver G close_err e args s =
     (case args of
        [] \<Rightarrow> (Some (New_Error ''no command given; expected one of: up, down, status, reset, redo''), [], s)
      | cmd # _ \<Rightarrow>
          (case load_config dotenv e of
             Inl err \<Rightarrow> (Some (Wrapf ''load config'' err), [], s)
           | Inr cfg \<Rightarrow>
               (case sql_open driver ''pgx'' (dsn (cfg_db cfg)) of
                  Inl err \<Rightarrow> (Some (Wrapf ''open db'' err), [], s)
                | Inr conn \<Rightarrow>
                    (let closed = (case close_err of None \<Rightarrow> [] | Some err \<Rightarrow> [(''close db'', Some err)]) in
                     case gs_set_dialect G ''postgres'' of
                       Some err \<Rightarrow> (Some (Wrapf ''set dialect'' err), closed, s)
                     | None \<Rightarrow>
                         (case run_command quote G conn cmd s of
                            (err, s1) \<Rightarrow> (err, closed, s1))))))"

text \<open>\<open>main\<close>: the lines logged, the exit code, the schema.\<close>

definition migrate_main ::
    "(string \<Rightarrow> string) \<Rightarrow> (environment \<Rightarrow> environment) \<Rightarrow> (string \<Rightarrow> string \<Rightarrow> go_error option) \<Rightarrow> 'd goose_lib
      \<Rightarrow> go_error option \<Rightarrow> environment \<Rightarrow> string list \<Rightarrow> 'd \<Rightarrow> log_text list \<times> nat \<times> 'd" where
  "migrate_main quote dotenv driver G close_err e args s =
     (case migrate_run quote dotenv driver G close_err e args s of
        (Some err, log, s1) \<Rightarrow> (log @ [(''migrate failed'', Some err)], 1, s1)
      | (None, log, s1) \<Rightarrow> (log, 0, s1))"

text \<open>Only the five commands touch the schema, and only under a configuration that loads.\<close>

lemma migrate_run_changes:
  assumes "migrate_run quote dotenv driver G ce e args s = (r, log, s')" and "s' \<noteq> s"
  shows "\<exists>cmd rest cfg. args = cmd # rest \<and> cmd \<in> {''up'', ''down'', ''status'', ''reset'', ''redo''}
    \<and> load_config dotenv e = Inr cfg"
  using assms
  by (auto simp: migrate_run_def run_command_def Let_def split: list.splits sum.splits option.splits if_splits prod.splits)

lemma wrap_goose_err_none [simp]:
  "apfst (wrap_goose_err c) z = (None, s) \<longleftrightarrow> z = (None, s)"
  by (cases z) (simp add: wrap_goose_err_def split: option.splits)

lemma run_command_ok:
  assumes "run_command quote G conn cmd s = (None, s')"
  shows "(None, s') \<in> {gs_up G conn ''.'' s, gs_down G conn ''.'' s, gs_status G conn ''.'' s,
    gs_reset G conn ''.'' s, gs_redo G conn ''.'' s}"
  using assms unfolding run_command_def Let_def by (simp split: if_split_asm)

text \<open>Exit code 0 means that one of the five commands ran and goose reported no error.\<close>

lemma migrate_main_succeeds:
  assumes "migrate_main quote dotenv driver G ce e args s = (log, 0, s')"
  shows "\<exists>cmd rest cfg conn. args = cmd # rest \<and> load_config dotenv e = Inr cfg
    \<and> sql_open driver ''pgx'' (dsn (cfg_db cfg)) = Inr conn
    \<and> (None, s') \<in> {gs_up G conn ''.'' s, gs_down G conn ''.'' s, gs_status G conn ''.'' s,
         gs_reset G conn ''.'' s, gs_redo G conn ''.'' s}"
proof -
  have "\<exists>log1. migrate_run quote dotenv driver G ce e args s = (None, log1, s')"
    using assms by (auto simp: migrate_main_def split: option.splits prod.splits)
  then obtain cmd rest cfg conn where run: "args = cmd # rest" "load_config dotenv e = Inr cfg"
      "sql_open driver ''pgx'' (dsn (cfg_db cfg)) = Inr conn" "run_command quote G conn cmd s = (None, s')"
    by (auto simp: migrate_run_def Let_def split: list.splits sum.splits option.splits prod.splits)
  with run_command_ok [OF run(4)] show ?thesis by blast
qed

end
