(* ===== verification/Api_Process.thy ===== *)
theory Api_Process
  imports Commands
begin

section \<open>The API process: the server and the shutdown goroutine (cmd/api)\<close>

text \<open>
  \<open>main\<close> and \<open>gracefulShutdown\<close> run side by side and meet twice: \<open>Shutdown\<close> makes
  \<open>ListenAndServe\<close> return, and the channel \<open>done\<close>, with room for one message, holds \<open>main\<close> back
  until the shutdown is over. \<open>process_step\<close> interleaves their steps with what the outside does:
  signals arrive and the listener fails. When \<open>main\<close> ends, panics or is killed, the process is
  gone, whatever the goroutine was doing.
\<close>

subsection \<open>The process\<close>

datatype main_pc = Serving | Waiting | Ended exit_status | Killed

text \<open>\<open>gracefulShutdown\<close>: before \<open>NotifyContext\<close>, at \<open><-ctx.Done()\<close>, before and inside
  \<open>Shutdown\<close>, before the \<open>Close\<close>, the last log line and the send, and after it.\<close>

datatype stop_pc = Starting | Await_Signal | At_Shutdown | In_Shutdown | At_Close | At_Last_Line | At_Send | Finished

record process =
  pr_main :: main_pc
  pr_stop :: stop_pc
  pr_listening :: bool
  pr_pool_open :: bool
  pr_done :: nat \<comment> \<open>messages in \<open>done\<close>\<close>
  pr_log :: "log_text list"

definition process_start :: process where
  "process_start = \<lparr>pr_main = Serving, pr_stop = Starting, pr_listening = True, pr_pool_open = True, pr_done = 0,
     pr_log = [(''starting server'', None)]\<rparr>"

definition alive :: "process \<Rightarrow> bool" where
  "alive s \<longleftrightarrow> pr_main s \<in> {Serving, Waiting}"

datatype actor = Main | Goroutine | Outside

definition add_lines :: "log_text list \<Rightarrow> process \<Rightarrow> process" where
  "add_lines ls s = s\<lparr>pr_log := pr_log s @ ls\<rparr>"

inductive process_step ::
    "go_error option \<Rightarrow> go_error option \<Rightarrow> db_service \<Rightarrow> actor \<Rightarrow> process \<Rightarrow> process \<Rightarrow> bool"
  for shutdown_err close_err dbs where
  serve_closed: "pr_main s = Serving \<Longrightarrow> \<not> pr_listening s \<Longrightarrow>
    process_step shutdown_err close_err dbs Main s (s\<lparr>pr_main := Waiting\<rparr>)"
| serve_failed: "pr_main s = Serving \<Longrightarrow> pr_listening s \<Longrightarrow>
    process_step shutdown_err close_err dbs Outside s
      (s\<lparr>pr_main := Ended (Panicked (''http server error: '' @ error_string err))\<rparr>)"
| receive_done: "pr_main s = Waiting \<Longrightarrow> 0 < pr_done s \<Longrightarrow>
    process_step shutdown_err close_err dbs Main s
      (add_lines [(''graceful shutdown complete'', None)] (s\<lparr>pr_main := Ended Exited, pr_done := pr_done s - 1\<rparr>))"
| notify: "alive s \<Longrightarrow> pr_stop s = Starting \<Longrightarrow>
    process_step shutdown_err close_err dbs Goroutine s (s\<lparr>pr_stop := Await_Signal\<rparr>)"
| signalled: "alive s \<Longrightarrow> pr_stop s = Await_Signal \<Longrightarrow>
    process_step shutdown_err close_err dbs Outside s
      (add_lines [(''shutting down gracefully, press Ctrl+C again to force'', None)] (s\<lparr>pr_stop := At_Shutdown\<rparr>))"
| killed: "alive s \<Longrightarrow> pr_stop s \<noteq> Await_Signal \<Longrightarrow>
    process_step shutdown_err close_err dbs Outside s (s\<lparr>pr_main := Killed\<rparr>)"
| shutdown_begins: "alive s \<Longrightarrow> pr_stop s = At_Shutdown \<Longrightarrow>
    process_step shutdown_err close_err dbs Goroutine s (s\<lparr>pr_stop := In_Shutdown, pr_listening := False\<rparr>)"
| shutdown_returns: "alive s \<Longrightarrow> pr_stop s = In_Shutdown \<Longrightarrow>
    process_step shutdown_err close_err dbs Goroutine s
      (add_lines (case shutdown_err of None \<Rightarrow> [] | Some err \<Rightarrow> [(''server forced to shutdown'', Some err)])
         (s\<lparr>pr_stop := At_Close\<rparr>))"
| closes: "alive s \<Longrightarrow> pr_stop s = At_Close \<Longrightarrow> db_close close_err dbs = (lines, res) \<Longrightarrow>
    process_step shutdown_err close_err dbs Goroutine s
      (add_lines (lines @ (case res of None \<Rightarrow> [] | Some err \<Rightarrow> [(''database close error'', Some err)]))
         (s\<lparr>pr_stop := At_Last_Line, pr_pool_open := False\<rparr>))"
| last_line: "alive s \<Longrightarrow> pr_stop s = At_Last_Line \<Longrightarrow>
    process_step shutdown_err close_err dbs Goroutine s (add_lines [(''server exiting'', None)] (s\<lparr>pr_stop := At_Send\<rparr>))"
| send: "alive s \<Longrightarrow> pr_stop s = At_Send \<Longrightarrow> pr_done s < 1 \<Longrightarrow>
    process_step shutdown_err close_err dbs Goroutine s (s\<lparr>pr_stop := Finished, pr_done := Suc (pr_done s)\<rparr>)"

inductive process_run ::
    "go_error option \<Rightarrow> go_error option \<Rightarrow> db_service \<Rightarrow> actor list \<Rightarrow> process \<Rightarrow> bool"
  for shutdown_err close_err dbs where
  run_start: "process_run shutdown_err close_err dbs [] process_start"
| run_step: "process_run shutdown_err close_err dbs as s \<Longrightarrow> process_step shutdown_err close_err dbs a s s' \<Longrightarrow>
    process_run shutdown_err close_err dbs (as @ [a]) s'"

subsection \<open>What holds in every reachable state\<close>

text \<open>The lines logged when the goroutine is at a point, and how many steps it still has.\<close>

definition shutdown_lines :: "go_error option \<Rightarrow> go_error option \<Rightarrow> db_service \<Rightarrow> stop_pc \<Rightarrow> log_text list" where
  "shutdown_lines se ce dbs pc =
     (let first = [(''shutting down gracefully, press Ctrl+C again to force'', None)];
          forced = (case se of None \<Rightarrow> [] | Some err \<Rightarrow> [(''server forced to shutdown'', Some err)]);
          closed = fst (db_close ce dbs) @ (case snd (db_close ce dbs) of None \<Rightarrow> []
                     | Some err \<Rightarrow> [(''database close error'', Some err)])
      in case pc of
           Starting \<Rightarrow> [] | Await_Signal \<Rightarrow> [] | At_Shutdown \<Rightarrow> first | In_Shutdown \<Rightarrow> first
         | At_Close \<Rightarrow> first @ forced | At_Last_Line \<Rightarrow> first @ forced @ closed
         | _ \<Rightarrow> first @ forced @ closed @ [(''server exiting'', None)])"

fun steps_left :: "stop_pc \<Rightarrow> nat" where
  "steps_left Starting = 7" | "steps_left Await_Signal = 6" | "steps_left At_Shutdown = 5" | "steps_left In_Shutdown = 4"
| "steps_left At_Close = 3" | "steps_left At_Last_Line = 2" | "steps_left At_Send = 1" | "steps_left Finished = 0"

fun main_left :: "main_pc \<Rightarrow> nat" where
  "main_left Serving = 2" | "main_left Waiting = 1" | "main_left m = 0"

definition process_inv :: "go_error option \<Rightarrow> go_error option \<Rightarrow> db_service \<Rightarrow> process \<Rightarrow> bool" where
  "process_inv se ce dbs s \<longleftrightarrow>
     pr_listening s = (4 < steps_left (pr_stop s))
   \<and> pr_pool_open s = (2 < steps_left (pr_stop s))
   \<and> (pr_main s = Waiting \<longrightarrow> \<not> pr_listening s)
   \<and> (alive s \<longrightarrow> pr_done s = (if pr_stop s = Finished then 1 else 0))
   \<and> (pr_main s = Ended Exited \<longrightarrow> pr_stop s = Finished)
   \<and> pr_log s = (''starting server'', None) # shutdown_lines se ce dbs (pr_stop s)
        @ (if pr_main s = Ended Exited then [(''graceful shutdown complete'', None)] else [])"

lemma shutdown_lines_steps:
  "shutdown_lines se ce dbs Starting = []" "shutdown_lines se ce dbs Await_Signal = []"
  "shutdown_lines se ce dbs At_Shutdown = [(''shutting down gracefully, press Ctrl+C again to force'', None)]"
  "shutdown_lines se ce dbs In_Shutdown = shutdown_lines se ce dbs At_Shutdown"
  "shutdown_lines se ce dbs At_Close = shutdown_lines se ce dbs In_Shutdown
     @ (case se of None \<Rightarrow> [] | Some err \<Rightarrow> [(''server forced to shutdown'', Some err)])"
  "db_close ce dbs = (ls, res) \<Longrightarrow> shutdown_lines se ce dbs At_Last_Line = shutdown_lines se ce dbs At_Close
     @ ls @ (case res of None \<Rightarrow> [] | Some err \<Rightarrow> [(''database close error'', Some err)])"
  "shutdown_lines se ce dbs At_Send = shutdown_lines se ce dbs At_Last_Line @ [(''server exiting'', None)]"
  "shutdown_lines se ce dbs Finished = shutdown_lines se ce dbs At_Send"
  by (simp_all add: shutdown_lines_def Let_def)

lemma process_inv_step:
  assumes "process_step se ce dbs a s s'" and "process_inv se ce dbs s"
  shows "process_inv se ce dbs s'"
  using assms(1)
proof cases
  case (closes ls res)
  then show ?thesis
    using assms(2) shutdown_lines_steps(6) [OF closes(5)]
    by (simp add: process_inv_def add_lines_def alive_def)
next
  case receive_done
  with assms(2) show ?thesis
    by (simp add: process_inv_def add_lines_def alive_def split: if_splits)
qed (use assms(2) in \<open>auto simp: process_inv_def add_lines_def alive_def shutdown_lines_steps(1-5,7,8)\<close>)

lemma process_inv_start: "process_inv se ce dbs process_start"
  by (simp add: process_inv_def process_start_def shutdown_lines_steps(1) alive_def)

lemma process_inv_run: "process_run se ce dbs as s \<Longrightarrow> process_inv se ce dbs s"
  by (induction rule: process_run.induct) (blast intro: process_inv_start process_inv_step)+

text \<open>The order of the lines is that of the sequential shutdown.\<close>

lemma shutdown_lines_finished: "shutdown_lines se ce dbs Finished = graceful_shutdown se ce (Some dbs)"
  by (auto simp: shutdown_lines_def graceful_shutdown_def db_close_def split: option.split)

text \<open>Every step brings the process nearer to its end.\<close>

lemma process_step_measure:
  "process_step se ce dbs a s s' \<Longrightarrow>
     steps_left (pr_stop s') + main_left (pr_main s') < steps_left (pr_stop s) + main_left (pr_main s)"
  by (induction rule: process_step.induct) (auto simp: alive_def add_lines_def)

lemma process_run_length:
  "process_run se ce dbs as s \<Longrightarrow> length as + steps_left (pr_stop s) + main_left (pr_main s) \<le> 9"
  by (induction rule: process_run.induct) (auto simp: process_start_def dest!: process_step_measure)

text \<open>No deadlock: once the signal came, one of the two can go on.\<close>

lemma process_progress:
  assumes "process_inv se ce dbs s" "alive s" "pr_stop s \<noteq> Await_Signal"
  shows "\<exists>a s'. a \<noteq> Outside \<and> process_step se ce dbs a s s'"
proof (cases "pr_stop s")
  case Finished
  with assms have "pr_main s = Serving \<and> \<not> pr_listening s \<or> pr_main s = Waiting \<and> 0 < pr_done s"
    by (auto simp: process_inv_def alive_def)
  then show ?thesis by (auto intro: serve_closed receive_done)
next
  case At_Send
  with assms have "pr_done s < 1" by (simp add: process_inv_def)
  with assms At_Send show ?thesis by (blast intro: send)
next
  case At_Close
  obtain ls res where "db_close ce dbs = (ls, res)" by fastforce
  with assms At_Close show ?thesis by (blast intro: closes)
qed (use assms in \<open>blast intro: notify shutdown_begins shutdown_returns last_line\<close>)+

text \<open>And its own steps lead to the exit.\<close>

lemma own_step_ends:
  assumes "process_step se ce dbs a s s'" "a \<noteq> Outside" "pr_stop s \<notin> {Starting, Await_Signal}"
  shows "pr_stop s' \<notin> {Starting, Await_Signal} \<and> (alive s' \<or> pr_main s' = Ended Exited)"
  using assms by cases (auto simp: alive_def add_lines_def)

lemma process_finishes:
  assumes "process_run se ce dbs as s" "alive s" "pr_stop s \<notin> {Starting, Await_Signal}"
  shows "\<exists>bs s'. process_run se ce dbs (as @ bs) s' \<and> Outside \<notin> set bs \<and> pr_main s' = Ended Exited"
  using assms
proof (induction "steps_left (pr_stop s) + main_left (pr_main s)" arbitrary: as s rule: less_induct)
  case less
  obtain a s1 where step: "a \<noteq> Outside" "process_step se ce dbs a s s1"
    using process_progress [OF process_inv_run [OF less.prems(1)] less.prems(2)] less.prems(3) by blast
  note run = run_step [OF less.prems(1) step(2)]
  from own_step_ends [OF step(2,1) less.prems(3)] show ?case
  proof (elim conjE disjE)
    assume "alive s1" "pr_stop s1 \<notin> {Starting, Await_Signal}"
    then obtain bs s' where "process_run se ce dbs ((as @ [a]) @ bs) s'" "Outside \<notin> set bs" "pr_main s' = Ended Exited"
      using less.hyps [OF process_step_measure [OF step(2)] run] by blast
    with step(1) show ?thesis by (intro exI [of _ "a # bs"] exI [of _ s']) auto
  next
    assume "pr_main s1 = Ended Exited"
    with run step(1) show ?thesis by (intro exI [of _ "[a]"] exI [of _ s1]) auto
  qed
qed

subsection \<open>Shutting down\<close>

text \<open>C19. The shutdown is graceful under every interleaving: a process that exits by itself has closed
  the connection pool before, and has logged exactly what \<open>main\<close> followed by the shutdown, one after
  the other, would log. No process makes more than nine steps, and none hangs: once the signal
  was received, the program's own steps lead to the exit.\<close>

theorem shutdown_is_graceful:
  assumes "load_config dotenv e = Inr cfg" and "database_new driver (cfg_db cfg) (fst (logging_new cfg)) = Inr dbs"
    and "process_run se ce dbs as s"
  shows "(pr_main s = Ended Exited \<longrightarrow> \<not> pr_pool_open s
      \<and> (pr_log s, Exited) = api_main dotenv driver (\<lambda>srv. Server_Closed) se ce e)
    \<and> length as \<le> 9
    \<and> (alive s \<longrightarrow> pr_stop s \<notin> {Starting, Await_Signal} \<longrightarrow>
      (\<exists>bs s'. process_run se ce dbs (as @ bs) s' \<and> Outside \<notin> set bs \<and> pr_main s' = Ended Exited))"
proof -
  note inv = process_inv_run [OF assms(3)]
  have "api_main dotenv driver (\<lambda>srv. Server_Closed) se ce e
      = ((''starting server'', None) # graceful_shutdown se ce (Some dbs) @ [(''graceful shutdown complete'', None)], Exited)"
    using assms(1,2) by (simp add: api_main_def Let_def)
  moreover have "pr_stop s = Finished" "\<not> pr_pool_open s" "pr_log s = (''starting server'', None)
      # graceful_shutdown se ce (Some dbs) @ [(''graceful shutdown complete'', None)]" if "pr_main s = Ended Exited"
    using inv that by (simp_all add: process_inv_def shutdown_lines_finished)
  moreover have "length as \<le> 9" using process_run_length [OF assms(3)] by simp
  ultimately show ?thesis using process_finishes [OF assms(3)] by simp
qed

text \<open>A run with a signal, and then only the program's own steps.\<close>

lemma sample_process:
  "\<exists>as s. process_run None None dbs (Goroutine # Outside # as) s \<and> Outside \<notin> set as \<and> pr_main s = Ended Exited"
proof -
  note simps = process_start_def alive_def add_lines_def
  obtain s1 where s1: "process_run None None dbs ([] @ [Goroutine]) s1" "pr_main s1 = Serving" "pr_stop s1 = Await_Signal"
    using run_step [OF run_start notify, of None None dbs] by (fastforce simp: simps)
  obtain s2 where "process_run None None dbs (([] @ [Goroutine]) @ [Outside]) s2" "pr_main s2 = Serving" "pr_stop s2 = At_Shutdown"
    using run_step [OF s1(1) signalled] s1 by (fastforce simp: simps)
  then show ?thesis using process_finishes [of None None dbs "[Goroutine, Outside]" s2] by (auto simp: alive_def)
qed

theorem shutdown_is_graceful_witness:
  "\<exists>cfg dbs as s. database_new (\<lambda>_ _. None) (cfg_db cfg) (fst (logging_new cfg)) = Inr dbs
     \<and> process_run None None dbs as s \<and> Outside \<in> set as \<and> pr_main s = Ended Exited \<and> length as \<le> 9
     \<and> (pr_log s, Exited) = api_main (\<lambda>e. e) (\<lambda>_ _. None) (\<lambda>srv. Server_Closed) None None (\<lambda>k. None)"
proof -
  obtain cfg where cfg: "load_config (\<lambda>e. e) (\<lambda>k. None) = Inr cfg"
    by (cases "load_config (\<lambda>e. e) (\<lambda>k. None)")
      (simp_all add: load_config_def Let_def validate_built os_getenv_def split: if_splits)
  obtain dbs where dbs: "database_new (\<lambda>_ _. None) (cfg_db cfg) (fst (logging_new cfg)) = Inr dbs"
    by (simp add: database_new_def sql_open_def)
  obtain as s where "process_run None None dbs (Goroutine # Outside # as) s" "pr_main s = Ended Exited"
    using sample_process by blast
  with shutdown_is_graceful [OF cfg dbs this(1)] dbs show ?thesis by (metis list.set_intros(1,2))
qed

end
