(* ===== verification/Test_Support.thy ===== *)
theory Test_Support
  imports Commands
begin

section \<open>The database of the integration tests (internal/testutil)\<close>

text \<open>
  \<open>SkipIfNoDocker\<close>, \<open>StartPostgres\<close> and \<open>SetupTestDB\<close>: a test is skipped, fails, or gets a
  database; what it registered with \<open>t.Cleanup\<close> runs at its end, the last first. Docker and
  testcontainers are parameters. The lemmas say that no outcome leaks a container or a pool: what
  was started is registered for removal.
\<close>

subsection \<open>Tests\<close>

datatype 'a test_result = Test_Ok 'a | Test_Skipped string | Test_Fatal string

datatype 'c cleanup = Terminate_Container 'c | Close_DB sql_db

text \<open>What \<open>t.Skipf\<close> and \<open>t.Fatalf\<close> print after the message is the error.\<close>

definition skipf :: "string \<Rightarrow> go_error \<Rightarrow> 'a test_result" where
  "skipf m err = Test_Skipped (m @ '': '' @ error_string err)"

definition fatalf :: "string \<Rightarrow> go_error \<Rightarrow> 'a test_result" where
  "fatalf m err = Test_Fatal (m @ '': '' @ error_string err)"

subsection \<open>Docker\<close>

text \<open>The socket (\<open>os.Stat\<close> and a dial), and the module for PostgreSQL: \<open>Run\<close> with an image, a
  database, a user and a password (the log line it waits for is always the same), the host and the
  mapped port of a container, \<open>Terminate\<close>.\<close>

record 'c docker_lib =
  dk_stat :: "string \<Rightarrow> go_error option"
  dk_dial :: "string \<Rightarrow> string \<Rightarrow> go_error option"
  dk_run :: "string \<Rightarrow> string \<Rightarrow> string \<Rightarrow> string \<Rightarrow> go_error + 'c"
  dk_host :: "'c \<Rightarrow> go_error + string"
  dk_mapped_port :: "'c \<Rightarrow> string \<Rightarrow> go_error + string"
  dk_terminate :: "'c \<Rightarrow> go_error option"

definition postgres_image :: string where
  "postgres_image = ''postgres:16-alpine''"

definition skip_if_no_docker :: "'c docker_lib \<Rightarrow> unit test_result" where
  "skip_if_no_docker D =
     (case dk_stat D ''/var/run/docker.sock'' of
        Some err \<Rightarrow> skipf ''docker socket not found, skipping integration test'' err
      | None \<Rightarrow>
          (case dk_dial D ''unix'' ''/var/run/docker.sock'' of
             Some err \<Rightarrow> skipf ''docker socket not accessible, skipping integration test'' err
           | None \<Rightarrow> Test_Ok ()))"

text \<open>The configuration before the container runs; host and port are still the zero values.\<close>

definition test_db_config :: db_config where
  "test_db_config =
     \<lparr>dbc_host = '''', dbc_port = 0, dbc_name = ''database'', dbc_user = ''user'', dbc_password = ''password'',
      dbc_schema = ''public'', dbc_ssl_mode = ''disable'', dbc_max_conns = 25, dbc_max_idle = 5\<rparr>"

text \<open>The result with what was registered with \<open>t.Cleanup\<close>, in the order of registration.\<close>

definition start_postgres :: "'c docker_lib \<Rightarrow> db_config test_result \<times> 'c cleanup list" where
  "start_postgres D =
     (case skip_if_no_docker D of
        Test_Skipped m \<Rightarrow> (Test_Skipped m, [])
      | Test_Fatal m \<Rightarrow> (Test_Fatal m, [])
      | Test_Ok _ \<Rightarrow>
          (let cfg = test_db_config in
           case dk_run D postgres_image (dbc_name cfg) (dbc_user cfg) (dbc_password cfg) of
             Inl err \<Rightarrow> (fatalf ''could not start postgres container'' err, [])
           | Inr c \<Rightarrow>
               (case dk_host D c of
                  Inl err \<Rightarrow> (fatalf ''could not get container host'' err, [Terminate_Container c])
                | Inr host \<Rightarrow>
                    (case dk_mapped_port D c ''5432/tcp'' of
                       Inl err \<Rightarrow> (fatalf ''could not get mapped port'' err, [Terminate_Container c])
                     | Inr port_str \<Rightarrow>
                         (let port = (if port_str \<noteq> '''' then
                                        (case atoi port_str of Some n \<Rightarrow> n | None \<Rightarrow> 5432)
                                      else 5432)
                          in (Test_Ok (cfg\<lparr>dbc_host := host, dbc_port := port\<rparr>), [Terminate_Container c]))))))"

definition setup_test_db ::
    "'c docker_lib \<Rightarrow> (string \<Rightarrow> string \<Rightarrow> go_error option) \<Rightarrow> 'd goose_lib \<Rightarrow> 'd
      \<Rightarrow> sql_db test_result \<times> 'c cleanup list \<times> 'd" where
  "setup_test_db D driver G s =
     (case start_postgres D of
        (Test_Skipped m, cs) \<Rightarrow> (Test_Skipped m, cs, s)
      | (Test_Fatal m, cs) \<Rightarrow> (Test_Fatal m, cs, s)
      | (Test_Ok cfg, cs) \<Rightarrow>
          (case sql_open driver ''pgx'' (dsn cfg) of
             Inl err \<Rightarrow> (fatalf ''could not open db'' err, cs, s)
           | Inr conn \<Rightarrow>
               (let cs1 = cs @ [Close_DB conn] in
                case gs_set_dialect G ''postgres'' of
                  Some err \<Rightarrow> (fatalf ''set goose dialect'' err, cs1, s)
                | None \<Rightarrow>
                    (case gs_up G conn ''.'' s of
                       (Some err, s1) \<Rightarrow> (fatalf ''apply migrations'' err, cs1, s1)
                     | (None, s1) \<Rightarrow> (Test_Ok conn, cs1, s1)))))"

text \<open>The cleanup functions at the end of a test, the last registered first: the messages of those
  that fail.\<close>

fun run_cleanup :: "'c docker_lib \<Rightarrow> (sql_db \<Rightarrow> go_error option) \<Rightarrow> 'c cleanup \<Rightarrow> string list" where
  "run_cleanup D close (Terminate_Container c) =
     (case dk_terminate D c of None \<Rightarrow> []
      | Some err \<Rightarrow> [''could not teardown postgres container: '' @ error_string err])"
| "run_cleanup D close (Close_DB conn) =
     (case close conn of None \<Rightarrow> [] | Some err \<Rightarrow> [''close test db: '' @ error_string err])"

definition run_cleanups :: "'c docker_lib \<Rightarrow> (sql_db \<Rightarrow> go_error option) \<Rightarrow> 'c cleanup list \<Rightarrow> string list" where
  "run_cleanups D close cs = concat (map (run_cleanup D close) (rev cs))"

subsection \<open>What a test gets, and what it leaves behind\<close>

text \<open>A container that runs is removed whatever becomes of the test, and only such a container.\<close>

lemma start_postgres_cleanup:
  assumes "start_postgres D = (res, cs)"
  shows "cs = [] \<and> (\<forall>cfg. res \<noteq> Test_Ok cfg)
    \<or> (\<exists>c. cs = [Terminate_Container c] \<and> dk_run D postgres_image ''database'' ''user'' ''password'' = Inr c)"
  using assms
  by (auto simp: start_postgres_def fatalf_def test_db_config_def Let_def split: test_result.splits sum.splits)

text \<open>A test that gets a database has it migrated, and at its end the pool is closed before the
  container is removed.\<close>

lemma setup_test_db_ok:
  assumes "setup_test_db D driver G s = (Test_Ok conn, cs, s')"
  shows "gs_up G conn ''.'' s = (None, s')
    \<and> (\<exists>c. cs = [Terminate_Container c, Close_DB conn]
         \<and> run_cleanups D close cs = run_cleanup D close (Close_DB conn) @ run_cleanup D close (Terminate_Container c))"
proof -
  obtain cfg cs0 where start: "start_postgres D = (Test_Ok cfg, cs0)"
    using assms by (auto simp: setup_test_db_def split: prod.splits test_result.splits)
  then obtain c where "cs0 = [Terminate_Container c]" using start_postgres_cleanup by blast
  with assms start have "gs_up G conn ''.'' s = (None, s')" "cs = [Terminate_Container c, Close_DB conn]"
    by (auto simp: setup_test_db_def fatalf_def Let_def split: sum.splits option.splits prod.splits)
  then show ?thesis by (intro conjI exI [of _ c]) (simp_all add: run_cleanups_def)
qed

text \<open>Without a database the schema stays as it is.\<close>

lemma setup_test_db_skipped:
  assumes "setup_test_db D driver G s = (Test_Skipped m, cs, s')"
  shows "cs = [] \<and> s' = s \<and> skip_if_no_docker D = Test_Skipped m"
  using assms
  by (auto simp: setup_test_db_def start_postgres_def fatalf_def Let_def
      split: prod.splits test_result.splits sum.splits option.splits)

end
