(* ===== verification/Spec2Isabelle.thy ===== *)
theory Spec2Isabelle
  imports Session_Claims Refresh_Race User_Claims Api_User_Claims Api_Session_Claims Rate_Claims Config_Claims
    Response_Laws Api_Process Test_Support
begin

text \<open>
  A verification development for \<open>gostartv2\<close>, a web service in Go with users, sessions and
  PostgreSQL. Every layer of the service is translated into executable definitions, from the SQL
  statements up to the bytes of a response, and composed the way \<open>NewServer\<close> composes it.

  \<^bold>\<open>The program and its parts.\<close> A request passes the middleware
  (\<open>internal/middleware\<close>), falls to one route of \<open>internal/server/routes.go\<close> and is answered by a
  handler (\<open>internal/handlers\<close>), which reads it with \<open>internal/httpx\<close>, calls a service
  (\<open>internal/services\<close>) through an interface and writes JSON. The services make and check secrets
  (\<open>internal/auth\<close>) and reach the tables through repositories (\<open>internal/repositories\<close>) over the
  generated queries (\<open>internal/db/sqlc\<close>). \<open>internal/config\<close>, \<open>internal/database\<close> and
  \<open>internal/logging\<close> prepare the start; \<open>cmd/api\<close> and \<open>cmd/migrate\<close> are the programs.

  \<^bold>\<open>State and effects.\<close> Operations pass their state explicitly. \<open>env\<close> (\<open>Runtime\<close>) is what a
  Go function can observe of the outside: a step counter \<open>tick\<close> and, for each step, the time, the
  random bytes, the UUID and the fault of the connection there. Every interaction takes a step, so
  a statement about \<open>w\<close> holds for all clocks, random sources and faults. \<open>world\<close> (\<open>Sql_Store\<close>)
  adds the two tables; \<open>server_state\<close> (\<open>Server\<close>) adds the rate limiters and the access log. A
  fault loses a statement before or after it took effect. Errors are values of \<open>go_error\<close>
  (\<open>Prelude\<close>) with \<open>errors.Is\<close> and \<open>errors.As\<close> as searches; a Go result \<open>(T, error)\<close> is
  \<open>go_error + 'a\<close>, a nil pointer \<open>None\<close>. Go strings are byte lists, 32-bit integers
  \<open>32 word\<close>, instants and durations nanoseconds in \<open>int\<close>.

  \<^bold>\<open>Theories, bottom up.\<close>
  \<^item> \<open>Prelude\<close>, \<open>Runtime\<close>: the Go types, \<open>go_error\<close>, the environment, the collections
    \<open>frame_simps\<close>, \<open>table_simps\<close> and \<open>op_defs\<close>, and list lemmas.
  \<^item> \<open>Encoding\<close>, \<open>Sha256\<close>, \<open>Sha256_Vectors\<close>, \<open>Refresh_Secret\<close>
    (\<open>internal/auth/random.go\<close>): base64url, hex and SHA-256 in full, the round trips of the
    encodings, \<open>GenerateRefreshToken\<close> and \<open>HashRefreshToken\<close>.
  \<^item> \<open>Access_Token\<close> (\<open>internal/auth/jwt.go\<close>): \<open>Sign\<close> and \<open>Verify\<close> with every branch of the
    error mapping; what was signed verifies until it expires.
  \<^item> \<open>Models\<close>, \<open>Sql_Store\<close>, \<open>Sql_Laws\<close> (\<open>internal/models\<close>, \<open>internal/db/sqlc\<close>,
    \<open>migrations/\<close>): the records, the rows, one definition per SQL statement and per generated
    method, the constraints; \<open>db_ok\<close> is the integrity that every statement keeps.
  \<^item> \<open>Contracts\<close>: the consumer-side interfaces of the services as locales (\<open>refresh_store\<close>,
    \<open>live_store\<close>, \<open>user_lookup\<close>, \<open>auth_stores\<close>, \<open>live_stores\<close>, \<open>user_store\<close>,
    \<open>live_users\<close>), with the bcrypt package.
  \<^item> \<open>Repositories\<close>, \<open>User_Store\<close>, \<open>Live_Store\<close> (\<open>internal/repositories\<close>): every
    repository method and \<open>WithTx\<close>, and the interpretations \<open>tokens\<close>, \<open>lookup\<close>, \<open>users\<close>,
    \<open>live\<close> and \<open>live_user\<close>, which prove the contracts for the tables.
  \<^item> \<open>Auth_Service\<close>, \<open>Sessions\<close>, \<open>Auth_Live\<close> (\<open>internal/services/auth_service.go\<close>):
    \<open>Login\<close>, \<open>Refresh\<close>, \<open>Logout\<close> and \<open>LogoutAll\<close>, what each does to the tokens in every
    branch, runs of them, and the answers while nothing fails. \<open>Session_Spec\<close>: the abstract
    contract \<open>session_spec\<close>, the map \<open>sessions_of\<close> from the token table to sessions, and the
    simulation, in the locale \<open>session_stores\<close> (interpreted as \<open>sessions\<close>). \<open>Refresh_Race\<close>: the same
    \<open>Refresh\<close> in small steps, any number of calls interleaved, as \<open>inductive sched_step\<close>; run
    alone, the steps are \<open>auth_refresh\<close> (\<open>refresh_alone\<close>).
  \<^item> \<open>Paging\<close>, \<open>User_Service\<close> (\<open>internal/services/user_service.go\<close>): \<open>Create\<close>, \<open>Get\<close>,
    \<open>GetByEmail\<close>, \<open>List\<close>, \<open>Update\<close>, \<open>Delete\<close>, against the
    abstract page \<open>user_page\<close> of a list of users.
  \<^item> \<open>Utf8\<close>, \<open>Json\<close>, \<open>Json_Laws\<close>, \<open>Strconv\<close>, \<open>Time_Text\<close>, \<open>Http\<close>: what the program uses
    of Go's standard library (UTF-8, \<open>encoding/json\<close>, \<open>strconv\<close>, \<open>strings\<close>, RFC 3339, queries,
    cookies, \<open>http.ResponseWriter\<close>), with its round trips.
  \<^item> \<open>Httpx\<close> (\<open>internal/httpx\<close>), \<open>Middleware\<close> (\<open>internal/middleware\<close>), \<open>Handler_Support\<close>,
    \<open>User_Handler\<close>, \<open>Auth_Handler\<close> (\<open>internal/handlers\<close>): a handler maps a request, a writer and a
    state to a writer and a state. The locales \<open>token_verifier_laws\<close>, \<open>user_api\<close> and
    \<open>auth_api\<close> are the interfaces \<open>Verifier\<close>, \<open>userService\<close> and \<open>authService\<close>; their
    interpretations \<open>verifier_laws\<close>, \<open>users_served\<close> and \<open>auth_served\<close> are on the real services.
  \<^item> \<open>Config\<close>, \<open>Database\<close>, \<open>Server\<close>, \<open>Commands\<close>: \<open>Load\<close> and \<open>Validate\<close>, the pool and the
    loggers, the wiring and the table of routes, and the two programs. \<open>Api_Process\<close>: \<open>main\<close> and the
    shutdown goroutine of \<open>cmd/api\<close> interleaved, with the signals and the channel \<open>done\<close>.
  \<^item> \<open>Test_Support\<close> (\<open>internal/testutil\<close>): the database of the integration tests and what is
    registered for cleanup.
  \<^item> \<open>Response_Laws\<close>, \<open>Hash_Secrecy\<close>, \<open>Round_Trips\<close>: the shape of every response, the
    noninterference of the user endpoints, and what a client sends back of what it was sent.
  \<^item> \<open>Samples\<close>, \<open>Api_Samples\<close>: concrete packages and states, which show that the hypotheses of
    the properties can hold. They model no code.

  \<^bold>\<open>Properties.\<close> \<open>Auth_Claims\<close>: rotation of refresh tokens, reuse detection, one active token
  per session, refusal and failure of \<open>Refresh\<close> and \<open>Login\<close>, and what \<open>Logout\<close> ends;
  \<open>Session_Claims\<close>: all of them as a refinement of the contract of sessions.
  \<open>Refresh_Race\<close>: what survives concurrency and what does not. \<open>User_Claims\<close>: complete and
  bounded pages, and the exact effect of each operation. \<open>Api_User_Claims\<close>: the user endpoints
  reveal no password hash, admit only valid input and refine the abstract page.
  \<open>Api_Session_Claims\<close>: the cookie of a login comes back, a copied one ends its session, and the status of each
  failure. \<open>Api_Process\<close>: the shutdown closes the pool before the process exits and never hangs.
  \<open>Rate_Claims\<close>, \<open>Config_Claims\<close>: the limits per client and the guards in production. The
  properties below are about the whole API: integrity under any requests, the protection of the
  routes, the shape of the responses, and what a session permits. Where the code does not do what
  a comment or the README says, the property states what the code does and its text names the
  other: rotation that is not atomic, a rate limit by address and port, a wildcard origin that
  production accepts in a longer list.

  \<^bold>\<open>Bounds and fuel.\<close> \<open>json_parse\<close> runs \<open>parse_value\<close> with fuel \<open>Suc (2 * length s)\<close>;
  \<open>parse_fuel\<close> shows that more changes nothing. Nesting is limited to 10000 and a body to 1 MB
  as in the code. \<open>fetch_pages\<close> takes the number of requests; the number of users plus one is
  enough (\<open>pages_enumerate_users\<close>). Every other loop is structural or has its measure.

  \<^bold>\<open>Parameters.\<close> Packages that are not part of the repository are records of functions with
  their documented behaviour as a predicate: golang-jwt (\<open>jwt_documented\<close>), bcrypt, the validator
  (\<open>validator_documented\<close>), google/uuid (\<open>uuid_documented\<close>), x/time/rate (\<open>rate_documented\<close>),
  chi with its middleware and go-chi/cors
  (\<open>router_documented\<close>, \<open>middleware_documented\<close>), godotenv, the driver, goose, Docker and
  testcontainers.
  PostgreSQL is modelled as far as the twelve statements on the two tables and their constraints go;
  \<open>WithTx\<close> rolls back to the tables at its begin.

  \<^bold>\<open>Not modelled.\<close> The inside of \<open>http.Server\<close> (that \<open>Shutdown\<close> returns within its time-out
  is taken for granted), deadlines and cancellation of a \<open>context.Context\<close> (they appear as
  connection faults), text that PostgreSQL refuses (a NUL byte or invalid UTF-8; a connection fault
  too), panics of handlers and what \<open>Recoverer\<close> does with them, the text that \<open>slog\<close>
  prints, the verb \<open>%q\<close> (a parameter), the limits of \<open>net/http\<close> on the number of cookies and
  parameters, the generated interface \<open>Querier\<close> (no code calls through it), and the directive
  that embeds the migrations (\<open>migrations/embed.go\<close>).
\<close>

section \<open>Properties of the API\<close>

text \<open>
  Statements about the routes of \<open>RegisterRoutes\<close> with the handlers, services and
  repositories behind them as \<open>NewServer\<close> wires them.
\<close>

subsection \<open>Whole requests\<close>

text \<open>C10. No sequence of requests, whatever they contain and whatever connection faults they meet,
  breaks the integrity of the database: ids, addresses and token digests stay unique and every
  refresh token belongs to a stored user. And every request leaves exactly one line in the access
  log, in the order of the requests. This is the whole server, all middleware included.\<close>

theorem requests_keep_integrity:
  assumes "router_documented R" and "middleware_documented C" and "world_ok (ss_world s)"
    and "serve_all (serve_http C R P (new_server P cfg lg dbs)) rs s = (ws, s')"
  shows "world_ok (ss_world s')
    \<and> map (\<lambda>e. (le_method e, le_path e)) (ss_log s')
      = map (\<lambda>e. (le_method e, le_path e)) (ss_log s) @ map (\<lambda>r. (rq_method r, rq_path r)) rs"
  using assms(3,4)
proof (induction rs arbitrary: s ws)
  case (Cons r rs)
  let ?h = "serve_http C R P (new_server P cfg lg dbs)"
  obtain w1 s1 where h: "?h r new_writer s = (w1, s1)" by fastforce
  obtain ws1 where rest: "serve_all ?h rs s1 = (ws1, s')" using Cons.prems(2) by (auto simp: h split: prod.splits)
  obtain e where e: "ss_log s1 = ss_log s @ [e]" "le_method e = rq_method r" "le_path e = rq_path r"
      "world_ok (ss_world s) \<longrightarrow> world_ok (ss_world s1)"
    by (rule serve_http_step [OF assms(1,2) h])
  from Cons.IH [OF e(4) [rule_format, OF Cons.prems(1)] rest] show ?case by (simp add: e(1-3))
qed simp

theorem requests_keep_integrity_witness:
  "let s' = snd (serve_all (serve_http sample_chi sample_router sample_packages
     (new_server sample_packages sample_config sample_logger sample_db)) [sample_request, sample_request] (start_state (sample_world [])))
   in world_ok (ss_world s') \<and> map le_path (ss_log s') = [rq_path sample_request, rq_path sample_request]"
proof -
  have "world_ok (ss_world (start_state (sample_world [])))" by (simp add: start_state_def sample_world_ok)
  from requests_keep_integrity [OF sample_router_documented sample_chi_documented this prod.collapse [symmetric],
      of sample_packages sample_config sample_logger sample_db "[sample_request, sample_request]"]
  show ?thesis
    unfolding Let_def by (auto simp: start_state_def dest: arg_cong [where f = "map snd"] simp: comp_def)
qed

definition public_routes :: "(string \<times> string) list" where
  "public_routes =
     [(''GET'', ''/''), (''GET'', ''/health''), (''GET'', ''/ready''), (''POST'', ''/api/v1/auth/login''),
      (''POST'', ''/api/v1/auth/refresh''), (''POST'', ''/api/v1/auth/logout''), (''POST'', ''/api/v1/users/'')]"

text \<open>C2. Every route but the seven public ones demands an access token: without a bearer token
  that the verifier accepts the answer is 401 and the database and the rate limiters are as
  before.\<close>

theorem protected_routes_need_token:
  assumes "rt \<in> set (register_routes P srv)" and "fst rt \<notin> set public_routes"
    and "\<forall>t. bearer_token r = Some t \<longrightarrow> (\<exists>e. fst (verifier_verify (pk_jwt P) (sv_verifier srv) t (ss_world s)) = Inl e)"
    and "rw_status w = None" and "snd rt r w s = (w', s')"
  shows "rw_status w' = Some 401 \<and> db (ss_world s') = db (ss_world s)
    \<and> ss_login_limiter s' = ss_login_limiter s \<and> ss_register_limiter s' = ss_register_limiter s"
proof -
  obtain h where h: "snd rt = on_world (auth_middleware (as_token_verifier (pk_jwt P) (sv_verifier srv)) h)"
    using assms(1,2) by (auto simp: register_routes_def Let_def public_routes_def)
  obtain x' where run: "auth_middleware (as_token_verifier (pk_jwt P) (sv_verifier srv)) h r w (ss_world s) = (w', x')"
    and s': "s' = s\<lparr>ss_world := x'\<rparr>"
    using assms(5) by (auto simp: h on_world_def split: prod.splits)
  from run show ?thesis
  proof (cases rule: verifier_laws.auth_cases)
    case (rejected code msg)
    with assms(4) s' show ?thesis by auto
  next
    case (accepted t cl s1)
    with assms(3) show ?thesis by (auto simp: as_token_verifier_def)
  qed
qed

theorem protected_routes_need_token_witness:
  "\<exists>h. ((''DELETE'', ''/api/v1/users/{id}''), h) \<in> set (register_routes sample_packages (new_server sample_packages sample_config sample_logger sample_db))
     \<and> rw_status (fst (h sample_request new_writer (start_state (sample_world [])))) = Some 401
     \<and> db (ss_world (snd (h sample_request new_writer (start_state (sample_world []))))) = db (sample_world [])"
proof -
  let ?rs = "register_routes sample_packages (new_server sample_packages sample_config sample_logger sample_db)"
  obtain h where h: "((''DELETE'', ''/api/v1/users/{id}''), h) \<in> set ?rs"
    by (simp add: register_routes_def Let_def)
  have "bearer_token sample_request = None"
    by (simp add: bearer_token_def header_get_def first_value_def sample_request_def)
  then show ?thesis
    using protected_routes_need_token [OF h, of sample_request "start_state (sample_world [])" new_writer] h
    by (cases "h sample_request new_writer (start_state (sample_world []))")
      (auto simp: public_routes_def start_state_def)
qed

text \<open>C18. Every response has the documented shape, whichever route answers and whatever the request
  and the state are: one status that the API uses, a JSON value as the body of a success (nothing
  if a stored time cannot be written), no body with 204, and with every other status the envelope
  \<open>{"error":{"code","message"}}\<close>.\<close>

theorem responses_well_formed:
  assumes "rt \<in> set (register_routes P srv)" and "snd rt r new_writer s = (w', s')"
  shows "well_formed w'"
proof -
  from assms(1) have "answers (snd rt)" using routes_answer by blast
  from answersD [OF this _ assms(2)] show ?thesis by (simp add: fresh_writer_def)
qed

theorem responses_well_formed_witness:
  "\<exists>h. ((''POST'', ''/api/v1/auth/refresh''), h) \<in> set (register_routes sample_packages (new_server sample_packages sample_config sample_logger sample_db))
     \<and> well_formed (fst (h sample_request new_writer (start_state (sample_world []))))"
proof -
  let ?rs = "register_routes sample_packages (new_server sample_packages sample_config sample_logger sample_db)"
  obtain h where h: "((''POST'', ''/api/v1/auth/refresh''), h) \<in> set ?rs"
    by (simp add: register_routes_def Let_def)
  with responses_well_formed [OF h prod.collapse [symmetric]] show ?thesis by auto
qed

subsection \<open>Sessions\<close>

text \<open>C15. The access token of a successful login opens the protected routes: until a second before
  it expires the middleware hands the request on, with the id of the user who logged in and the
  chain of the session the login started.\<close>

theorem login_token_opens_routes:
  assumes "jwt_documented J"
    and "auth_login J B (pool_auth_service (new_signer secret issuer ttl) rttl) email pw x = (Inr (access, plain), x')"
    and "bearer_token r = Some access"
    and "\<forall>k. tick x \<le> k \<and> k < tick x' \<longrightarrow>
      clock_at x k \<le> clock_at y (tick y) \<and> clock_at y (tick y) + second \<le> clock_at x k + ttl"
  shows "\<exists>u\<in>set (world_users x). \<exists>t. u_email u = email \<and> bc_compare B (u_password_hash u) pw = None
    \<and> world_tokens x' = world_tokens x @ [t] \<and> t_user_id t = u_id u
    \<and> auth_middleware (as_token_verifier J (new_verifier secret issuer)) h r w y
      = h (r\<lparr>rq_ctx := with_user (rq_ctx r) (u_id u) (t_chain_id t)\<rparr>) w (next_tick y)"
  using assms(2) pool_auth_service_sel(2,1)
proof (cases rule: auth.login_cases)
  case (matched u k w2)
  let ?sg = "new_signer secret issuer ttl"
  from matched(6) pool_auth_service_sel(2) show ?thesis
  proof (cases rule: tokens.issue_cases)
    case (issued t a pl w4)
    have sign: "signer_sign J ?sg (u_id u) (uuid_at x k) w4 = (Inr access, x')" using issued by simp
    have end4: "x' = next_tick w4" using sign by (rule signer_sign_state)
    have w4: "clock_at w4 = clock_at x" "tick x \<le> tick w4" "tick w4 < tick x'"
      using matched issued end4 by (auto simp: env_step_def)
    then have now: "clock_at x (tick w4) \<le> clock_at y (tick y)" "clock_at y (tick y) + second \<le> clock_at x (tick w4) + ttl"
      using assms(4) by blast+
    let ?cl = "sign_claims J ?sg (u_id u) (uuid_at x k) (clock_at w4 (tick w4))"
    have dates: "c_not_before ?cl \<le> clock_at x (tick w4)" "clock_at x (tick w4) + ttl < c_expires_at ?cl + second"
      using assms(1) w4(1) by (simp_all add: jwt_documented_def sign_claims_def new_signer_def)
    have "fst (verifier_verify J (new_verifier secret issuer) access y) = Inr ?cl"
      using verify_signed [OF assms(1) sign, of y] dates now by (simp add: Let_def)
    then have "verifier_verify J (new_verifier secret issuer) access y = (Inr ?cl, next_tick y)"
      using verifier_verify_state by (metis prod.collapse)
    then have "auth_middleware (as_token_verifier J (new_verifier secret issuer)) h r w y
        = h (r\<lparr>rq_ctx := with_user (rq_ctx r) (u_id u) (t_chain_id t)\<rparr>) w (next_tick y)"
      using issued assms(3) by (simp add: auth_middleware_def as_token_verifier_def sign_claims_def)
    with matched issued show ?thesis by (intro bexI [of _ u] exI [of _ t]) auto
  qed simp_all
qed simp_all

theorem login_token_opens_routes_witness:
  "\<exists>access plain w'. auth_login sample_jwt sample_bcrypt sample_auth ''ada@example.com'' ''open sesame'' (sample_world [])
       = (Inr (access, plain), w')
     \<and> auth_middleware (as_token_verifier sample_jwt (new_verifier ''secret'' ''gostart''))
         (\<lambda>r w s. (w\<lparr>rw_status := Some (if fst (user_from_context (rq_ctx r)) = 1 then 200 else 500)\<rparr>, s))
         (with_bearer access) new_writer (sample_world [])
       = (new_writer\<lparr>rw_status := Some 200\<rparr>, next_tick (sample_world []))"
proof -
  let ?W = "sample_world []"
  let ?h = "\<lambda>r w s. (w\<lparr>rw_status := Some (if fst (user_from_context (rq_ctx r)) = 1 then 200 else 500)\<rparr>, s)"
  obtain a p w' where run: "auth_login sample_jwt sample_bcrypt sample_auth ''ada@example.com'' ''open sesame'' ?W
      = (Inr (a, p), w')" and a: "a \<noteq> ''''" by (rule sample_login)
  have time: "\<forall>k. tick ?W \<le> k \<and> k < tick w' \<longrightarrow>
      clock_at ?W k \<le> clock_at ?W (tick ?W) \<and> clock_at ?W (tick ?W) + second \<le> clock_at ?W k + 15 * minute"
    by (simp add: second_def minute_def)
  from login_token_opens_routes [OF sample_jwt_documented run [unfolded sample_signer_def]
      with_bearer_token [OF a] time, of ?h new_writer]
  have "auth_middleware (as_token_verifier sample_jwt (new_verifier ''secret'' ''gostart'')) ?h (with_bearer a) new_writer ?W
      = (new_writer\<lparr>rw_status := Some 200\<rparr>, next_tick ?W)"
    by (auto simp: sample_user_def)
  with run show ?thesis by blast
qed

text \<open>C35. Whose session it is does not matter: any access token that verifies deletes any user, with
  all of that user's sessions. (The README announces that there is no authorization layer.)\<close>

theorem any_session_deletes_any_user:
  assumes "((''DELETE'', ''/api/v1/users/{id}''), h) \<in> set (register_routes P (new_server P cfg lg dbs))"
    and "bearer_token r = Some t"
    and "fst (verifier_verify (pk_jwt P) (sv_verifier (new_server P cfg lg dbs)) t (ss_world s)) = Inr cl"
    and "ul_parse (pk_uuid P) (first_value (rq_url_params r) ''id'') = Inr i"
    and "world_ok (ss_world s)" and "fault_at (ss_world s) (Suc (tick (ss_world s))) = None"
    and "rw_status w = None" and "h r w s = (w', s')"
  shows "rw_status w' = Some 204
    \<and> world_users (ss_world s') = filter (\<lambda>u. u_id u \<noteq> i) (world_users (ss_world s))
    \<and> world_tokens (ss_world s') = filter (\<lambda>k. t_user_id k \<noteq> i) (world_tokens (ss_world s))"
proof -
  let ?x = "ss_world s" and ?uh = "sv_user_handler (new_server P cfg lg dbs)"
  have h: "h = on_world (auth_middleware (as_token_verifier (pk_jwt P) (sv_verifier (new_server P cfg lg dbs)))
      (user_handler_delete (pk_uuid P) ?uh))"
    using assms(1) by (auto simp: register_routes_def Let_def)
  have verified: "verifier_verify (pk_jwt P) (sv_verifier (new_server P cfg lg dbs)) t ?x = (Inr cl, next_tick ?x)"
    using assms(3) verifier_verify_state by (metis prod.collapse)
  obtain d x' where del: "user_service_delete pool_user_service i (next_tick ?x) = (d, x')" by fastforce
  have "d = None"
    using del assms(6) by (auto simp: user_service_delete_def as_user_repo_def user_repo_delete_def q_delete_user_def
        run_stmt_def run_on_pool_def stmt_out_def sql_delete_user_def next_tick_def split: prod.splits option.splits sum.splits if_splits)
  with del assms(5) have effect: "world_users x' = filter (\<lambda>u. u_id u \<noteq> i) (world_users ?x)"
      "world_tokens x' = filter (\<lambda>k. t_user_id k \<noteq> i) (world_tokens ?x)"
    using user_service_delete_effect [of "next_tick ?x" i x'] by (simp_all add: world_ok_def)
  have "w' = respond_no_content w \<and> ss_world s' = x'"
    using assms(2,4,8) verified del \<open>d = None\<close>
    by (auto simp: h on_world_def auth_middleware_def as_token_verifier_def user_handler_delete_def parse_user_id_def)
  with effect assms(7) show ?thesis by simp
qed

theorem any_session_deletes_any_user_witness:
  "\<exists>h t cl. ((''DELETE'', ''/api/v1/users/{id}''), h) \<in> set (register_routes sample_packages (new_server sample_packages sample_config sample_logger sample_db))
     \<and> fst (verifier_verify sample_jwt (sv_verifier (new_server sample_packages sample_config sample_logger sample_db)) t (sample_world [])) = Inr cl
     \<and> c_user_id cl = 7
     \<and> world_users (ss_world (snd (h ((with_bearer t)\<lparr>rq_url_params := [(''id'', ''11'')]\<rparr>) new_writer (start_state (sample_world []))))) = []"
proof -
  let ?rs = "register_routes sample_packages (new_server sample_packages sample_config sample_logger sample_db)"
  let ?s = "start_state (sample_world []) :: nat server_state"
  obtain h where h: "((''DELETE'', ''/api/v1/users/{id}''), h) \<in> set ?rs"
    by (simp add: register_routes_def Let_def)
  obtain t cl where t: "t \<noteq> ''''" "c_user_id cl = 7"
    "fst (verifier_verify sample_jwt (sv_verifier (new_server sample_packages sample_config sample_logger sample_db)) t (sample_world [])) = Inr cl"
    unfolding new_server_sel(8) by (rule sample_access)
  let ?r = "(with_bearer t)\<lparr>rq_url_params := [(''id'', ''11'')]\<rparr>"
  have "bearer_token ?r = Some t"
    using with_bearer_token [OF t(1)] by (simp add: bearer_token_def header_get_def)
  moreover have "ul_parse (pk_uuid sample_packages) (first_value (rq_url_params ?r) ''id'') = Inr 1"
    by (simp add: sample_packages_def sample_uuid_def first_value_def)
  ultimately have "world_users (ss_world (snd (h ?r new_writer ?s))) = []"
    using any_session_deletes_any_user [OF h, of ?r t ?s cl 1 new_writer] t(3)
    by (cases "h ?r new_writer ?s")
      (simp add: start_state_def sample_packages_def sample_world_ok sample_user_def, simp add: sample_world_def)
  with h t show ?thesis by blast
qed

end
